(* ===== verification/Prelude.thy ===== *)
theory Prelude
  imports Main "HOL-Library.Word" "HOL-Library.Multiset" "HOL-Library.List_Lexorder"
    "HOL-Library.Product_Lexorder"
begin

text \<open>
  Shared vocabulary of the development: the names of Rust's machine integers and byte
  strings, results of fallible code as sums, sorted association lists as the model of
  ordered maps (\<open>BTreeMap\<close>, \<open>im::OrdMap\<close>), and generic lemmas on lists and words
  that the component theories use.
\<close>

section \<open>Types and automation\<close>

type_synonym u8 = "8 word"
type_synonym u32 = "32 word"
type_synonym u64 = "64 word"
type_synonym u128 = "128 word"
type_synonym bytes = "u8 list"

text \<open>
  \<open>result_simps\<close>: how results compose. \<open>frame\<close>: which fields an operation leaves
  alone. \<open>wf_intros\<close>: preservation of the components' invariants.
\<close>

named_theorems result_simps
named_theorems frame
named_theorems wf_intros

section \<open>Results\<close>

text \<open>
  A fallible function returns \<open>Inl e\<close> for \<open>Err(e)\<close> and \<open>Inr x\<close> for \<open>Ok(x)\<close>.
  \<open>bind_result\<close> is the question mark operator: it returns the error or goes on with
  the value. \<open>ensure\<close> is the macro \<open>ensure!\<close>.
\<close>

fun bind_result :: "'e + 'a \<Rightarrow> ('a \<Rightarrow> 'e + 'b) \<Rightarrow> 'e + 'b" where
  "bind_result (Inl e) f = Inl e"
| "bind_result (Inr x) f = f x"

definition ensure :: "bool \<Rightarrow> 'e \<Rightarrow> 'e + unit" where
  "ensure b e = (if b then Inr () else Inl e)"

definition ok_or :: "'a option \<Rightarrow> 'e \<Rightarrow> 'e + 'a" where
  "ok_or m e = (case m of None \<Rightarrow> Inl e | Some x \<Rightarrow> Inr x)"

lemma bind_result_Inr_iff [result_simps]:
  "bind_result r f = Inr y \<longleftrightarrow> (\<exists>x. r = Inr x \<and> f x = Inr y)"
  by (cases r) auto

lemma bind_result_Inl_iff [result_simps]:
  "bind_result r f = Inl e \<longleftrightarrow> r = Inl e \<or> (\<exists>x. r = Inr x \<and> f x = Inl e)"
  by (cases r) auto

lemma ensure_Inr_iff [result_simps]: "ensure b e = Inr u \<longleftrightarrow> b"
  by (simp add: ensure_def)

lemma ensure_Inl_iff [result_simps]: "ensure b e = Inl e' \<longleftrightarrow> \<not> b \<and> e' = e"
  by (auto simp: ensure_def)

text \<open>
  Code that may also panic (\<open>unwrap\<close>, \<open>expect\<close>, checked arithmetic) returns \<open>None\<close>
  for the panic and \<open>Some\<close> of a result otherwise.
\<close>

type_synonym ('e, 'a) call = "('e + 'a) option"

fun bind_call :: "('e, 'a) call \<Rightarrow> ('a \<Rightarrow> ('e, 'b) call) \<Rightarrow> ('e, 'b) call" where
  "bind_call None f = None"
| "bind_call (Some (Inl e)) f = Some (Inl e)"
| "bind_call (Some (Inr x)) f = f x"

definition ok_call :: "'a \<Rightarrow> ('e, 'a) call" where
  "ok_call x = Some (Inr x)"

definition expect_call :: "'a option \<Rightarrow> ('e, 'a) call" where
  "expect_call m = map_option Inr m"

lemma bind_call_Inr_iff [result_simps]:
  "bind_call c f = Some (Inr y) \<longleftrightarrow> (\<exists>x. c = Some (Inr x) \<and> f x = Some (Inr y))"
  by (cases "(c, f)" rule: bind_call.cases) auto

lemma bind_call_None_iff [result_simps]:
  "bind_call c f = None \<longleftrightarrow> c = None \<or> (\<exists>x. c = Some (Inr x) \<and> f x = None)"
  by (cases "(c, f)" rule: bind_call.cases) auto

lemma bind_call_Inl_iff [result_simps]:
  "bind_call c f = Some (Inl e) \<longleftrightarrow> c = Some (Inl e) \<or> (\<exists>x. c = Some (Inr x) \<and> f x = Some (Inl e))"
  by (cases "(c, f)" rule: bind_call.cases) auto

lemma ok_call_iff [result_simps]:
  "ok_call x = Some r \<longleftrightarrow> r = Inr x" "ok_call x \<noteq> None"
  by (auto simp: ok_call_def)

lemma expect_call_iff [result_simps]:
  "expect_call m = Some (Inr x) \<longleftrightarrow> m = Some x" "expect_call m = None \<longleftrightarrow> m = None"
  "expect_call m \<noteq> Some (Inl e)"
  by (auto simp: expect_call_def)

text \<open>
  \<open>unwrap_call\<close> is \<open>expect\<close> on a result: an error panics. \<open>fold_call\<close> runs a loop body
  over the elements of a list and stops at the first error or panic.
\<close>

definition unwrap_call :: "('e, 'a) call \<Rightarrow> ('f, 'a) call" where
  "unwrap_call c = (case c of Some (Inr x) \<Rightarrow> Some (Inr x) | _ \<Rightarrow> None)"

fun fold_call :: "('b \<Rightarrow> 's \<Rightarrow> ('e, 's) call) \<Rightarrow> 'b list \<Rightarrow> 's \<Rightarrow> ('e, 's) call" where
  "fold_call f [] s = ok_call s"
| "fold_call f (x # xs) s = bind_call (f x s) (fold_call f xs)"

lemma unwrap_call_iff [result_simps]:
  "unwrap_call c = Some (Inr x) \<longleftrightarrow> c = Some (Inr x)" "unwrap_call c \<noteq> Some (Inl e)"
  by (auto simp: unwrap_call_def split: option.splits sum.splits)

lemma fold_call_invariant:
  assumes "fold_call f xs s = Some (Inr s')" and "P s"
    and "\<And>x s s'. x \<in> set xs \<Longrightarrow> P s \<Longrightarrow> f x s = Some (Inr s') \<Longrightarrow> P s'"
  shows "P s'"
  using assms
proof (induction xs arbitrary: s)
  case Nil
  then show ?case by (simp add: result_simps)
next
  case (Cons x xs)
  then obtain s1 where "f x s = Some (Inr s1)" "fold_call f xs s1 = Some (Inr s')"
    by (auto simp: result_simps)
  with Cons show ?case by (metis list.set_intros)
qed

lemma ensure_True [simp]: "ensure True e = Inr ()"
  by (simp add: ensure_def)

lemma ensure_False [simp]: "ensure False e = Inl e"
  by (simp add: ensure_def)

lemma ok_or_Inr_iff [result_simps]: "ok_or m e = Inr x \<longleftrightarrow> m = Some x"
  by (auto simp: ok_or_def split: option.splits)

lemma ok_or_Inl_iff [result_simps]: "ok_or m e = Inl e' \<longleftrightarrow> m = None \<and> e' = e"
  by (auto simp: ok_or_def split: option.splits)

lemma ok_or_simps [simp]: "ok_or None e = Inl e" "ok_or (Some x) e = Inr x"
  by (simp_all add: ok_or_def)

section \<open>Ordered maps\<close>

text \<open>
  \<open>BTreeMap\<close> iterates in key order, so the model is the list of its entries with
  strictly increasing keys.
\<close>

type_synonym ('k, 'v) btree = "('k \<times> 'v) list"

fun bt_insert :: "'k::linorder \<Rightarrow> 'v \<Rightarrow> ('k, 'v) btree \<Rightarrow> ('k, 'v) btree" where
  "bt_insert k v [] = [(k, v)]"
| "bt_insert k v (e # m) =
     (if k < fst e then (k, v) # e # m
      else if fst e = k then (k, v) # m
      else e # bt_insert k v m)"

definition bt_remove :: "'k \<Rightarrow> ('k, 'v) btree \<Rightarrow> ('k, 'v) btree" where
  "bt_remove k m = filter (\<lambda>e. fst e \<noteq> k) m"

definition bt_inv :: "('k::linorder, 'v) btree \<Rightarrow> bool" where
  "bt_inv m = sorted_wrt (<) (map fst m)"

lemma bt_inv_simps [simp]:
  "bt_inv []"
  "bt_inv (e # m) \<longleftrightarrow> (\<forall>d\<in>set m. fst e < fst d) \<and> bt_inv m"
  by (auto simp: bt_inv_def)

lemma keys_bt_insert [simp]: "fst ` set (bt_insert k v m) = insert k (fst ` set m)"
  by (induction m) (auto simp: image_iff)

lemma bt_inv_insert [simp, wf_intros]: "bt_inv m \<Longrightarrow> bt_inv (bt_insert k v m)"
proof (induction m)
  case Nil
  then show ?case by simp
next
  case (Cons e m)
  have keys: "\<forall>d\<in>set (bt_insert k v m). fst d = k \<or> fst d \<in> fst ` set m"
    using keys_bt_insert [of k v m] by blast
  have "\<forall>d\<in>set (bt_insert k v m). fst e < fst d" if "\<not> k < fst e" "fst e \<noteq> k"
    using that Cons.prems keys by fastforce
  with Cons show ?case by auto
qed

lemma bt_inv_remove [simp, wf_intros]: "bt_inv m \<Longrightarrow> bt_inv (bt_remove k m)"
  by (induction m) (auto simp: bt_remove_def)

lemma bt_get_insert [simp]: "bt_inv m \<Longrightarrow> map_of (bt_insert k v m) = (map_of m)(k \<mapsto> v)"
proof (induction m)
  case Nil
  then show ?case by simp
next
  case (Cons e m)
  then show ?case by (cases e) (auto simp: fun_eq_iff map_of_eq_None_iff image_iff)
qed

lemma bt_get_remove [simp]: "map_of (bt_remove k m) = (map_of m)(k := None)"
  by (induction m) (auto simp: bt_remove_def fun_eq_iff)

lemma bt_inv_distinct: "bt_inv m \<Longrightarrow> distinct (map fst m)"
  by (simp add: bt_inv_def strict_sorted_iff)

lemma bt_inv_map_values [simp, wf_intros]:
  "bt_inv m \<Longrightarrow> bt_inv (map (\<lambda>(k, v). (k, f k v)) m)"
  by (induction m) auto

lemma bt_get_map_values [simp]:
  "map_of (map (\<lambda>(k, v). (k, f k v)) m) k = map_option (f k) (map_of m k)"
  by (induction m) auto

text \<open>
  The contract of an ordered map as its clients use it: what a lookup returns after an
  update or a removal, and that the representation stays well formed.
\<close>

locale ordered_map =
  fixes get :: "'m \<Rightarrow> 'k \<Rightarrow> 'v option"
    and put :: "'k \<Rightarrow> 'v \<Rightarrow> 'm \<Rightarrow> 'm"
    and del :: "'k \<Rightarrow> 'm \<Rightarrow> 'm"
    and inv :: "'m \<Rightarrow> bool"
  assumes get_put: "inv m \<Longrightarrow> get (put k v m) = (get m)(k \<mapsto> v)"
    and get_del: "inv m \<Longrightarrow> get (del k m) = (get m)(k := None)"
    and inv_put: "inv m \<Longrightarrow> inv (put k v m)"
    and inv_del: "inv m \<Longrightarrow> inv (del k m)"
begin

text \<open>Writing a batch of optional values: \<open>Some\<close> stores, \<open>None\<close> removes.\<close>

lemma inv_batch:
  "inv m \<Longrightarrow> inv (fold (\<lambda>(k, v) m. case v of None \<Rightarrow> del k m | Some x \<Rightarrow> put k x m) ups m)"
  by (induction ups arbitrary: m) (auto simp: inv_put inv_del split: option.splits)

lemma get_batch_notin:
  "inv m \<Longrightarrow> k \<notin> fst ` set ups \<Longrightarrow>
   get (fold (\<lambda>(k, v) m. case v of None \<Rightarrow> del k m | Some x \<Rightarrow> put k x m) ups m) k = get m k"
  by (induction ups arbitrary: m)
    (auto simp: get_put get_del inv_put inv_del split: option.splits)

lemma get_batch_in:
  "inv m \<Longrightarrow> distinct (map fst ups) \<Longrightarrow> (k, v) \<in> set ups \<Longrightarrow>
   get (fold (\<lambda>(k, v) m. case v of None \<Rightarrow> del k m | Some x \<Rightarrow> put k x m) ups m) k = v"
proof (induction ups arbitrary: m)
  case Nil
  then show ?case by simp
next
  case (Cons u ups)
  obtain k' v' where u: "u = (k', v')" by (cases u)
  let ?m = "case v' of None \<Rightarrow> del k' m | Some x \<Rightarrow> put k' x m"
  have m: "inv ?m" using Cons.prems(1) by (auto intro: inv_put inv_del split: option.splits)
  show ?case
  proof (cases "k' = k")
    case True
    with Cons.prems u have "v' = v" "k \<notin> fst ` set ups" by (force simp: image_iff)+
    with get_batch_notin [OF m, of k ups] True Cons.prems(1) u show ?thesis
      by (auto simp: get_put get_del split: option.splits)
  next
    case False
    with Cons.prems u have "(k, v) \<in> set ups" "distinct (map fst ups)" by auto
    from Cons.IH [OF m this(2,1)] u show ?thesis by simp
  qed
qed

end

interpretation bt: ordered_map map_of bt_insert bt_remove "bt_inv :: ('k::linorder, 'v) btree \<Rightarrow> bool"
  by unfold_locales simp_all

section \<open>Lists and words\<close>

lemma unat_inc: "(x :: 'a::len word) \<noteq> - 1 \<Longrightarrow> unat (x + 1) = Suc (unat x)"
  by (metis add.commute add_eq_0_iff unatSuc)

lemma unat_dec: "(x :: 'a::len word) \<noteq> 0 \<Longrightarrow> unat (x - 1) = unat x - 1"
  by (simp add: unat_minus_one)

lemma sorted_wrt_snoc: "sorted_wrt P (xs @ [x]) \<longleftrightarrow> sorted_wrt P xs \<and> (\<forall>y\<in>set xs. P y x)"
  by (auto simp: sorted_wrt_append)

end
