(* ===== verification/Mpsc.thy ===== *)
theory Mpsc
  imports Prelude
begin

text \<open>
  The channel of \<^verbatim>\<open>crates/cyrux-mq/src/simple_mpsc.rs\<close>. Both ends share one
  \<open>Arc<Mutex<Channel>>\<close> and every method holds the lock for its whole body, so each
  method is one atomic function on the channel record. The counts are the numbers of
  live handles; that a handle's drop never underflows its count is part of
  \<open>mpsc_inv\<close> below.
\<close>

section \<open>The channel\<close>

record 'a chan =
  deque :: "'a list"
  sender_count :: nat
  receiver_count :: nat

definition chan_new :: "'a chan" where
  "chan_new = \<lparr>deque = [], sender_count = 1, receiver_count = 1\<rparr>"

datatype send_error = ReceiverGone
datatype receive_error = SenderGone

definition chan_send :: "'a \<Rightarrow> 'a chan \<Rightarrow> 'a chan \<times> (send_error + unit)" where
  "chan_send value ch =
     (if receiver_count ch = 0 then (ch, Inl ReceiverGone)
      else (ch\<lparr>deque := deque ch @ [value]\<rparr>, Inr ()))"

definition chan_clear :: "'a chan \<Rightarrow> 'a chan \<times> nat" where
  "chan_clear ch = (ch\<lparr>deque := []\<rparr>, length (deque ch))"

definition sender_clone :: "'a chan \<Rightarrow> 'a chan" where
  "sender_clone ch = ch\<lparr>sender_count := sender_count ch + 1\<rparr>"

definition sender_drop :: "'a chan \<Rightarrow> 'a chan" where
  "sender_drop ch = ch\<lparr>sender_count := sender_count ch - 1\<rparr>"

definition chan_try_next :: "'a chan \<Rightarrow> 'a chan \<times> (receive_error + 'a option)" where
  "chan_try_next ch =
     (case deque ch of
        value # rest \<Rightarrow> (ch\<lparr>deque := rest\<rparr>, Inr (Some value))
      | [] \<Rightarrow> if sender_count ch = 0 then (ch, Inl SenderGone) else (ch, Inr None))"

definition chan_drain :: "'a chan \<Rightarrow> 'a chan \<times> 'a list" where
  "chan_drain ch = (ch\<lparr>deque := []\<rparr>, deque ch)"

text \<open>\<open>seq\<close> is the method of the trait \<open>Seq\<close>.\<close>

definition chan_peek_ind :: "('a \<Rightarrow> u64) \<Rightarrow> 'a chan \<Rightarrow> receive_error + u64 option" where
  "chan_peek_ind seq ch =
     (case deque ch of
        value # _ \<Rightarrow> Inr (Some (seq value))
      | [] \<Rightarrow> if sender_count ch = 0 then Inl SenderGone else Inr None)"

definition receiver_drop :: "'a chan \<Rightarrow> 'a chan" where
  "receiver_drop ch = ch\<lparr>receiver_count := receiver_count ch - 1\<rparr>"

definition receiver_clone :: "'a chan \<Rightarrow> 'a chan" where
  "receiver_clone ch = ch\<lparr>receiver_count := receiver_count ch + 1\<rparr>"

lemmas chan_defs = chan_new_def chan_send_def chan_clear_def sender_clone_def sender_drop_def
  chan_try_next_def chan_drain_def chan_peek_ind_def receiver_drop_def receiver_clone_def

section \<open>All interleavings of the handles\<close>

text \<open>
  A channel with the handles that exist: \<open>txs\<close> and \<open>rxs\<close> count the live \<open>Sender\<close>
  and \<open>Receiver\<close> values. \<open>accepted\<close> is what successful sends have put in,
  \<open>delivered\<close> what receives and drains have handed out, \<open>cleared\<close> tells that a
  \<open>Sender::clear\<close> has run. A method can run only on a live handle.
\<close>

record 'a mpsc =
  ch :: "'a chan"
  txs :: nat
  rxs :: nat
  accepted :: "'a list"
  delivered :: "'a list"
  cleared :: bool

definition mpsc_init :: "'a mpsc" where
  "mpsc_init = \<lparr>ch = chan_new, txs = 1, rxs = 1, accepted = [], delivered = [], cleared = False\<rparr>"

inductive mpsc_step :: "'a mpsc \<Rightarrow> 'a mpsc \<Rightarrow> bool" where
  send_ok: "0 < txs s \<Longrightarrow> chan_send v (ch s) = (c, Inr ()) \<Longrightarrow>
     mpsc_step s (s\<lparr>ch := c, accepted := accepted s @ [v]\<rparr>)"
| send_gone: "0 < txs s \<Longrightarrow> chan_send v (ch s) = (c, Inl e) \<Longrightarrow> mpsc_step s (s\<lparr>ch := c\<rparr>)"
| clear: "0 < txs s \<Longrightarrow> chan_clear (ch s) = (c, n) \<Longrightarrow> mpsc_step s (s\<lparr>ch := c, cleared := True\<rparr>)"
| clone_tx: "0 < txs s \<Longrightarrow> mpsc_step s (s\<lparr>ch := sender_clone (ch s), txs := txs s + 1\<rparr>)"
| drop_tx: "0 < txs s \<Longrightarrow> mpsc_step s (s\<lparr>ch := sender_drop (ch s), txs := txs s - 1\<rparr>)"
| next_some: "0 < rxs s \<Longrightarrow> chan_try_next (ch s) = (c, Inr (Some v)) \<Longrightarrow>
     mpsc_step s (s\<lparr>ch := c, delivered := delivered s @ [v]\<rparr>)"
| next_none: "0 < rxs s \<Longrightarrow> chan_try_next (ch s) = (c, r) \<Longrightarrow> (\<forall>v. r \<noteq> Inr (Some v)) \<Longrightarrow>
     mpsc_step s (s\<lparr>ch := c\<rparr>)"
| drain: "0 < rxs s \<Longrightarrow> chan_drain (ch s) = (c, vs) \<Longrightarrow>
     mpsc_step s (s\<lparr>ch := c, delivered := delivered s @ vs\<rparr>)"
| clone_rx: "0 < rxs s \<Longrightarrow> mpsc_step s (s\<lparr>ch := receiver_clone (ch s), rxs := rxs s + 1\<rparr>)"
| drop_rx: "0 < rxs s \<Longrightarrow> mpsc_step s (s\<lparr>ch := receiver_drop (ch s), rxs := rxs s - 1\<rparr>)"

inductive mpsc_reachable :: "'a mpsc \<Rightarrow> bool" where
  mpsc_start: "mpsc_reachable mpsc_init"
| mpsc_next: "mpsc_reachable s \<Longrightarrow> mpsc_step s t \<Longrightarrow> mpsc_reachable t"

definition mpsc_inv :: "'a mpsc \<Rightarrow> bool" where
  "mpsc_inv s \<longleftrightarrow>
     sender_count (ch s) = txs s \<and> receiver_count (ch s) = rxs s \<and>
     (\<not> cleared s \<longrightarrow> accepted s = delivered s @ deque (ch s))"

lemma mpsc_inv_step: "mpsc_step s t \<Longrightarrow> mpsc_inv s \<Longrightarrow> mpsc_inv t"
  by (induction rule: mpsc_step.induct)
    (auto simp: mpsc_inv_def chan_defs split: if_splits list.splits)

lemma mpsc_reachable_inv: "mpsc_reachable s \<Longrightarrow> mpsc_inv s"
proof (induction rule: mpsc_reachable.induct)
  case mpsc_start
  show ?case by (simp add: mpsc_inv_def mpsc_init_def chan_new_def)
next
  case (mpsc_next s t)
  then show ?case by (blast intro: mpsc_inv_step)
qed

text \<open>
  C20: whatever the interleaving of sends, receives, clones and drops, a channel nobody has
  cleared hands out exactly what was accepted, in order, with the rest still queued; the
  receiver learns that the senders are gone only when no \<open>Sender\<close> is live and everything
  accepted has been handed out; and a send fails exactly when no \<open>Receiver\<close> is live.
\<close>

theorem mpsc_fifo:
  assumes "mpsc_reachable s" and "\<not> cleared s"
  shows "accepted s = delivered s @ deque (ch s) \<and>
    (snd (chan_try_next (ch s)) = Inl SenderGone \<longleftrightarrow> txs s = 0 \<and> delivered s = accepted s) \<and>
    (snd (chan_send v (ch s)) = Inl ReceiverGone \<longleftrightarrow> rxs s = 0)"
  using mpsc_reachable_inv [OF assms(1)] assms(2)
  by (auto simp: mpsc_inv_def chan_try_next_def chan_send_def split: list.splits)

theorem mpsc_fifo_witness:
  "let s = (mpsc_init :: nat mpsc)\<lparr>ch := \<lparr>deque = [7], sender_count = 1, receiver_count = 1\<rparr>,
       accepted := [7]\<rparr>
   in accepted s = delivered s @ deque (ch s) \<and> snd (chan_try_next (ch s)) \<noteq> Inl SenderGone"
proof -
  let ?s = "(mpsc_init :: nat mpsc)\<lparr>ch := \<lparr>deque = [7], sender_count = 1, receiver_count = 1\<rparr>,
       accepted := [7]\<rparr>"
  have "mpsc_step mpsc_init ((mpsc_init :: nat mpsc)\<lparr>ch := \<lparr>deque = [7], sender_count = 1, receiver_count = 1\<rparr>,
       accepted := accepted (mpsc_init :: nat mpsc) @ [7]\<rparr>)"
    by (rule mpsc_step.send_ok) (simp_all add: mpsc_init_def chan_new_def chan_send_def)
  then have "mpsc_reachable ?s"
    using mpsc_next [OF mpsc_start] by (simp add: mpsc_init_def)
  from mpsc_fifo [OF this] show ?thesis
    by (simp add: mpsc_init_def)
qed

end
