(* ===== verification/Mq_Types.thy ===== *)
theory Mq_Types
  imports Prelude
begin

text \<open>
  The data of the message queue: \<^verbatim>\<open>crates/cyrux-mq/src/types.rs\<close> and the wrapping of
  signed content of \<^verbatim>\<open>crates/cyrux-types/src/lib.rs\<close>. The SCALE codec and the
  signature scheme are not part of the repository: what the code takes from them is a
  parameter of the definitions.
\<close>

section \<open>Origins\<close>

datatype message_origin =
    Pallet bytes
  | Contract bytes
  | Worker bytes
  | AccountId bytes
  | MultiLocation bytes
  | Gatekeeper
  | Cluster bytes
  | Reserved

type_synonym sender_id = message_origin

fun is_offchain :: "message_origin \<Rightarrow> bool" where
  "is_offchain (Cluster _) = True"
| "is_offchain (Contract _) = True"
| "is_offchain (Worker _) = True"
| "is_offchain Gatekeeper = True"
| "is_offchain _ = False"

fun is_pallet :: "message_origin \<Rightarrow> bool" where
  "is_pallet (Pallet _) = True"
| "is_pallet _ = False"

fun always_well_formed :: "message_origin \<Rightarrow> bool" where
  "always_well_formed (Pallet _) = True"
| "always_well_formed (Worker _) = True"
| "always_well_formed Gatekeeper = True"
| "always_well_formed _ = False"

fun is_gatekeeper :: "message_origin \<Rightarrow> bool" where
  "is_gatekeeper Gatekeeper = True"
| "is_gatekeeper _ = False"

datatype bad_origin = BadOrigin

fun origin_account :: "message_origin \<Rightarrow> bad_origin + bytes" where
  "origin_account (AccountId account_id) = Inr account_id"
| "origin_account _ = Inl BadOrigin"

text \<open>
  The derived order compares the position of the variant first and then the data. It is
  the iteration order of the maps keyed by origins.
\<close>

fun origin_rank :: "message_origin \<Rightarrow> nat" where
  "origin_rank (Pallet _) = 0"
| "origin_rank (Contract _) = 1"
| "origin_rank (Worker _) = 2"
| "origin_rank (AccountId _) = 3"
| "origin_rank (MultiLocation _) = 4"
| "origin_rank Gatekeeper = 5"
| "origin_rank (Cluster _) = 6"
| "origin_rank Reserved = 7"

fun origin_data :: "message_origin \<Rightarrow> bytes" where
  "origin_data (Pallet d) = d"
| "origin_data (Contract d) = d"
| "origin_data (Worker d) = d"
| "origin_data (AccountId d) = d"
| "origin_data (MultiLocation d) = d"
| "origin_data (Cluster d) = d"
| "origin_data _ = []"

lemma origin_rank_data_inject: "origin_rank a = origin_rank b \<Longrightarrow> origin_data a = origin_data b \<Longrightarrow> a = b"
  by (cases a; cases b) auto

instantiation message_origin :: linorder
begin

definition less_eq_message_origin :: "message_origin \<Rightarrow> message_origin \<Rightarrow> bool" where
  "a \<le> b \<longleftrightarrow> (origin_rank a, origin_data a) \<le> (origin_rank b, origin_data b)"

definition less_message_origin :: "message_origin \<Rightarrow> message_origin \<Rightarrow> bool" where
  "a < b \<longleftrightarrow> (origin_rank a, origin_data a) < (origin_rank b, origin_data b)"

instance
  by standard
    (auto simp: less_eq_message_origin_def less_message_origin_def intro: origin_rank_data_inject)

end

section \<open>Topics and messages\<close>

type_synonym path = bytes

datatype topic = Topic (topic_path: path)

text \<open>The bytes of \<^verbatim>\<open>~!@#$%&*_+-=|<>?,./;:'\<close>.\<close>

definition RESERVED_BYTES :: bytes where
  "RESERVED_BYTES = [126, 33, 64, 35, 36, 37, 38, 42, 95, 43, 45, 61, 124, 60, 62, 63, 44, 46, 47, 59, 58, 39]"

definition topic_is_valid :: "topic \<Rightarrow> bool" where
  "topic_is_valid t = (case topic_path t of [] \<Rightarrow> False | b # _ \<Rightarrow> b \<notin> set RESERVED_BYTES)"

definition topic_is_offchain :: "topic \<Rightarrow> bool" where
  "topic_is_offchain t =
     (if \<not> topic_is_valid t then False
      else (case topic_path t of [] \<Rightarrow> False | b # _ \<Rightarrow> b \<noteq> 94))"

record message =
  sender :: sender_id
  destination :: topic
  payload :: bytes

definition message_new :: "sender_id \<Rightarrow> path \<Rightarrow> bytes \<Rightarrow> message" where
  "message_new s d p = \<lparr>sender = s, destination = Topic d, payload = p\<rparr>"

definition decode_payload :: "(bytes \<Rightarrow> 'a option) \<Rightarrow> message \<Rightarrow> 'a option" where
  "decode_payload decode m = decode (payload m)"

record 'a decoded_message =
  dm_sender :: sender_id
  dm_destination :: topic
  dm_payload :: 'a

definition message_decode :: "(bytes \<Rightarrow> 'a option) \<Rightarrow> message \<Rightarrow> 'a decoded_message option" where
  "message_decode decode m =
     (case decode_payload decode m of
        None \<Rightarrow> None
      | Some p \<Rightarrow> Some \<lparr>dm_sender = sender m, dm_destination = destination m, dm_payload = p\<rparr>)"

record signed_message =
  message :: message
  sequence :: u64
  signature :: bytes

text \<open>\<open>encode\<close> is the SCALE encoding of the pair of a message and its sequence number.\<close>

type_synonym encoder = "message \<Rightarrow> u64 \<Rightarrow> bytes"

definition data_be_signed :: "encoder \<Rightarrow> signed_message \<Rightarrow> bytes" where
  "data_be_signed encode m = encode (message m) (sequence m)"

record 'sk signing_message =
  sg_message :: message
  sg_signer :: 'sk

text \<open>\<open>sign\<close> is the method of \<open>MessageSigner\<close>.\<close>

definition sign_message :: "encoder \<Rightarrow> ('sk \<Rightarrow> bytes \<Rightarrow> bytes) \<Rightarrow> 'sk signing_message \<Rightarrow> u64 \<Rightarrow> signed_message" where
  "sign_message encode sign m seq =
     (let data = encode (sg_message m) seq in
      \<lparr>message = sg_message m, sequence = seq, signature = sign (sg_signer m) data\<rparr>)"

lemma sign_message_simps [simp]:
  "message (sign_message encode sign m seq) = sg_message m"
  "sequence (sign_message encode sign m seq) = seq"
  by (simp_all add: sign_message_def Let_def)

section \<open>Signed content\<close>

datatype signed_content_type =
    MqMessage
  | RpcResponse
  | EndpointInfo
  | MasterKeyRotation
  | MasterKeyStore
  | ClusterStateRequest
  | EventChainBlock

fun content_type_byte :: "signed_content_type \<Rightarrow> u8" where
  "content_type_byte MqMessage = 0"
| "content_type_byte RpcResponse = 1"
| "content_type_byte EndpointInfo = 2"
| "content_type_byte MasterKeyRotation = 3"
| "content_type_byte MasterKeyStore = 4"
| "content_type_byte ClusterStateRequest = 5"
| "content_type_byte EventChainBlock = 6"

fun wrap_content_to_sign :: "bytes \<Rightarrow> signed_content_type \<Rightarrow> bytes" where
  "wrap_content_to_sign data MqMessage = data"
| "wrap_content_to_sign data t = 255 # content_type_byte t # data"

lemma content_type_byte_inject: "content_type_byte s = content_type_byte t \<Longrightarrow> s = t"
  by (cases s; cases t) auto

lemma wrap_content_other: "t \<noteq> MqMessage \<Longrightarrow> wrap_content_to_sign d t = 255 # content_type_byte t # d"
  by (cases t) auto

text \<open>
  The first byte of the SCALE encoding of a message is the index of the variant of its
  sender, which the source pins for \<open>Reserved\<close> with \<^verbatim>\<open>#[codec(index = 255)]\<close>.
\<close>

fun origin_codec_index :: "message_origin \<Rightarrow> u8" where
  "origin_codec_index Reserved = 255"
| "origin_codec_index m = of_nat (origin_rank m)"

definition encodes_sender_first :: "encoder \<Rightarrow> bool" where
  "encodes_sender_first encode \<longleftrightarrow>
     (\<forall>m s. \<exists>rest. encode m s = origin_codec_index (sender m) # rest)"

lemma origin_codec_index_255: "origin_codec_index s = 255 \<Longrightarrow> s = Reserved"
  by (cases s) auto

end
