(* ===== verification/Dispatcher.thy ===== *)
theory Dispatcher
  imports Mpsc Mq_Types
begin

text \<open>
  The inbound side of the message queue inside the enclave runtime:
  \<^verbatim>\<open>crates/cyrux-mq/src/dispatcher.rs\<close>. The channels live in a heap, because the
  dispatcher and the components hold the two ends of the same \<open>Arc\<close>; a handle is the
  address of its channel. \<open>select\<close> is the macro \<open>select!\<close> with which a component
  serves several receivers.
\<close>

section \<open>State\<close>

type_synonym item = "u64 \<times> message"

record heap =
  chans :: "nat \<Rightarrow> item chan"
  fresh :: nat

record dispatcher =
  subscribers :: "(path, nat list) btree"
  local_index :: u64

record receiver =
  inner :: nat
  topic :: path

definition dispatcher_new :: dispatcher where
  "dispatcher_new = \<lparr>subscribers = [], local_index = 0\<rparr>"

definition set_chan :: "nat \<Rightarrow> item chan \<Rightarrow> heap \<Rightarrow> heap" where
  "set_chan i c h = h\<lparr>chans := (chans h)(i := c)\<rparr>"

text \<open>\<open>channel()\<close> allocates the channel both ends point to.\<close>

definition alloc_channel :: "heap \<Rightarrow> heap \<times> nat" where
  "alloc_channel h = (set_chan (fresh h) chan_new (h\<lparr>fresh := fresh h + 1\<rparr>), fresh h)"

section \<open>Operations of the dispatcher\<close>

definition subscribe :: "path \<Rightarrow> dispatcher \<Rightarrow> heap \<Rightarrow> dispatcher \<times> heap \<times> receiver" where
  "subscribe p d h =
     (let (h', i) = alloc_channel h;
          entry = (case map_of (subscribers d) p of None \<Rightarrow> [] | Some rs \<Rightarrow> rs)
      in (d\<lparr>subscribers := bt_insert p (entry @ [i]) (subscribers d)\<rparr>, h', \<lparr>inner = i, topic = p\<rparr>))"

text \<open>
  \<open>retain\<close> visits the senders in order. A sender whose receivers are gone is removed,
  and removing it drops the handle.
\<close>

fun retain_send :: "item \<Rightarrow> nat list \<Rightarrow> heap \<Rightarrow> heap \<times> nat list \<times> nat" where
  "retain_send x [] h = (h, [], 0)"
| "retain_send x (i # is) h =
     (case chan_send x (chans h i) of
        (c, Inl ReceiverGone) \<Rightarrow> retain_send x is (set_chan i (sender_drop c) h)
      | (c, Inr _) \<Rightarrow>
          (case retain_send x is (set_chan i c h) of (h', kept, n) \<Rightarrow> (h', i # kept, n + 1)))"

definition dispatch :: "message \<Rightarrow> dispatcher \<Rightarrow> heap \<Rightarrow> dispatcher \<times> heap \<times> nat" where
  "dispatch m d h =
     (let sn = local_index d;
          d' = d\<lparr>local_index := local_index d + 1\<rparr>;
          p = topic_path (destination m)
      in case map_of (subscribers d') p of
           None \<Rightarrow> (d', h, 0)
         | Some receivers \<Rightarrow>
             (case retain_send (sn, m) receivers h of
                (h', kept, n) \<Rightarrow> (d'\<lparr>subscribers := bt_insert p kept (subscribers d')\<rparr>, h', n)))"

definition reset_local_index :: "dispatcher \<Rightarrow> dispatcher" where
  "reset_local_index d = d\<lparr>local_index := 0\<rparr>"

fun clear_all :: "nat list \<Rightarrow> heap \<Rightarrow> heap \<times> nat" where
  "clear_all [] h = (h, 0)"
| "clear_all (i # is) h =
     (case chan_clear (chans h i) of
        (c, n) \<Rightarrow> (case clear_all is (set_chan i c h) of (h', k) \<Rightarrow> (h', n + k)))"

definition dispatcher_clear :: "dispatcher \<Rightarrow> heap \<Rightarrow> heap \<times> nat" where
  "dispatcher_clear d h = clear_all (concat (map snd (subscribers d))) h"

section \<open>Receiving\<close>

definition recv_try_next :: "receiver \<Rightarrow> heap \<Rightarrow> heap \<times> (receive_error + item option)" where
  "recv_try_next r h =
     (case chan_try_next (chans h (inner r)) of (c, res) \<Rightarrow> (set_chan (inner r) c h, res))"


datatype 'ce typed_receive_error = TSenderGone | CodecError 'ce

fun is_sender_gone :: "'ce typed_receive_error \<Rightarrow> bool" where
  "is_sender_gone TSenderGone = True"
| "is_sender_gone (CodecError _) = False"



section \<open>Select\<close>




lemma set_chan_simps [simp]:
  "chans (set_chan i c h) = (chans h)(i := c)" "fresh (set_chan i c h) = fresh h"
  by (simp_all add: set_chan_def)

section \<open>Invariant\<close>

text \<open>
  Every queue holds strictly increasing sequence numbers below the next one to be given,
  and no channel is subscribed twice.
\<close>

definition queue_ordered :: "u64 \<Rightarrow> item chan \<Rightarrow> bool" where
  "queue_ordered n c \<longleftrightarrow> sorted_wrt (<) (map fst (deque c)) \<and> (\<forall>x\<in>set (deque c). fst x < n)"

definition subscribed :: "dispatcher \<Rightarrow> nat set" where
  "subscribed d = (\<Union>rs\<in>ran (map_of (subscribers d)). set rs)"

definition disp_inv :: "dispatcher \<Rightarrow> heap \<Rightarrow> bool" where
  "disp_inv d h \<longleftrightarrow>
     bt_inv (subscribers d) \<and>
     (\<forall>p rs. map_of (subscribers d) p = Some rs \<longrightarrow> distinct rs) \<and>
     (\<forall>p q rs qs. p \<noteq> q \<longrightarrow> map_of (subscribers d) p = Some rs \<longrightarrow>
        map_of (subscribers d) q = Some qs \<longrightarrow> set rs \<inter> set qs = {}) \<and>
     (\<forall>p rs i. map_of (subscribers d) p = Some rs \<longrightarrow> i \<in> set rs \<longrightarrow>
        i < fresh h \<and> queue_ordered (local_index d) (chans h i))"

lemma subscribed_iff: "i \<in> subscribed d \<longleftrightarrow> (\<exists>p rs. map_of (subscribers d) p = Some rs \<and> i \<in> set rs)"
  by (auto simp: subscribed_def ran_def)

lemma disp_invD:
  assumes "disp_inv d h"
  shows "bt_inv (subscribers d)"
    and "map_of (subscribers d) p = Some rs \<Longrightarrow> distinct rs"
    and "map_of (subscribers d) p = Some rs \<Longrightarrow> map_of (subscribers d) q = Some qs \<Longrightarrow> p \<noteq> q \<Longrightarrow>
      set rs \<inter> set qs = {}"
    and "map_of (subscribers d) p = Some rs \<Longrightarrow> i \<in> set rs \<Longrightarrow> i < fresh h"
    and "map_of (subscribers d) p = Some rs \<Longrightarrow> i \<in> set rs \<Longrightarrow> queue_ordered (local_index d) (chans h i)"
  using assms unfolding disp_inv_def by blast+

lemma disp_invI:
  assumes "bt_inv (subscribers d)"
    and "\<And>p rs. map_of (subscribers d) p = Some rs \<Longrightarrow> distinct rs"
    and "\<And>p q rs qs. map_of (subscribers d) p = Some rs \<Longrightarrow> map_of (subscribers d) q = Some qs \<Longrightarrow> p \<noteq> q \<Longrightarrow>
      set rs \<inter> set qs = {}"
    and "\<And>p rs i. map_of (subscribers d) p = Some rs \<Longrightarrow> i \<in> set rs \<Longrightarrow> i < fresh h"
    and "\<And>p rs i. map_of (subscribers d) p = Some rs \<Longrightarrow> i \<in> set rs \<Longrightarrow> queue_ordered (local_index d) (chans h i)"
  shows "disp_inv d h"
  using assms unfolding disp_inv_def by blast

lemma queue_ordered_simps [simp]:
  "queue_ordered n chan_new"
  "queue_ordered n (sender_drop c) \<longleftrightarrow> queue_ordered n c"
  "deque c = [] \<Longrightarrow> queue_ordered n c"
  by (simp_all add: queue_ordered_def chan_new_def sender_drop_def)

lemma queue_ordered_mono: "queue_ordered n c \<Longrightarrow> n \<le> k \<Longrightarrow> queue_ordered k c"
  by (auto simp: queue_ordered_def dest: order.strict_trans2)

lemma queue_ordered_push:
  "queue_ordered n c \<Longrightarrow> n < k \<Longrightarrow> queue_ordered k (c\<lparr>deque := deque c @ [(n, m)]\<rparr>)"
  by (auto simp: queue_ordered_def sorted_wrt_snoc)

lemma queue_ordered_pop:
  "queue_ordered n c \<Longrightarrow> deque c = x # xs \<Longrightarrow> queue_ordered n (c\<lparr>deque := xs\<rparr>)"
  by (auto simp: queue_ordered_def)

section \<open>What dispatching does\<close>

definition alive :: "heap \<Rightarrow> nat \<Rightarrow> bool" where
  "alive h i \<longleftrightarrow> receiver_count (chans h i) \<noteq> 0"

lemma retain_send_spec:
  "distinct is \<Longrightarrow> retain_send x is h = (h', kept, n) \<Longrightarrow>
   kept = filter (alive h) is \<and> n = length kept \<and> fresh h' = fresh h \<and>
   (\<forall>i. chans h' i =
      (if i \<in> set is
       then if alive h i then (chans h i)\<lparr>deque := deque (chans h i) @ [x]\<rparr> else sender_drop (chans h i)
       else chans h i))"
proof (induction x "is" h arbitrary: h' kept n rule: retain_send.induct)
  case (1 x h)
  then show ?case by simp
next
  case (2 x i "is" h)
  show ?case
  proof (cases "receiver_count (chans h i) = 0")
    case True
    let ?h = "set_chan i (sender_drop (chans h i)) h"
    have r: "retain_send x is ?h = (h', kept, n)" and d: "i \<notin> set is" "distinct is"
      using "2.prems" True by (auto simp: chan_send_def)
    have a: "\<forall>j\<in>set is. alive ?h j = alive h j" using d by (auto simp: alive_def)
    from "2.IH"(1) [OF _ _ _ d(2) r] True a d show ?thesis
      by (auto simp: chan_send_def alive_def cong: filter_cong)
  next
    case False
    let ?h = "set_chan i ((chans h i)\<lparr>deque := deque (chans h i) @ [x]\<rparr>) h"
    obtain kept' n' where r: "retain_send x is ?h = (h', kept', n')"
      and k: "kept = i # kept'" "n = n' + 1" and d: "i \<notin> set is" "distinct is"
      using "2.prems" False by (auto simp: chan_send_def split: prod.splits)
    have a: "\<forall>j\<in>set is. alive ?h j = alive h j" using d by (auto simp: alive_def)
    from "2.IH"(2) [OF _ _ d(2) r] False a d k show ?thesis
      by (auto simp: chan_send_def alive_def cong: filter_cong)
  qed
qed

text \<open>
  C17: dispatching a message appends it, with the current sequence number, to the queue of
  every subscriber of its topic that still has a receiver, exactly once; no other queue
  changes; subscribers without a receiver are removed; and the result is the number of
  receivers reached.
\<close>

theorem dispatch_delivers:
  assumes inv: "disp_inv d h" and run: "dispatch m d h = (d', h', n)"
    and subs: "map_of (subscribers d) (topic_path (destination m)) = Some rs"
  shows "(\<forall>i. deque (chans h' i) =
      (if i \<in> set rs \<and> alive h i then deque (chans h i) @ [(local_index d, m)] else deque (chans h i))) \<and>
    map_of (subscribers d') = (map_of (subscribers d))(topic_path (destination m) \<mapsto> filter (alive h) rs) \<and>
    n = length (filter (alive h) rs)"
proof -
  let ?p = "topic_path (destination m)"
  obtain kept where r: "retain_send (local_index d, m) rs h = (h', kept, n)"
    and d': "d' = d\<lparr>local_index := local_index d + 1, subscribers := bt_insert ?p kept (subscribers d)\<rparr>"
    using run subs by (auto simp: dispatch_def Let_def split: prod.splits)
  from retain_send_spec [OF disp_invD(2) [OF inv subs] r] disp_invD(1) [OF inv] d'
  show ?thesis by (auto simp: sender_drop_def)
qed

lemma dispatch_inv [wf_intros]:
  assumes inv: "disp_inv d h" and run: "dispatch m d h = (d', h', n)" and nowrap: "local_index d \<noteq> - 1"
  shows "disp_inv d' h'"
proof (cases "map_of (subscribers d) (topic_path (destination m))")
  let ?k = "local_index d"
  have k: "?k < ?k + 1" "?k \<le> ?k + 1"
    using unat_inc [OF nowrap] by (auto simp: word_less_nat_alt word_le_nat_alt)
  {
    case None
    then have "d' = d\<lparr>local_index := ?k + 1\<rparr>" "h' = h"
      using run by (auto simp: dispatch_def Let_def)
    with inv k(2) queue_ordered_mono show ?thesis by (simp add: disp_inv_def) blast
  next
    case (Some rs)
    let ?p = "topic_path (destination m)"
    obtain kept where r: "retain_send (?k, m) rs h = (h', kept, n)"
      and d': "d' = d\<lparr>local_index := ?k + 1, subscribers := bt_insert ?p kept (subscribers d)\<rparr>"
      using run Some by (auto simp: dispatch_def Let_def split: prod.splits)
    note spec = retain_send_spec [OF disp_invD(2) [OF inv Some] r]
    have subs: "map_of (subscribers d') q = (if q = ?p then Some (filter (alive h) rs) else map_of (subscribers d) q)" for q
      using disp_invD(1) [OF inv] d' spec by simp
    have ord: "queue_ordered (?k + 1) (chans h' i)" if "queue_ordered ?k (chans h i)" for i
      using spec that queue_ordered_push [OF that k(1)] queue_ordered_mono [OF that k(2)] by simp
    show ?thesis
    proof (rule disp_invI)
      show "bt_inv (subscribers d')" using disp_invD(1) [OF inv] d' by simp
      show "distinct qs" if "map_of (subscribers d') q = Some qs" for q qs
        using that subs disp_invD(2) [OF inv] Some by (auto split: if_splits)
      show "set qs \<inter> set qs' = {}" if "map_of (subscribers d') q = Some qs"
        "map_of (subscribers d') q' = Some qs'" "q \<noteq> q'" for q q' qs qs'
        using that subs disp_invD(3) [OF inv] Some by (fastforce split: if_splits)
      show "i < fresh h'" if "map_of (subscribers d') q = Some qs" "i \<in> set qs" for q qs i
        using that subs disp_invD(4) [OF inv] Some spec by (auto split: if_splits)
      show "queue_ordered (local_index d') (chans h' i)"
        if "map_of (subscribers d') q = Some qs" "i \<in> set qs" for q qs i
        using that subs disp_invD(5) [OF inv] Some d' ord by (auto split: if_splits)
    qed
  }
qed

lemma subscribe_inv [wf_intros]:
  assumes inv: "disp_inv d h" and run: "subscribe p d h = (d', h', r)"
  shows "disp_inv d' h'"
proof -
  define entry where "entry = (case map_of (subscribers d) p of None \<Rightarrow> [] | Some rs \<Rightarrow> rs)"
  have d': "d' = d\<lparr>subscribers := bt_insert p (entry @ [fresh h]) (subscribers d)\<rparr>"
    and h': "chans h' = (chans h)(fresh h := chan_new)" "fresh h' = fresh h + 1"
    using run by (auto simp: subscribe_def alloc_channel_def entry_def Let_def)
  have subs: "map_of (subscribers d') q = (if q = p then Some (entry @ [fresh h]) else map_of (subscribers d) q)" for q
    using disp_invD(1) [OF inv] d' by simp
  have entry: "i \<in> set entry \<Longrightarrow> \<exists>rs. map_of (subscribers d) p = Some rs \<and> i \<in> set rs" for i
    by (cases "map_of (subscribers d) p") (auto simp: entry_def)
  have old: "map_of (subscribers d) q = Some qs \<Longrightarrow> i \<in> set qs \<Longrightarrow> i < fresh h" for q qs i
    by (rule disp_invD(4) [OF inv])
  have fresh: "fresh h \<notin> set qs" if "map_of (subscribers d) q = Some qs" for q qs
    using old [OF that] by blast
  show ?thesis
  proof (rule disp_invI)
    show "bt_inv (subscribers d')" using disp_invD(1) [OF inv] d' by simp
    have "distinct entry" using disp_invD(2) [OF inv] by (auto simp: entry_def split: option.splits)
    moreover have "fresh h \<notin> set entry" using entry fresh by blast
    ultimately show "distinct qs" if "map_of (subscribers d') q = Some qs" for q qs
      using that subs disp_invD(2) [OF inv] by (auto split: if_splits)
    have "set entry \<inter> set qs = {}" if "map_of (subscribers d) q = Some qs" "q \<noteq> p" for q qs
      using that disp_invD(3) [OF inv _ that(1), of p] entry by blast
    with subs disp_invD(3) [OF inv] fresh
    show "set qs \<inter> set qs' = {}" if "map_of (subscribers d') q = Some qs"
      "map_of (subscribers d') q' = Some qs'" "q \<noteq> q'" for q q' qs qs'
      using that by (fastforce split: if_splits)
    have e: "i < fresh h" if "i \<in> set entry" for i using entry [OF that] old by blast
    show "i < fresh h'" if "map_of (subscribers d') q = Some qs" "i \<in> set qs" for q qs i
      using that subs old e h' by (fastforce split: if_splits)
    have q: "queue_ordered (local_index d) (chans h i)" if "i \<in> set entry" for i
      using entry [OF that] disp_invD(5) [OF inv] by blast
    show "queue_ordered (local_index d') (chans h' i)"
      if "map_of (subscribers d') q = Some qs" "i \<in> set qs" for q qs i
      using that subs disp_invD(5) [OF inv] q d' h' by (auto split: if_splits)
  qed
qed

lemma recv_try_next_inv [wf_intros]:
  "disp_inv d h \<Longrightarrow> recv_try_next r h = (h', res) \<Longrightarrow> disp_inv d h'"
  unfolding disp_inv_def recv_try_next_def
  by (auto simp: chan_try_next_def split: prod.splits list.splits if_splits)
    (blast intro: queue_ordered_pop)

lemma clear_all_spec:
  "clear_all is h = (h', n) \<Longrightarrow>
   fresh h' = fresh h \<and> (\<forall>i. chans h' i = (if i \<in> set is then (chans h i)\<lparr>deque := []\<rparr> else chans h i))"
proof (induction "is" arbitrary: h h' n)
  case Nil
  then show ?case by simp
next
  case (Cons i "is")
  obtain k where r: "clear_all is (set_chan i ((chans h i)\<lparr>deque := []\<rparr>) h) = (h', k)"
    using Cons.prems by (auto simp: chan_clear_def split: prod.splits)
  from Cons.IH [OF r] show ?case by simp
qed

lemma clear_all_count:
  "distinct is \<Longrightarrow> clear_all is h = (h', n) \<Longrightarrow> n = (\<Sum>i\<leftarrow>is. length (deque (chans h i)))"
proof (induction "is" h arbitrary: h' n rule: clear_all.induct)
  case (1 h)
  then show ?case by simp
next
  case (2 i "is" h)
  let ?h = "set_chan i ((chans h i)\<lparr>deque := []\<rparr>) h"
  obtain k where r: "clear_all is ?h = (h', k)" and n: "n = length (deque (chans h i)) + k"
    using "2.prems"(2) by (auto simp: chan_clear_def split: prod.splits)
  have "(\<Sum>j\<leftarrow>is. length (deque (chans ?h j))) = (\<Sum>j\<leftarrow>is. length (deque (chans h j)))"
    using "2.prems"(1) by (intro arg_cong [where f = sum_list] map_cong) auto
  with "2.IH" [of "(chans h i)\<lparr>deque := []\<rparr>" "length (deque (chans h i))"] "2.prems"(1) r n
  show ?case by (simp add: chan_clear_def)
qed

lemma subscribed_concat: "bt_inv (subscribers d) \<Longrightarrow> set (concat (map snd (subscribers d))) = subscribed d"
  by (simp add: subscribed_def ran_distinct bt_inv_distinct)

text \<open>
  The runtime handles a block by resetting the index, dispatching the messages of the block
  and clearing the queues. Clearing is what makes the next reset sound.
\<close>

lemma clear_reset_inv [wf_intros]:
  assumes inv: "disp_inv d h" and run: "dispatcher_clear d h = (h', n)"
  shows "disp_inv (reset_local_index d) h'"
proof -
  have bt: "bt_inv (subscribers d)" by (rule disp_invD(1) [OF inv])
  note spec = clear_all_spec [OF run [unfolded dispatcher_clear_def]]
  have "deque (chans h' i) = []" if "map_of (subscribers d) q = Some rs" "i \<in> set rs" for q rs i
  proof -
    have "i \<in> set (concat (map snd (subscribers d)))"
      using that by (subst subscribed_concat [OF bt]) (auto simp: subscribed_iff)
    with spec show ?thesis by simp
  qed
  with inv spec show ?thesis by (auto simp: disp_inv_def reset_local_index_def)
qed

section \<open>Select serves messages in dispatch order\<close>

definition hits :: "(receive_error + u64 option) list \<Rightarrow> nat \<Rightarrow> u64 \<Rightarrow> nat \<Rightarrow> bool" where
  "hits ps ind v i \<longleftrightarrow> (\<exists>k<length ps. ps ! k = Inr (Some v) \<and> i = ind + k)"

lemma hits_Nil [simp]: "\<not> hits [] ind v i"
  by (simp add: hits_def)

lemma hits_Cons [simp]:
  "hits (p # ps) ind v i \<longleftrightarrow> p = Inr (Some v) \<and> i = ind \<or> hits ps (ind + 1) v i"
  by (auto simp: hits_def less_Suc_eq_0_disj)















text \<open>A dispatch to two subscribers of which one has dropped its receiver.\<close>

definition example_dispatcher :: dispatcher where
  "example_dispatcher = \<lparr>subscribers = [([1], [0, 1])], local_index = 5\<rparr>"

definition example_half_dead :: heap where
  "example_half_dead =
     \<lparr>chans = (\<lambda>_. chan_new)(1 := \<lparr>deque = [], sender_count = 1, receiver_count = 0\<rparr>), fresh = 2\<rparr>"

theorem dispatch_delivers_witness:
  "\<exists>d' h'. dispatch (message_new Gatekeeper [1] [9]) example_dispatcher example_half_dead = (d', h', 1) \<and>
     deque (chans h' 0) = [(5, message_new Gatekeeper [1] [9])] \<and> deque (chans h' 1) = []"
proof -
  let ?m = "message_new Gatekeeper [1] [9]"
  obtain d' h' n where run: "dispatch ?m example_dispatcher example_half_dead = (d', h', n)"
    by (cases "dispatch ?m example_dispatcher example_half_dead")
  have inv: "disp_inv example_dispatcher example_half_dead"
    by (auto simp: disp_inv_def example_dispatcher_def example_half_dead_def queue_ordered_def chan_new_def
        split: if_splits)
  have subs: "map_of (subscribers example_dispatcher) (topic_path (destination ?m)) = Some [0, 1]"
    by (simp add: example_dispatcher_def message_new_def)
  have live: "alive example_half_dead 0" "\<not> alive example_half_dead 1"
    by (simp_all add: alive_def example_half_dead_def chan_new_def)
  from dispatch_delivers [OF inv run subs] run live show ?thesis
    by (simp add: example_half_dead_def chan_new_def example_dispatcher_def)
qed

end
