(* ===== verification/Messaging.thy ===== *)
theory Messaging
  imports Prelude
begin

text \<open>
  The payloads the pallets, the workers and the gatekeepers exchange over the message queue
  (\<^verbatim>\<open>crates/cyrux-types/src/lib.rs\<close>, module \<open>messaging\<close>), and the parts of the FRAME
  runtime interface the pallets share: origins and dispatch errors.
\<close>

section \<open>Keys\<close>

type_synonym worker_public_key = bytes
type_synonym master_public_key = bytes
type_synonym ecdh_public_key = bytes

text \<open>Fixed point numbers travel as the 128 bits of a \<open>U64F64\<close>.\<close>

type_synonym u64f64_bits = "128 word"

section \<open>Pallets to workers\<close>

record worker_info_msg =
  wim_confidence_level :: u8

datatype worker_event =
    Registered worker_info_msg
  | BenchStart u32
  | BenchScore u32
  | Started u32 u64f64_bits u32
  | Stopped
  | EnterUnresponsive
  | ExitUnresponsive

record heartbeat_challenge =
  hc_seed :: "256 word"
  hc_online_target :: "256 word"

datatype system_event =
    WorkerEvent worker_public_key worker_event
  | HeartbeatChallenge heartbeat_challenge

definition new_worker_event :: "worker_public_key \<Rightarrow> worker_event \<Rightarrow> system_event" where
  "new_worker_event pubkey event = WorkerEvent pubkey event"

section \<open>Workers and gatekeepers to the chain\<close>

text \<open>Session, challenge block, challenge time, iterations, then the counts of the second version.\<close>

datatype working_report_event =
    Heartbeat u32 u32 u64 u64
  | HeartbeatV2 u32 u32 u64 u64 u32 u32

record settle_info =
  si_pubkey :: worker_public_key
  si_v :: u64f64_bits
  si_payout :: u64f64_bits
  si_treasury :: u64f64_bits

record working_info_update_event =
  wi_block_number :: u32
  wi_timestamp_ms :: u64
  wi_offline :: "worker_public_key list"
  wi_recovered_to_online :: "worker_public_key list"
  wi_settle :: "settle_info list"

definition working_info_update_new :: "u32 \<Rightarrow> u64 \<Rightarrow> working_info_update_event" where
  "working_info_update_new block_number timestamp_ms =
     \<lparr>wi_block_number = block_number, wi_timestamp_ms = timestamp_ms, wi_offline = [],
      wi_recovered_to_online = [], wi_settle = []\<rparr>"

definition working_info_update_is_empty :: "working_info_update_event \<Rightarrow> bool" where
  "working_info_update_is_empty e \<longleftrightarrow>
     wi_offline e = [] \<and> wi_settle e = [] \<and> wi_recovered_to_online e = []"

section \<open>Gatekeepers\<close>

record worker_identity =
  id_pubkey :: worker_public_key
  id_ecdh_pubkey :: ecdh_public_key

datatype gatekeeper_launch =
    FirstGatekeeper worker_public_key ecdh_public_key
  | MasterPubkeyOnChain master_public_key
  | RotateMasterKey u64 "worker_identity list"
  | MasterPubkeyRotated master_public_key

datatype gatekeeper_change =
    GkRegistered worker_public_key ecdh_public_key
  | GkUnregistered worker_public_key

record tokenomic_parameters =
  tp_pha_rate :: u64f64_bits
  tp_rho :: u64f64_bits
  tp_budget_per_block :: u64f64_bits
  tp_v_max :: u64f64_bits
  tp_cost_k :: u64f64_bits
  tp_cost_b :: u64f64_bits
  tp_slash_rate :: u64f64_bits
  tp_treasury_ratio :: u64f64_bits
  tp_heartbeat_window :: u32
  tp_rig_k :: u64f64_bits
  tp_rig_b :: u64f64_bits
  tp_re :: u64f64_bits
  tp_k :: u64f64_bits
  tp_kappa :: u64f64_bits

datatype gatekeeper_event =
    NewRandomNumber u32 bytes bytes
  | TokenomicParametersChanged tokenomic_parameters
  | RepairV
  | CyruxLaunched
  | UnrespFix

section \<open>Origins and dispatch errors\<close>

datatype 'acc raw_origin = Root | Signed 'acc | Unsigned

datatype 'e dispatch_error = BadOriginErr | Module 'e

fun ensure_signed :: "'acc raw_origin \<Rightarrow> 'e dispatch_error + 'acc" where
  "ensure_signed (Signed a) = Inr a"
| "ensure_signed _ = Inl BadOriginErr"

fun ensure_root :: "'acc raw_origin \<Rightarrow> 'e dispatch_error + unit" where
  "ensure_root Root = Inr ()"
| "ensure_root _ = Inl BadOriginErr"

lemma ensure_signed_Inr [result_simps]: "ensure_signed orig = Inr a \<longleftrightarrow> orig = Signed a"
  by (cases orig) auto

lemma ensure_root_Inr [result_simps]: "ensure_root orig = Inr u \<longleftrightarrow> orig = Root"
  by (cases orig) auto

end
