(* ===== verification/Attestation.thy ===== *)
theory Attestation
  imports Messaging
begin

text \<open>
  Remote attestation as the registry checks it:
  \<^verbatim>\<open>pallets/cyrux/src/utils/attestation.rs\<close> and the constants it uses. Parsing and
  cryptographic verification of Intel's reports and quotes are parameters, collected in
  \<open>attest_env\<close>.
\<close>

section \<open>Constants\<close>

definition SGX_QUOTE_STATUS_LEVEL_1 :: "string list" where
  "SGX_QUOTE_STATUS_LEVEL_1 = [''OK'', ''UpToDate'']"

definition SGX_QUOTE_STATUS_LEVEL_2 :: "string list" where
  "SGX_QUOTE_STATUS_LEVEL_2 = [''SW_HARDENING_NEEDED'', ''SWHardeningNeeded'']"

definition SGX_QUOTE_STATUS_LEVEL_3 :: "string list" where
  "SGX_QUOTE_STATUS_LEVEL_3 =
     [''CONFIGURATION_NEEDED'', ''CONFIGURATION_AND_SW_HARDENING_NEEDED'',
      ''ConfigurationNeeded'', ''ConfigurationAndSWHardeningNeeded'']"

definition SGX_QUOTE_STATUS_LEVEL_5 :: "string list" where
  "SGX_QUOTE_STATUS_LEVEL_5 = [''GROUP_OUT_OF_DATE'', ''OutOfDate'', ''OutOfDateConfigurationNeeded'']"

definition SGX_QUOTE_ADVISORY_ID_WHITELIST :: "string list" where
  "SGX_QUOTE_ADVISORY_ID_WHITELIST =
     [''INTEL-SA-00334'', ''INTEL-SA-00219'', ''INTEL-SA-00381'', ''INTEL-SA-00389'']"

section \<open>Data\<close>

datatype attestation_error =
    AePRuntimeRejected
  | AeInvalidIASSigningCert
  | AeInvalidReport
  | AeInvalidQuoteStatus
  | AeBadIASReport
  | AeOutdatedIASReport
  | AeUnknownQuoteBodyFormat
  | AeInvalidUserDataHash
  | AeNoneAttestationDisabled
  | AeUnsupportedAttestationType
  | AeInvalidDCAPQuote

datatype attestation_provider = RootProvider | Ias | Dcap

record confidential_report =
  cr_confidence_level :: u8
  cr_provider :: "attestation_provider option"
  cr_runtime_hash :: bytes

record ias_fields =
  mr_enclave :: bytes
  mr_signer :: bytes
  isv_prod_id :: bytes
  isv_svn :: bytes
  report_data :: bytes
  if_confidence_level :: u8

text \<open>The body of a decoded quote; \<open>report_data\<close> is an array of 64 bytes.\<close>

record sgx_quote =
  q_mr_enclave :: bytes
  q_mr_signer :: bytes
  q_isv_prod_id :: bytes
  q_isv_svn :: bytes
  q_report_data :: bytes

record ra_report =
  ra_timestamp :: string
  isv_enclave_quote_status :: string
  advisory_ids :: "string list"
  isv_enclave_quote_body :: bytes

text \<open>The optional collateral of a DCAP report: the only known version, or nothing.\<close>

datatype attestation_report =
    SgxIas bytes bytes bytes
  | SgxDcap bytes "bytes option"

text \<open>
  What the code calls outside the pallets: JSON parsing of the report, parsing of its time
  stamp, decoding of its quote, the signature check of the attestation service's report,
  and the verification of a DCAP quote, which yields the report data, the runtime hash, the
  TCB status and the advisories.
\<close>

record attest_env =
  parse_report :: "bytes \<Rightarrow> ra_report option"
  parse_from_rfc3339 :: "string \<Rightarrow> u64 option"
  decode_quote :: "ra_report \<Rightarrow> sgx_quote option"
  ias_verify_signature :: "bytes \<Rightarrow> bytes \<Rightarrow> bytes \<Rightarrow> u64 \<Rightarrow> bool"
  dcap_verify :: "bytes \<Rightarrow> bytes \<Rightarrow> u64 \<Rightarrow> (bytes \<times> bytes \<times> string \<times> string list) option"

section \<open>Confidence levels\<close>

definition status_level :: "string \<Rightarrow> u8" where
  "status_level status =
     (if status \<in> set SGX_QUOTE_STATUS_LEVEL_1 then 1
      else if status \<in> set SGX_QUOTE_STATUS_LEVEL_2 then 2
      else if status \<in> set SGX_QUOTE_STATUS_LEVEL_3 then 3
      else if status \<in> set SGX_QUOTE_STATUS_LEVEL_5 then 5
      else 128)"

fun filter_advisories :: "string list \<Rightarrow> u8 \<Rightarrow> u8" where
  "filter_advisories [] level = level"
| "filter_advisories (a # as) level =
     filter_advisories as (if a \<notin> set SGX_QUOTE_ADVISORY_ID_WHITELIST then 4 else level)"

definition confidence_of :: "string \<Rightarrow> string list \<Rightarrow> attestation_error + u8" where
  "confidence_of status advisories =
     (let level = status_level status in
      if level = 128 then Inl AeInvalidQuoteStatus
      else if level = 3 then Inr (filter_advisories advisories level)
      else Inr level)"

section \<open>Validation\<close>

definition from_ias_report :: "attest_env \<Rightarrow> bytes \<Rightarrow> attestation_error + (ias_fields \<times> u64)" where
  "from_ias_report env report =
     bind_result (ok_or (parse_report env report) AeInvalidReport) (\<lambda>parsed.
     bind_result (ok_or (parse_from_rfc3339 env (ra_timestamp parsed @ ''Z'')) AeBadIASReport) (\<lambda>report_timestamp.
     bind_result (confidence_of (isv_enclave_quote_status parsed) (advisory_ids parsed)) (\<lambda>level.
     bind_result (ok_or (decode_quote env parsed) AeUnknownQuoteBodyFormat) (\<lambda>quote.
     Inr (\<lparr>mr_enclave = q_mr_enclave quote, mr_signer = q_mr_signer quote,
           isv_prod_id = q_isv_prod_id quote, isv_svn = q_isv_svn quote,
           report_data = q_report_data quote, if_confidence_level = level\<rparr>, report_timestamp)))))"

definition extend_mrenclave :: "ias_fields \<Rightarrow> bytes" where
  "extend_mrenclave f = mr_enclave f @ isv_prod_id f @ isv_svn f @ mr_signer f"

definition validate_ias_report ::
    "attest_env \<Rightarrow> bytes \<Rightarrow> bytes \<Rightarrow> bytes \<Rightarrow> bytes \<Rightarrow> u64 \<Rightarrow> bool \<Rightarrow> bytes list \<Rightarrow>
     attestation_error + confidential_report" where
  "validate_ias_report env user_data_hash report sig raw_signing_cert now verify_pruntime_hash allowlist =
     bind_result (ensure (ias_verify_signature env report sig raw_signing_cert now) AeInvalidIASSigningCert) (\<lambda>_.
     bind_result (from_ias_report env report) (\<lambda>(fields, report_timestamp).
     let pruntime_hash = extend_mrenclave fields in
     if verify_pruntime_hash \<and> pruntime_hash \<notin> set allowlist then Inl AePRuntimeRejected
     else if sint (now - report_timestamp) \<ge> 7200 then Inl AeOutdatedIASReport
     else if take 32 (report_data fields) \<noteq> user_data_hash then Inl AeInvalidUserDataHash
     else Inr \<lparr>cr_confidence_level = if_confidence_level fields, cr_provider = Some Ias,
               cr_runtime_hash = pruntime_hash\<rparr>))"

definition validate_dcap ::
    "attest_env \<Rightarrow> bytes \<Rightarrow> bytes \<Rightarrow> u64 \<Rightarrow> bytes \<Rightarrow> bool \<Rightarrow> bytes list \<Rightarrow>
     attestation_error + confidential_report" where
  "validate_dcap env quote collateral now user_data_hash verify_pruntime_hash allowlist =
     bind_result (ok_or (dcap_verify env quote collateral now) AeInvalidDCAPQuote)
       (\<lambda>(rdata, pruntime_hash, tcb_status, advisories).
     if verify_pruntime_hash \<and> pruntime_hash \<notin> set allowlist then Inl AePRuntimeRejected
     else if take 32 rdata \<noteq> user_data_hash then Inl AeInvalidUserDataHash
     else bind_result (confidence_of tcb_status advisories) (\<lambda>level.
       Inr \<lparr>cr_confidence_level = level, cr_provider = Some Dcap, cr_runtime_hash = pruntime_hash\<rparr>))"

definition validate ::
    "attest_env \<Rightarrow> attestation_report option \<Rightarrow> bytes \<Rightarrow> u64 \<Rightarrow> bool \<Rightarrow> bytes list \<Rightarrow> bool \<Rightarrow>
     attestation_error + confidential_report" where
  "validate env attestation user_data_hash now verify_pruntime_hash allowlist opt_out_enabled =
     (case attestation of
        Some (SgxIas ra_report sig raw_signing_cert) \<Rightarrow>
          validate_ias_report env user_data_hash ra_report sig raw_signing_cert now verify_pruntime_hash allowlist
      | Some (SgxDcap quote collateral) \<Rightarrow>
          (case collateral of
             None \<Rightarrow> Inl AeUnsupportedAttestationType
           | Some c \<Rightarrow> validate_dcap env quote c now user_data_hash verify_pruntime_hash allowlist)
      | None \<Rightarrow>
          if opt_out_enabled
          then Inr \<lparr>cr_confidence_level = 128, cr_provider = None, cr_runtime_hash = []\<rparr>
          else Inl AeNoneAttestationDisabled)"

section \<open>What a validated report guarantees\<close>

lemma filter_advisories_levels: "filter_advisories as level \<in> {level, 4}"
  by (induction "as" arbitrary: level) auto

lemma filter_advisories_spec:
  "level \<noteq> 4 \<Longrightarrow>
   filter_advisories as level = (if set as \<subseteq> set SGX_QUOTE_ADVISORY_ID_WHITELIST then level else 4)"
proof (induction "as" arbitrary: level)
  case Nil
  then show ?case by simp
next
  case (Cons a "as")
  then show ?case using filter_advisories_levels [of "as" 4] by auto
qed

lemma status_level_range: "status_level s \<in> {1, 2, 3, 5, 128}"
  by (simp add: status_level_def)

lemma confidence_of_range: "confidence_of s a = Inr level \<Longrightarrow> level \<in> {1, 2, 3, 4, 5}"
  using status_level_range [of s] filter_advisories_levels [of a 3]
  by (auto simp: confidence_of_def Let_def split: if_splits)

text \<open>
  The evidence behind a confidential report: the report data \<open>rdata\<close> comes out of a signed
  and recent IAS report, or out of a verified DCAP quote for the reported enclave.
\<close>

definition attested_by :: "attest_env \<Rightarrow> attestation_report \<Rightarrow> u64 \<Rightarrow> confidential_report \<Rightarrow> bytes \<Rightarrow> bool" where
  "attested_by env rep now r rdata =
     (case rep of
        SgxIas raw sig cert \<Rightarrow> cr_provider r = Some Ias \<and> ias_verify_signature env raw sig cert now \<and>
          (\<exists>f ts. from_ias_report env raw = Inr (f, ts) \<and> report_data f = rdata \<and>
             cr_runtime_hash r = extend_mrenclave f \<and> sint (now - ts) < 7200)
      | SgxDcap quote c \<Rightarrow> cr_provider r = Some Dcap \<and>
          (\<exists>col status adv. c = Some col \<and>
             dcap_verify env quote col now = Some (rdata, cr_runtime_hash r, status, adv)))"

text \<open>
  An attestation is accepted only if the enclave is one of the allow list (when the chain
  verifies it) and its report commits to the registration data; the confidence level is
  between 1 and 5, and level 128 without a provider is given only when the chain runs with
  attestation opted out.
\<close>

lemma validate_sound:
  assumes "validate env att user_hash now verify allow opt_out = Inr r"
  shows "(\<forall>rep. att = Some rep \<longrightarrow>
       (verify \<longrightarrow> cr_runtime_hash r \<in> set allow) \<and>
       cr_confidence_level r \<in> {1, 2, 3, 4, 5} \<and>
       (\<exists>rdata. take 32 rdata = user_hash \<and> attested_by env rep now r rdata)) \<and>
     (att = None \<longrightarrow> opt_out \<and> cr_confidence_level r = 128 \<and> cr_provider r = None)"
proof (cases att)
  case None
  with assms show ?thesis by (auto simp: validate_def split: if_splits)
next
  case (Some rep)
  show ?thesis
  proof (cases rep)
    case (SgxIas report sig cert)
    with Some assms show ?thesis
      by (auto simp: attested_by_def validate_def validate_ias_report_def from_ias_report_def result_simps Let_def
          split: if_splits dest: confidence_of_range)
  next
    case (SgxDcap quote c)
    with Some assms show ?thesis
      by (auto simp: attested_by_def validate_def validate_dcap_def result_simps split: if_splits option.splits
          dest: confidence_of_range)
  qed
qed

definition example_attest_env :: attest_env where
  "example_attest_env =
     \<lparr>parse_report = (\<lambda>_. None), parse_from_rfc3339 = (\<lambda>_. None), decode_quote = (\<lambda>_. None),
      ias_verify_signature = (\<lambda>_ _ _ _. False),
      dcap_verify = (\<lambda>q c now. if q = [1] then Some (replicate 64 7, [42], ''UpToDate'', []) else None)\<rparr>"

end
