(* ===== verification/Registry.thy ===== *)
theory Registry
  imports Attestation Mq_Types
begin

text \<open>
  The registry pallet, \<^verbatim>\<open>pallets/cyrux/src/registry.rs\<close>: workers, gatekeepers, the
  gatekeepers' master key and its rotation, and the allow lists. A FRAME extrinsic is
  transactional, so it returns an error or the new state; a message handler runs outside a
  transaction and returns the state it leaves together with its result, and \<open>None\<close> when
  the code panics. The state logs the messages pushed and the events deposited, in order.
  Weights are left out.
\<close>

section \<open>State\<close>

record 'acc worker_info =
  pubkey :: worker_public_key
  ecdh_pubkey :: ecdh_public_key
  runtime_version :: u32
  last_updated :: u64
  operator :: "'acc option"
  attestation_provider :: "attestation_provider option"
  confidence_level :: u8
  initial_score :: "u32 option"
  features :: "u32 list"

record known_consensus_version =
  kcv_version :: u32
  kcv_count :: u32

datatype registry_event_log =
    GatekeeperAdded worker_public_key
  | WorkerAdded worker_public_key "attestation_provider option" u8
  | WorkerUpdated worker_public_key "attestation_provider option" u8
  | MasterKeyRotated u64 master_public_key
  | MasterKeyRotationFailed "u64 option" u64
  | InitialScoreSet worker_public_key u32
  | MinimumPRuntimeVersionChangedTo u32 u32 u32
  | PRuntimeConsensusVersionChangedTo u32
  | GatekeeperLaunched

datatype registry_message =
    SystemEventMsg system_event
  | GatekeeperLaunchMsg gatekeeper_launch
  | GatekeeperChangeMsg gatekeeper_change

record 'acc registry =
  gatekeepers :: "worker_public_key list"
  gatekeeper_master_pubkey :: "master_public_key option"
  gatekeeper_launched_at :: "(nat \<times> u64) option"
  rotation_counter :: u64
  master_key_rotation_lock :: "u64 option"
  workers :: "worker_public_key \<rightharpoonup> 'acc worker_info"
  worker_added_at :: "worker_public_key \<rightharpoonup> nat"
  contract_keys :: "bytes \<rightharpoonup> bytes"
  cluster_keys :: "bytes \<rightharpoonup> bytes"
  topic_key :: "bytes \<rightharpoonup> bytes"
  benchmark_duration :: "u32 option"
  pruntime_allowlist :: "bytes list"
  pruntime_added_at :: "bytes \<rightharpoonup> nat"
  relaychain_genesis_allowlist :: "bytes list"
  endpoints :: "worker_public_key \<rightharpoonup> string list"
  minimum_pruntime_version :: "u32 \<times> u32 \<times> u32"
  pruntime_consensus_version :: u32
  max_known_consensus_version :: known_consensus_version
  trusted_ntp_servers :: "string list"
  pushed :: "registry_message list"
  events :: "registry_event_log list"

datatype registry_error =
    CannotHandleUnknownMessage | InvalidSender | InvalidPubKey | MalformedSignature
  | InvalidSignatureLength | InvalidSignature | UnknownContract
  | InvalidIASSigningCert | InvalidReport | InvalidQuoteStatus | BadIASReport | OutdatedIASReport
  | UnknownQuoteBodyFormat | InvalidDCAPQuote | InvalidRuntimeInfoHash | InvalidRuntimeInfo
  | InvalidInput | InvalidBenchReport | WorkerNotFound | NoneAttestationDisabled
  | InvalidGatekeeper | InvalidMasterPubkey | MasterKeyMismatch | MasterKeyUninitialized
  | GenesisBlockHashRejected | GenesisBlockHashAlreadyExists | GenesisBlockHashNotFound
  | PRuntimeRejected | PRuntimeAlreadyExists | PRuntimeNotFound
  | UnknownCluster | NotImplemented | CannotRemoveLastGatekeeper | MasterKeyInRotation
  | InvalidRotatedMasterPubkey | InvalidEndpointSigningTime | NotMigrationRoot
  | ParachainIdMismatch | InvalidConsensusVersion | UnsupportedAttestationType

type_synonym 'a reg_result = "registry_error dispatch_error + 'a"

fun registry_error_of :: "attestation_error \<Rightarrow> registry_error" where
  "registry_error_of AePRuntimeRejected = PRuntimeRejected"
| "registry_error_of AeInvalidIASSigningCert = InvalidIASSigningCert"
| "registry_error_of AeInvalidReport = InvalidReport"
| "registry_error_of AeInvalidQuoteStatus = InvalidQuoteStatus"
| "registry_error_of AeBadIASReport = BadIASReport"
| "registry_error_of AeOutdatedIASReport = OutdatedIASReport"
| "registry_error_of AeUnknownQuoteBodyFormat = UnknownQuoteBodyFormat"
| "registry_error_of AeInvalidUserDataHash = InvalidRuntimeInfoHash"
| "registry_error_of AeNoneAttestationDisabled = NoneAttestationDisabled"
| "registry_error_of AeUnsupportedAttestationType = UnsupportedAttestationType"
| "registry_error_of AeInvalidDCAPQuote = InvalidDCAPQuote"

text \<open>
  The configuration of the pallet and the block it runs in. \<open>governance\<close> is the
  runtime's \<open>GovernanceOrigin\<close>, \<open>hash_registration\<close> and
  \<open>hash_registration_v2\<close> the hash of the encoded registration data, \<open>legacy_validate\<close>
  the runtime's \<open>LegacyAttestationValidator\<close>, \<open>sr25519_verify\<close> and \<open>signature_try_from\<close> come from the
  signature library.
\<close>

record 'acc registration_info =
  ri_version :: u32
  ri_machine_id :: bytes
  ri_pubkey :: worker_public_key
  ri_ecdh_pubkey :: ecdh_public_key
  ri_genesis_block_hash :: bytes
  ri_features :: "u32 list"
  ri_operator :: "'acc option"

record 'acc registration_info_v2 = "'acc registration_info" +
  ri_para_id :: u32
  ri_max_consensus_version :: u32

record 'acc registry_env =
  governance :: "'acc raw_origin \<Rightarrow> bool"
  now_millis :: u64
  block_number :: nat
  verify_pruntime :: bool
  verify_genesis :: bool
  none_attestation_enabled :: bool
  parachain_id :: u32
  attest :: attest_env
  hash_registration :: "'acc registration_info \<Rightarrow> bytes"
  hash_registration_v2 :: "'acc registration_info_v2 \<Rightarrow> bytes"
  legacy_validate :: "bytes \<Rightarrow> bytes \<Rightarrow> u64 \<Rightarrow> bool \<Rightarrow> bytes list \<Rightarrow> attestation_error + u8"
  signature_try_from :: "bytes \<Rightarrow> bytes option"
  sr25519_verify :: "bytes \<Rightarrow> bytes \<Rightarrow> bytes \<Rightarrow> bool"

definition now_secs :: "'acc registry_env \<Rightarrow> u64" where
  "now_secs env = now_millis env div 1000"

definition ensure_governance :: "'acc registry_env \<Rightarrow> 'acc raw_origin \<Rightarrow> unit reg_result" where
  "ensure_governance env orig = ensure (governance env orig) BadOriginErr"

definition push_message :: "registry_message \<Rightarrow> 'acc registry \<Rightarrow> 'acc registry" where
  "push_message m s = s\<lparr>pushed := pushed s @ [m]\<rparr>"

definition deposit_event :: "registry_event_log \<Rightarrow> 'acc registry \<Rightarrow> 'acc registry" where
  "deposit_event e s = s\<lparr>events := events s @ [e]\<rparr>"

section \<open>Extrinsics of the governance\<close>

definition force_set_benchmark_duration ::
    "'acc registry_env \<Rightarrow> 'acc raw_origin \<Rightarrow> u32 \<Rightarrow> 'acc registry \<Rightarrow> 'acc registry reg_result" where
  "force_set_benchmark_duration env orig value s =
     bind_result (ensure_governance env orig) (\<lambda>_. Inr (s\<lparr>benchmark_duration := Some value\<rparr>))"

definition force_register_worker ::
    "'acc registry_env \<Rightarrow> 'acc raw_origin \<Rightarrow> worker_public_key \<Rightarrow> ecdh_public_key \<Rightarrow> 'acc option \<Rightarrow>
     'acc registry \<Rightarrow> 'acc registry reg_result" where
  "force_register_worker env orig pk ecdh oper s =
     bind_result (ensure_root orig) (\<lambda>_.
     let info = \<lparr>pubkey = pk, ecdh_pubkey = ecdh, runtime_version = 0, last_updated = 1, operator = oper,
                 attestation_provider = Some RootProvider, confidence_level = 128, initial_score = None,
                 features = [1, 4]\<rparr>;
         s1 = s\<lparr>workers := (workers s)(pk \<mapsto> info),
                worker_added_at := (worker_added_at s)(pk \<mapsto> block_number env)\<rparr>;
         s2 = push_message (SystemEventMsg (new_worker_event pk (Registered \<lparr>wim_confidence_level = 128\<rparr>))) s1
     in Inr (deposit_event (WorkerAdded pk (Some RootProvider) 128) s2))"

definition force_register_topic_pubkey ::
    "'acc raw_origin \<Rightarrow> bytes \<Rightarrow> bytes \<Rightarrow> 'acc registry \<Rightarrow> 'acc registry reg_result" where
  "force_register_topic_pubkey orig tpc pk s =
     bind_result (ensure_root orig) (\<lambda>_. Inr (s\<lparr>topic_key := (topic_key s)(tpc \<mapsto> pk)\<rparr>))"

definition register_gatekeeper ::
    "'acc registry_env \<Rightarrow> 'acc raw_origin \<Rightarrow> worker_public_key \<Rightarrow> 'acc registry \<Rightarrow> 'acc registry reg_result" where
  "register_gatekeeper env orig gk s =
     bind_result (ensure_governance env orig) (\<lambda>_.
     bind_result (ensure (master_key_rotation_lock s = None) (Module MasterKeyInRotation)) (\<lambda>_.
     bind_result (ensure (gatekeepers s = [] \<or> gatekeeper_master_pubkey s \<noteq> None) (Module MasterKeyUninitialized)) (\<lambda>_.
     bind_result
       (if gk \<notin> set (gatekeepers s) then
          bind_result (ok_or (workers s gk) (Module WorkerNotFound)) (\<lambda>info.
          let gks = gatekeepers s @ [gk];
              s1 = s\<lparr>gatekeepers := gks\<rparr>;
              msg = (if length gks = 1 then GatekeeperLaunchMsg (FirstGatekeeper gk (ecdh_pubkey info))
                     else GatekeeperChangeMsg (GkRegistered gk (ecdh_pubkey info)))
          in Inr (push_message msg s1))
        else Inr s)
       (\<lambda>s1. Inr (deposit_event (GatekeeperAdded gk) s1)))))"

definition unregister_gatekeeper ::
    "'acc registry_env \<Rightarrow> 'acc raw_origin \<Rightarrow> worker_public_key \<Rightarrow> 'acc registry \<Rightarrow> 'acc registry reg_result" where
  "unregister_gatekeeper env orig gk s =
     bind_result (ensure_governance env orig) (\<lambda>_.
     bind_result (ensure (master_key_rotation_lock s = None) (Module MasterKeyInRotation)) (\<lambda>_.
     bind_result (ensure (gk \<in> set (gatekeepers s)) (Module InvalidGatekeeper)) (\<lambda>_.
     bind_result (ensure (length (gatekeepers s) > 1) (Module CannotRemoveLastGatekeeper)) (\<lambda>_.
     let s1 = s\<lparr>gatekeepers := filter (\<lambda>g. g \<noteq> gk) (gatekeepers s)\<rparr>
     in Inr (push_message (GatekeeperChangeMsg (GkUnregistered gk)) s1)))))"

fun gk_identities :: "'acc registry \<Rightarrow> worker_public_key list \<Rightarrow> worker_identity list reg_result" where
  "gk_identities s [] = Inr []"
| "gk_identities s (gk # gks) =
     bind_result (ok_or (workers s gk) (Module WorkerNotFound)) (\<lambda>info.
     bind_result (gk_identities s gks) (\<lambda>ids.
     Inr (\<lparr>id_pubkey = pubkey info, id_ecdh_pubkey = ecdh_pubkey info\<rparr> # ids)))"

definition rotate_master_key ::
    "'acc registry_env \<Rightarrow> 'acc raw_origin \<Rightarrow> 'acc registry \<Rightarrow> 'acc registry reg_result" where
  "rotate_master_key env orig s =
     bind_result (ensure_governance env orig) (\<lambda>_.
     bind_result (ensure (master_key_rotation_lock s = None) (Module MasterKeyInRotation)) (\<lambda>_.
     bind_result (gk_identities s (gatekeepers s)) (\<lambda>ids.
     let rotation_id = rotation_counter s + 1;
         s1 = s\<lparr>rotation_counter := rotation_id, master_key_rotation_lock := Some rotation_id\<rparr>
     in Inr (push_message (GatekeeperLaunchMsg (RotateMasterKey rotation_id ids)) s1))))"

section \<open>Registering workers\<close>

text \<open>
  Both versions of the extrinsic update the registry in the same way, from the validated
  level and provider.
\<close>

definition update_registry ::
    "'acc registry_env \<Rightarrow> ('acc, 'm) registration_info_scheme \<Rightarrow> u8 \<Rightarrow> attestation_provider option \<Rightarrow>
     'acc registry \<Rightarrow> 'acc registry" where
  "update_registry env info level provider s =
     (let pk = ri_pubkey info;
          registered = SystemEventMsg (new_worker_event pk (Registered \<lparr>wim_confidence_level = level\<rparr>));
          s1 = (case workers s pk of
                  Some w \<Rightarrow>
                    let w' = w\<lparr>last_updated := now_secs env, operator := ri_operator info,
                               runtime_version := ri_version info, confidence_level := level,
                               features := ri_features info\<rparr>
                    in deposit_event (WorkerUpdated pk provider level)
                         (push_message registered (s\<lparr>workers := (workers s)(pk \<mapsto> w')\<rparr>))
                | None \<Rightarrow>
                    let w' = \<lparr>pubkey = pk, ecdh_pubkey = ri_ecdh_pubkey info, runtime_version = ri_version info,
                              last_updated = now_secs env, operator = ri_operator info,
                              attestation_provider = provider, confidence_level = level,
                              initial_score = None, features = ri_features info\<rparr>;
                        s2 = deposit_event (WorkerAdded pk provider level)
                          (push_message registered (s\<lparr>workers := (workers s)(pk \<mapsto> w')\<rparr>))
                    in s2\<lparr>worker_added_at := (worker_added_at s2)(pk \<mapsto> block_number env)\<rparr>);
          duration = (case benchmark_duration s1 of None \<Rightarrow> 0 | Some d \<Rightarrow> d)
      in push_message (SystemEventMsg (new_worker_event pk (BenchStart duration))) s1)"

definition check_genesis :: "'acc registry_env \<Rightarrow> ('acc, 'm) registration_info_scheme \<Rightarrow> 'acc registry \<Rightarrow> unit reg_result" where
  "check_genesis env info s =
     (if verify_genesis env
      then ensure (ri_genesis_block_hash info \<in> set (relaychain_genesis_allowlist s)) (Module GenesisBlockHashRejected)
      else Inr ())"

definition register_worker ::
    "'acc registry_env \<Rightarrow> 'acc raw_origin \<Rightarrow> 'acc registration_info \<Rightarrow> bytes \<Rightarrow>
     'acc registry \<Rightarrow> 'acc registry reg_result" where
  "register_worker env orig info attestation s =
     bind_result (ensure_signed orig) (\<lambda>_.
     bind_result (case legacy_validate env attestation (hash_registration env info) (now_secs env)
                    (verify_pruntime env) (pruntime_allowlist s) of
                    Inl e \<Rightarrow> Inl (Module (registry_error_of e)) | Inr level \<Rightarrow> Inr level) (\<lambda>level.
     bind_result (check_genesis env info s) (\<lambda>_.
     Inr (update_registry env info level (Some Ias) s))))"

definition bump_known_version :: "u32 \<Rightarrow> known_consensus_version \<Rightarrow> known_consensus_version" where
  "bump_known_version v info =
     (if kcv_version info < v then \<lparr>kcv_version = v, kcv_count = 1\<rparr>
      else if kcv_version info = v then info\<lparr>kcv_count := kcv_count info + 1\<rparr>
      else info)"

definition register_worker_v2 ::
    "'acc registry_env \<Rightarrow> 'acc raw_origin \<Rightarrow> 'acc registration_info_v2 \<Rightarrow> attestation_report option \<Rightarrow>
     'acc registry \<Rightarrow> 'acc registry reg_result" where
  "register_worker_v2 env orig info attestation s =
     bind_result (ensure_signed orig) (\<lambda>_.
     bind_result (case validate (attest env) attestation (hash_registration_v2 env info) (now_secs env)
                    (verify_pruntime env) (pruntime_allowlist s) (none_attestation_enabled env) of
                    Inl e \<Rightarrow> Inl (Module (registry_error_of e)) | Inr r \<Rightarrow> Inr r) (\<lambda>report.
     bind_result (ensure (ri_para_id info = parachain_id env) (Module ParachainIdMismatch)) (\<lambda>_.
     bind_result (check_genesis env info s) (\<lambda>_.
     let s1 = s\<lparr>max_known_consensus_version :=
                  bump_known_version (ri_max_consensus_version info) (max_known_consensus_version s)\<rparr>
     in Inr (update_registry env info (cr_confidence_level report) (cr_provider report) s1)))))"

text \<open>\<open>encode_endpoint\<close> is the SCALE encoding of the endpoint payload.\<close>

record endpoint_payload =
  ep_pubkey :: worker_public_key
  ep_endpoints :: "string list"
  ep_signing_time :: u64

definition update_worker_endpoint ::
    "'acc registry_env \<Rightarrow> (endpoint_payload \<Rightarrow> bytes) \<Rightarrow> 'acc raw_origin \<Rightarrow> endpoint_payload \<Rightarrow> bytes \<Rightarrow>
     'acc registry \<Rightarrow> 'acc registry reg_result" where
  "update_worker_endpoint env encode_endpoint orig ep sig_bytes s =
     bind_result (ensure_signed orig) (\<lambda>_.
     bind_result (ensure (length sig_bytes = 64) (Module InvalidSignatureLength)) (\<lambda>_.
     bind_result (ok_or (signature_try_from env sig_bytes) (Module MalformedSignature)) (\<lambda>sig.
     let data_to_sign = wrap_content_to_sign (encode_endpoint ep) EndpointInfo;
         expiration = 4 * 60 * 60 * 1000;
         now = now_millis env
     in
     bind_result (ensure (sr25519_verify env sig data_to_sign (ep_pubkey ep)) (Module InvalidSignature)) (\<lambda>_.
     bind_result (ensure (ep_signing_time ep < now \<and> now \<le> ep_signing_time ep + expiration)
                    (Module InvalidEndpointSigningTime)) (\<lambda>_.
     bind_result (ensure (workers s (ep_pubkey ep) \<noteq> None) (Module InvalidPubKey)) (\<lambda>_.
     Inr (s\<lparr>endpoints := (endpoints s)(ep_pubkey ep \<mapsto> ep_endpoints ep)\<rparr>)))))))"

section \<open>Allow lists and versions\<close>

definition add_pruntime ::
    "'acc registry_env \<Rightarrow> 'acc raw_origin \<Rightarrow> bytes \<Rightarrow> 'acc registry \<Rightarrow> 'acc registry reg_result" where
  "add_pruntime env orig h s =
     bind_result (ensure_governance env orig) (\<lambda>_.
     bind_result (ensure (h \<notin> set (pruntime_allowlist s)) (Module PRuntimeAlreadyExists)) (\<lambda>_.
     Inr (s\<lparr>pruntime_allowlist := pruntime_allowlist s @ [h],
            pruntime_added_at := (pruntime_added_at s)(h \<mapsto> block_number env)\<rparr>)))"

definition remove_pruntime ::
    "'acc registry_env \<Rightarrow> 'acc raw_origin \<Rightarrow> bytes \<Rightarrow> 'acc registry \<Rightarrow> 'acc registry reg_result" where
  "remove_pruntime env orig h s =
     bind_result (ensure_governance env orig) (\<lambda>_.
     bind_result (ensure (h \<in> set (pruntime_allowlist s)) (Module PRuntimeNotFound)) (\<lambda>_.
     Inr (s\<lparr>pruntime_allowlist := filter (\<lambda>x. x \<noteq> h) (pruntime_allowlist s),
            pruntime_added_at := (pruntime_added_at s)(h := None)\<rparr>)))"

definition add_relaychain_genesis_block_hash ::
    "'acc registry_env \<Rightarrow> 'acc raw_origin \<Rightarrow> bytes \<Rightarrow> 'acc registry \<Rightarrow> 'acc registry reg_result" where
  "add_relaychain_genesis_block_hash env orig h s =
     bind_result (ensure_governance env orig) (\<lambda>_.
     bind_result (ensure (h \<notin> set (relaychain_genesis_allowlist s)) (Module GenesisBlockHashAlreadyExists)) (\<lambda>_.
     Inr (s\<lparr>relaychain_genesis_allowlist := relaychain_genesis_allowlist s @ [h]\<rparr>)))"

definition remove_relaychain_genesis_block_hash ::
    "'acc registry_env \<Rightarrow> 'acc raw_origin \<Rightarrow> bytes \<Rightarrow> 'acc registry \<Rightarrow> 'acc registry reg_result" where
  "remove_relaychain_genesis_block_hash env orig h s =
     bind_result (ensure_governance env orig) (\<lambda>_.
     bind_result (ensure (h \<in> set (relaychain_genesis_allowlist s)) (Module GenesisBlockHashNotFound)) (\<lambda>_.
     Inr (s\<lparr>relaychain_genesis_allowlist := filter (\<lambda>x. x \<noteq> h) (relaychain_genesis_allowlist s)\<rparr>)))"

definition set_minimum_pruntime_version ::
    "'acc registry_env \<Rightarrow> 'acc raw_origin \<Rightarrow> u32 \<Rightarrow> u32 \<Rightarrow> u32 \<Rightarrow> 'acc registry \<Rightarrow> 'acc registry reg_result" where
  "set_minimum_pruntime_version env orig major minor patch s =
     bind_result (ensure_governance env orig) (\<lambda>_.
     Inr (deposit_event (MinimumPRuntimeVersionChangedTo major minor patch)
       (s\<lparr>minimum_pruntime_version := (major, minor, patch)\<rparr>)))"

definition set_pruntime_consensus_version ::
    "'acc registry_env \<Rightarrow> 'acc raw_origin \<Rightarrow> u32 \<Rightarrow> 'acc registry \<Rightarrow> 'acc registry reg_result" where
  "set_pruntime_consensus_version env orig version s =
     bind_result (ensure_governance env orig) (\<lambda>_.
     Inr (deposit_event (PRuntimeConsensusVersionChangedTo version)
       (s\<lparr>pruntime_consensus_version := version\<rparr>)))"

definition set_trusted_ntp_servers ::
    "'acc registry_env \<Rightarrow> 'acc raw_origin \<Rightarrow> string list \<Rightarrow> 'acc registry \<Rightarrow> 'acc registry reg_result" where
  "set_trusted_ntp_servers env orig servers s =
     bind_result (ensure_governance env orig) (\<lambda>_. Inr (s\<lparr>trusted_ntp_servers := servers\<rparr>))"

section \<open>Signed messages\<close>

definition verify_signature ::
    "'acc registry_env \<Rightarrow> encoder \<Rightarrow> worker_public_key \<Rightarrow> signed_message \<Rightarrow> unit reg_result" where
  "verify_signature env encode pk m =
     (let raw_sig = signature m in
      bind_result (ensure (length raw_sig = 64) (Module InvalidSignatureLength)) (\<lambda>_.
      bind_result (ok_or (signature_try_from env raw_sig) (Module MalformedSignature)) (\<lambda>sig.
      let data = wrap_content_to_sign (data_be_signed encode m) MqMessage
      in ensure (sr25519_verify env sig data pk) (Module InvalidSignature))))"

definition sender_pubkey :: "'acc registry \<Rightarrow> message_origin \<Rightarrow> bytes reg_result" where
  "sender_pubkey s orig =
     (case orig of
        Worker pk \<Rightarrow> Inr pk
      | Cluster cid \<Rightarrow> ok_or (cluster_keys s cid) (Module UnknownCluster)
      | Contract cid \<Rightarrow> ok_or (contract_keys s cid) (Module UnknownContract)
      | Gatekeeper \<Rightarrow> ok_or (gatekeeper_master_pubkey s) (Module MasterKeyUninitialized)
      | _ \<Rightarrow> Inl (Module CannotHandleUnknownMessage))"

definition check_message ::
    "'acc registry_env \<Rightarrow> encoder \<Rightarrow> 'acc registry \<Rightarrow> signed_message \<Rightarrow> unit reg_result" where
  "check_message env encode s m =
     bind_result (sender_pubkey s (sender (message m))) (\<lambda>pk. verify_signature env encode pk m)"

section \<open>Message handlers\<close>

datatype registry_event =
    BenchReport u64 u64
  | MasterPubkey master_public_key

datatype gatekeeper_registry_event = RotatedMasterPubkey u64 master_public_key

definition on_gatekeeper_launched :: "'acc registry_env \<Rightarrow> 'acc registry \<Rightarrow> 'acc registry" where
  "on_gatekeeper_launched env s =
     deposit_event GatekeeperLaunched (s\<lparr>gatekeeper_launched_at := Some (block_number env, now_secs env)\<rparr>)"

text \<open>
  The score of a benchmark report, in 64-bit arithmetic: the duration in whole seconds
  divides the iterations (a zero divisor panics), the product wraps, and the cast keeps the
  low 32 bits.
\<close>

definition bench_score :: "u64 \<Rightarrow> u64 \<Rightarrow> u64 \<Rightarrow> u32 option" where
  "bench_score now start_time iterations =
     (let secs = (now - start_time) div 1000 in
      if secs = 0 then None
      else let score = iterations div secs; score' = score * 6 in Some (min 6000 (ucast score')))"

definition set_score :: "worker_public_key \<Rightarrow> u32 \<Rightarrow> u64 \<Rightarrow> 'acc registry \<Rightarrow> 'acc registry" where
  "set_score pk score now s =
     (case workers s pk of
        Some w \<Rightarrow> s\<lparr>workers := (workers s)(pk \<mapsto> w\<lparr>initial_score := Some score, last_updated := now div 1000\<rparr>)\<rparr>
      | None \<Rightarrow> s)"

definition on_message_received ::
    "'acc registry_env \<Rightarrow> registry_event decoded_message \<Rightarrow> 'acc registry \<Rightarrow>
     ('acc registry \<times> unit reg_result) option" where
  "on_message_received env m s =
     (case dm_sender m of
        Worker pk \<Rightarrow>
          (case dm_payload m of
             BenchReport start_time iterations \<Rightarrow>
               let now = now_millis env in
               if now \<le> start_time then Some (s, Inl (Module InvalidBenchReport))
               else (case bench_score now start_time iterations of
                  None \<Rightarrow> None
                | Some score \<Rightarrow>
                    let s1 = set_score pk score now s;
                        s2 = push_message (SystemEventMsg (new_worker_event pk (BenchScore score))) s1
                    in Some (deposit_event (InitialScoreSet pk score) s2, Inr ()))
           | MasterPubkey master \<Rightarrow>
               if pk \<notin> set (gatekeepers s) then Some (s, Inl (Module InvalidGatekeeper))
               else (case gatekeeper_master_pubkey s of
                  Some saved \<Rightarrow>
                    if saved = master then Some (s, Inr ()) else Some (s, Inl (Module MasterKeyMismatch))
                | None \<Rightarrow>
                    let s1 = s\<lparr>gatekeeper_master_pubkey := Some master\<rparr>;
                        s2 = push_message (GatekeeperLaunchMsg (MasterPubkeyOnChain master)) s1
                    in Some (on_gatekeeper_launched env s2, Inr ())))
      | _ \<Rightarrow> Some (s, Inl (Module InvalidSender)))"

definition on_gk_message_received ::
    "gatekeeper_registry_event decoded_message \<Rightarrow> 'acc registry \<Rightarrow> 'acc registry \<times> unit reg_result" where
  "on_gk_message_received m s =
     (if \<not> is_gatekeeper (dm_sender m) then (s, Inl (Module InvalidSender))
      else case dm_payload m of
        RotatedMasterPubkey rotation_id master \<Rightarrow>
          if master_key_rotation_lock s \<noteq> Some rotation_id
          then (deposit_event (MasterKeyRotationFailed (master_key_rotation_lock s) rotation_id) s,
                Inl (Module InvalidRotatedMasterPubkey))
          else
            let s1 = s\<lparr>gatekeeper_master_pubkey := Some master, master_key_rotation_lock := None\<rparr>;
                s2 = deposit_event (MasterKeyRotated rotation_id master) s1
            in (push_message (GatekeeperLaunchMsg (MasterPubkeyRotated master)) s2, Inr ()))"

definition is_worker_registered_after_gk_launched :: "'acc registry \<Rightarrow> worker_public_key \<Rightarrow> bool" where
  "is_worker_registered_after_gk_launched s pk =
     (case worker_added_at s pk of
        None \<Rightarrow> False
      | Some added \<Rightarrow>
          (case gatekeeper_launched_at s of None \<Rightarrow> False | Some (launched, _) \<Rightarrow> added > launched))"

lemmas registry_ops =
  force_set_benchmark_duration_def force_register_worker_def force_register_topic_pubkey_def
  register_gatekeeper_def unregister_gatekeeper_def rotate_master_key_def update_registry_def
  register_worker_def register_worker_v2_def update_worker_endpoint_def add_pruntime_def
  remove_pruntime_def add_relaychain_genesis_block_hash_def remove_relaychain_genesis_block_hash_def
  set_minimum_pruntime_version_def set_pruntime_consensus_version_def set_trusted_ntp_servers_def
  on_message_received_def on_gk_message_received_def on_gatekeeper_launched_def set_score_def

lemma push_message_frame [simp, frame]:
  "gatekeepers (push_message m s) = gatekeepers s"
  "gatekeeper_master_pubkey (push_message m s) = gatekeeper_master_pubkey s"
  "gatekeeper_launched_at (push_message m s) = gatekeeper_launched_at s"
  "rotation_counter (push_message m s) = rotation_counter s"
  "master_key_rotation_lock (push_message m s) = master_key_rotation_lock s"
  "workers (push_message m s) = workers s"
  "worker_added_at (push_message m s) = worker_added_at s"
  "benchmark_duration (push_message m s) = benchmark_duration s"
  "pushed (push_message m s) = pushed s @ [m]"
  "events (push_message m s) = events s"
  by (simp_all add: push_message_def)

lemma deposit_event_frame [simp, frame]:
  "gatekeepers (deposit_event e s) = gatekeepers s"
  "gatekeeper_master_pubkey (deposit_event e s) = gatekeeper_master_pubkey s"
  "gatekeeper_launched_at (deposit_event e s) = gatekeeper_launched_at s"
  "rotation_counter (deposit_event e s) = rotation_counter s"
  "master_key_rotation_lock (deposit_event e s) = master_key_rotation_lock s"
  "workers (deposit_event e s) = workers s"
  "worker_added_at (deposit_event e s) = worker_added_at s"
  "benchmark_duration (deposit_event e s) = benchmark_duration s"
  "pushed (deposit_event e s) = pushed s"
  "events (deposit_event e s) = events s @ [e]"
  by (simp_all add: deposit_event_def)

section \<open>Genesis\<close>

text \<open>
  Genesis registers the configured workers and then those configured gatekeepers that are
  workers. The messages go to the queue of the next block; the log keeps them in order.
\<close>

definition genesis_worker ::
    "u32 \<Rightarrow> worker_public_key \<times> ecdh_public_key \<times> 'acc option \<Rightarrow> 'acc registry \<Rightarrow> 'acc registry" where
  "genesis_worker duration w s =
     (case w of (pk, ecdh, oper) \<Rightarrow>
        let info = \<lparr>pubkey = pk, ecdh_pubkey = ecdh, runtime_version = 0, last_updated = 0, operator = oper,
                    attestation_provider = Some RootProvider, confidence_level = 128, initial_score = None,
                    features = [1, 4]\<rparr>;
            s1 = s\<lparr>workers := (workers s)(pk \<mapsto> info)\<rparr>;
            s2 = push_message (SystemEventMsg (new_worker_event pk (Registered \<lparr>wim_confidence_level = 128\<rparr>))) s1;
            s3 = push_message (SystemEventMsg (new_worker_event pk (BenchStart duration))) s2
        in s3\<lparr>benchmark_duration := Some duration\<rparr>)"

definition genesis_gatekeeper :: "worker_public_key \<Rightarrow> 'acc registry \<Rightarrow> 'acc registry" where
  "genesis_gatekeeper gk s =
     (case workers s gk of
        None \<Rightarrow> s
      | Some info \<Rightarrow>
          let gks = gatekeepers s @ [gk];
              s1 = s\<lparr>gatekeepers := gks\<rparr>;
              msg = (if length gks = 1 then GatekeeperLaunchMsg (FirstGatekeeper gk (ecdh_pubkey info))
                     else GatekeeperChangeMsg (GkRegistered gk (ecdh_pubkey info)))
          in push_message msg s1)"

definition genesis_build ::
    "(worker_public_key \<times> ecdh_public_key \<times> 'acc option) list \<Rightarrow> worker_public_key list \<Rightarrow> u32 \<Rightarrow>
     'acc registry \<Rightarrow> 'acc registry" where
  "genesis_build ws gks duration s =
     fold genesis_gatekeeper gks (fold (genesis_worker duration) ws s)"

definition registry_empty :: "'acc registry" where
  "registry_empty =
     \<lparr>gatekeepers = [], gatekeeper_master_pubkey = None, gatekeeper_launched_at = None,
      rotation_counter = 0, master_key_rotation_lock = None, workers = Map.empty,
      worker_added_at = Map.empty, contract_keys = Map.empty, cluster_keys = Map.empty,
      topic_key = Map.empty, benchmark_duration = None, pruntime_allowlist = [],
      pruntime_added_at = Map.empty, relaychain_genesis_allowlist = [], endpoints = Map.empty,
      minimum_pruntime_version = (0, 0, 0), pruntime_consensus_version = 0,
      max_known_consensus_version = \<lparr>kcv_version = 0, kcv_count = 0\<rparr>,
      trusted_ntp_servers = [], pushed = [], events = []\<rparr>"

section \<open>Reachable registries\<close>

text \<open>
  A step is a successful extrinsic of anyone in any block, or a message handled. Handlers
  that panic do not return and make no step.
\<close>

inductive reg_step :: "'acc registry \<Rightarrow> 'acc registry \<Rightarrow> bool" where
  "force_set_benchmark_duration env orig v s = Inr t \<Longrightarrow> reg_step s t"
| "force_register_worker env orig pk ecdh oper s = Inr t \<Longrightarrow> reg_step s t"
| "force_register_topic_pubkey orig tpc pk s = Inr t \<Longrightarrow> reg_step s t"
| "register_gatekeeper env orig gk s = Inr t \<Longrightarrow> reg_step s t"
| "unregister_gatekeeper env orig gk s = Inr t \<Longrightarrow> reg_step s t"
| "rotate_master_key env orig s = Inr t \<Longrightarrow> reg_step s t"
| "register_worker env orig info att s = Inr t \<Longrightarrow> reg_step s t"
| "register_worker_v2 env orig info2 att2 s = Inr t \<Longrightarrow> reg_step s t"
| "update_worker_endpoint env enc orig ep sg s = Inr t \<Longrightarrow> reg_step s t"
| "add_pruntime env orig h s = Inr t \<Longrightarrow> reg_step s t"
| "remove_pruntime env orig h s = Inr t \<Longrightarrow> reg_step s t"
| "add_relaychain_genesis_block_hash env orig h s = Inr t \<Longrightarrow> reg_step s t"
| "remove_relaychain_genesis_block_hash env orig h s = Inr t \<Longrightarrow> reg_step s t"
| "set_minimum_pruntime_version env orig ma mi pa s = Inr t \<Longrightarrow> reg_step s t"
| "set_pruntime_consensus_version env orig ver s = Inr t \<Longrightarrow> reg_step s t"
| "set_trusted_ntp_servers env orig srv s = Inr t \<Longrightarrow> reg_step s t"
| "on_message_received env m s = Some (t, res) \<Longrightarrow> reg_step s t"
| "on_gk_message_received gm s = (t, res) \<Longrightarrow> reg_step s t"

inductive reg_reachable :: "'acc registry \<Rightarrow> bool" where
  reg_genesis: "distinct gks \<Longrightarrow> reg_reachable (genesis_build ws gks duration registry_empty)"
| reg_next: "reg_reachable s \<Longrightarrow> reg_step s t \<Longrightarrow> reg_reachable t"

end
