(* ===== verification/Mq_Pallet.thy ===== *)
theory Mq_Pallet
  imports Registry "HOL-Library.Sublist"
begin

text \<open>
  The message queue pallet, \<^verbatim>\<open>pallets/cyrux/src/mq.rs\<close>, and its transaction extension,
  \<^verbatim>\<open>pallets/cyrux/src/mq/check_seq.rs\<close>. The state is the pallet's three storage items and
  the state of the rest of the chain. The notification handler is a parameter of the
  pallet, as it is in the source (\<open>QueueNotifyConfig\<close>).
\<close>

section \<open>State and configuration\<close>

record 'w mq =
  offchain_ingress :: "message_origin \<rightharpoonup> u64"
  queued_outbound :: "message list option"
  outbound_messages :: "message list"
  world :: 'w

text \<open>
  A handler may push messages itself, so it is given the dispatch function; \<open>None\<close> is a
  panic. Its error is dropped by the caller. \<open>reg_env_of\<close> and \<open>registry_of\<close> give the
  registry pallet and its configuration in the current block, \<open>encode_mq\<close> the encoding of
  the signed data, and \<open>into_h256\<close> the conversion of an account.
\<close>

record ('acc, 'w) mq_config =
  notify_received :: "(message \<Rightarrow> 'w mq \<Rightarrow> 'w mq option) \<Rightarrow> message \<Rightarrow> 'w mq \<Rightarrow> 'w mq option"
  should_push_message :: "message \<Rightarrow> bool"
  registry_of :: "'w \<Rightarrow> 'acc registry"
  reg_env_of :: "'w \<Rightarrow> 'acc registry_env"
  encode_mq :: encoder
  into_h256 :: "'acc \<Rightarrow> bytes"

datatype mq_error = BadSender | BadSequence | BadDestination

datatype mq_call_error = MqError mq_error | RegistryError registry_error

datatype pays = PaysYes | PaysNo

definition should_push_default :: "message \<Rightarrow> bool" where
  "should_push_default m = topic_is_offchain (destination m)"

definition notify_default :: "(message \<Rightarrow> 'w mq \<Rightarrow> 'w mq option) \<Rightarrow> message \<Rightarrow> 'w mq \<Rightarrow> 'w mq option" where
  "notify_default disp m s = Some s"

section \<open>Dispatching\<close>

text \<open>
  \<open>dispatch_message\<close> calls the handler, which may dispatch further messages before it
  returns. The first argument bounds the nesting; running out of it is a stack overflow.
  A handler that pushes nothing needs depth one, one that pushes such messages depth two.
\<close>

fun dispatch_message :: "('acc, 'w) mq_config \<Rightarrow> nat \<Rightarrow> message \<Rightarrow> 'w mq \<Rightarrow> 'w mq option" where
  "dispatch_message cfg 0 m s = None"
| "dispatch_message cfg (Suc n) m s =
     (case notify_received cfg (dispatch_message cfg n) m s of
        None \<Rightarrow> None
      | Some s1 \<Rightarrow>
          Some (if should_push_message cfg m
                then s1\<lparr>outbound_messages := outbound_messages s1 @ [m]\<rparr> else s1))"

definition push_message_to ::
    "('acc, 'w) mq_config \<Rightarrow> nat \<Rightarrow> path \<Rightarrow> message_origin \<Rightarrow> bytes \<Rightarrow> 'w mq \<Rightarrow> 'w mq option" where
  "push_message_to cfg n tpc sndr encoded s = dispatch_message cfg n (message_new sndr tpc encoded) s"

definition queue_bound_message :: "path \<Rightarrow> message_origin \<Rightarrow> bytes \<Rightarrow> 'w mq \<Rightarrow> 'w mq" where
  "queue_bound_message tpc sndr encoded s =
     s\<lparr>queued_outbound :=
         Some ((case queued_outbound s of None \<Rightarrow> [] | Some ms \<Rightarrow> ms) @ [message_new sndr tpc encoded])\<rparr>"

fun dispatch_all :: "('acc, 'w) mq_config \<Rightarrow> nat \<Rightarrow> message list \<Rightarrow> 'w mq \<Rightarrow> 'w mq option" where
  "dispatch_all cfg n [] s = Some s"
| "dispatch_all cfg n (m # ms) s =
     (case dispatch_message cfg n m s of None \<Rightarrow> None | Some s1 \<Rightarrow> dispatch_all cfg n ms s1)"

definition on_initialize :: "('acc, 'w) mq_config \<Rightarrow> nat \<Rightarrow> 'w mq \<Rightarrow> 'w mq option" where
  "on_initialize cfg n s =
     (let s1 = s\<lparr>outbound_messages := []\<rparr> in
      case queued_outbound s1 of
        None \<Rightarrow> Some s1
      | Some msgs \<Rightarrow> dispatch_all cfg n msgs (s1\<lparr>queued_outbound := None\<rparr>))"

section \<open>Extrinsics\<close>

definition expected_seq :: "'w mq \<Rightarrow> message_origin \<Rightarrow> u64" where
  "expected_seq s sndr = (case offchain_ingress s sndr of None \<Rightarrow> 0 | Some n \<Rightarrow> n)"

fun lift_registry_error :: "registry_error dispatch_error \<Rightarrow> mq_call_error dispatch_error" where
  "lift_registry_error BadOriginErr = BadOriginErr"
| "lift_registry_error (Module e) = Module (RegistryError e)"

definition check_signed ::
    "('acc, 'w) mq_config \<Rightarrow> signed_message \<Rightarrow> 'w mq \<Rightarrow> registry_error dispatch_error + unit" where
  "check_signed cfg m s =
     check_message (reg_env_of cfg (world s)) (encode_mq cfg) (registry_of cfg (world s)) m"

text \<open>The checks of \<open>sync_offchain_message\<close>, up to the first change of the state.\<close>

definition sync_checks ::
    "('acc, 'w) mq_config \<Rightarrow> 'acc raw_origin \<Rightarrow> signed_message \<Rightarrow> 'w mq \<Rightarrow> mq_call_error dispatch_error + unit" where
  "sync_checks cfg orig m s =
     bind_result (ensure_signed orig) (\<lambda>_.
     bind_result (ensure (is_offchain (sender (message m))) (Module (MqError BadSender))) (\<lambda>_.
     bind_result (ensure (topic_is_valid (destination (message m))) (Module (MqError BadDestination))) (\<lambda>_.
     bind_result (ensure (sequence m = expected_seq s (sender (message m))) (Module (MqError BadSequence))) (\<lambda>_.
     case check_signed cfg m s of Inl e \<Rightarrow> Inl (lift_registry_error e) | Inr _ \<Rightarrow> Inr ()))))"

definition sync_offchain_message ::
    "('acc, 'w) mq_config \<Rightarrow> nat \<Rightarrow> 'acc raw_origin \<Rightarrow> signed_message \<Rightarrow> 'w mq \<Rightarrow>
     (mq_call_error dispatch_error + 'w mq \<times> pays) option" where
  "sync_offchain_message cfg n orig m s =
     (case sync_checks cfg orig m s of
        Inl e \<Rightarrow> Some (Inl e)
      | Inr _ \<Rightarrow>
          let sndr = sender (message m);
              s1 = s\<lparr>offchain_ingress := (offchain_ingress s)(sndr \<mapsto> expected_seq s sndr + 1)\<rparr>
          in (case dispatch_message cfg n (message m) s1 of
                None \<Rightarrow> None
              | Some s2 \<Rightarrow> Some (Inr (s2, if sndr = Gatekeeper then PaysNo else PaysYes))))"

definition mq_push_message ::
    "('acc, 'w) mq_config \<Rightarrow> nat \<Rightarrow> 'acc raw_origin \<Rightarrow> path \<Rightarrow> bytes \<Rightarrow> 'w mq \<Rightarrow>
     (mq_call_error dispatch_error + 'w mq) option" where
  "mq_push_message cfg n orig dest pl s =
     (case ensure_signed orig of
        Inl e \<Rightarrow> Some (Inl e)
      | Inr who \<Rightarrow>
          map_option Inr (dispatch_message cfg n (message_new (AccountId (into_h256 cfg who)) dest pl) s))"

text \<open>The bytes of \<^verbatim>\<open>ForcePushed\<close>.\<close>

definition force_pushed :: bytes where
  "force_pushed = [70, 111, 114, 99, 101, 80, 117, 115, 104, 101, 100]"

definition force_push_pallet_message ::
    "('acc, 'w) mq_config \<Rightarrow> nat \<Rightarrow> 'acc raw_origin \<Rightarrow> path \<Rightarrow> bytes \<Rightarrow> 'w mq \<Rightarrow>
     (mq_call_error dispatch_error + 'w mq) option" where
  "force_push_pallet_message cfg n orig dest pl s =
     (case ensure_root orig of
        Inl e \<Rightarrow> Some (Inl e)
      | Inr _ \<Rightarrow> map_option Inr (dispatch_message cfg n (message_new (Pallet force_pushed) dest pl) s))"

section \<open>Transaction extension\<close>







section \<open>Runs\<close>

text \<open>
  A call of the pallet, or a step of the rest of the chain that changes its own state or
  pushes or queues a message. A call that fails or panics leaves the state as it was. The
  run returns the off-chain messages it accepted, in order.
\<close>

datatype ('acc, 'w) mq_call =
    Sync "'acc raw_origin" signed_message
  | PushMessage "'acc raw_origin" path bytes
  | ForcePush "'acc raw_origin" path bytes
  | PalletPush path message_origin bytes
  | PalletQueue path message_origin bytes
  | NewBlock
  | OtherStep "'w \<Rightarrow> 'w"

fun or_unchanged :: "('e + 's) option \<Rightarrow> 's \<Rightarrow> 's" where
  "or_unchanged (Some (Inr t)) s = t"
| "or_unchanged _ s = s"

fun mq_exec :: "('acc, 'w) mq_config \<Rightarrow> nat \<Rightarrow> ('acc, 'w) mq_call \<Rightarrow> 'w mq \<Rightarrow> 'w mq \<times> signed_message list" where
  "mq_exec cfg n (Sync orig m) s =
     (case sync_offchain_message cfg n orig m s of Some (Inr (t, _)) \<Rightarrow> (t, [m]) | _ \<Rightarrow> (s, []))"
| "mq_exec cfg n (PushMessage orig d p) s = (or_unchanged (mq_push_message cfg n orig d p s) s, [])"
| "mq_exec cfg n (ForcePush orig d p) s = (or_unchanged (force_push_pallet_message cfg n orig d p s) s, [])"
| "mq_exec cfg n (PalletPush d orig p) s =
     ((case push_message_to cfg n d orig p s of None \<Rightarrow> s | Some t \<Rightarrow> t), [])"
| "mq_exec cfg n (PalletQueue d orig p) s = (queue_bound_message d orig p s, [])"
| "mq_exec cfg n NewBlock s = ((case on_initialize cfg n s of None \<Rightarrow> s | Some t \<Rightarrow> t), [])"
| "mq_exec cfg n (OtherStep f) s = (s\<lparr>world := f (world s)\<rparr>, [])"

fun mq_run :: "('acc, 'w) mq_config \<Rightarrow> nat \<Rightarrow> ('acc, 'w) mq_call list \<Rightarrow> 'w mq \<Rightarrow> 'w mq \<times> signed_message list" where
  "mq_run cfg n [] s = (s, [])"
| "mq_run cfg n (c # cs) s =
     (case mq_exec cfg n c s of (t, acc) \<Rightarrow> case mq_run cfg n cs t of (u, acc') \<Rightarrow> (u, acc @ acc'))"

text \<open>The messages of one sender, and the sequence numbers from a given one on.\<close>

definition from_sender :: "message_origin \<Rightarrow> signed_message list \<Rightarrow> signed_message list" where
  "from_sender x ms = filter (\<lambda>m. sender (message m) = x) ms"

fun counting :: "u64 \<Rightarrow> nat \<Rightarrow> u64 list" where
  "counting a 0 = []"
| "counting a (Suc k) = a # counting (a + 1) k"

lemma from_sender_simps [simp]:
  "from_sender x [] = []"
  "from_sender x (m # ms) = (if sender (message m) = x then m # from_sender x ms else from_sender x ms)"
  "from_sender x (ms @ ns) = from_sender x ms @ from_sender x ns"
  by (simp_all add: from_sender_def)

lemma counting_nth: "i < k \<Longrightarrow> counting a k ! i = a + of_nat i"
proof (induction k arbitrary: a i)
  case (Suc k)
  then show ?case by (cases i) (simp_all add: algebra_simps)
qed simp

lemma length_counting [simp]: "length (counting a k) = k"
  by (induction k arbitrary: a) simp_all

section \<open>The contract of a notification handler\<close>

text \<open>
  What the pallet relies on: a handler that changes the queue only by dispatching messages
  leaves the ingress sequences alone and takes no outbound message back.
\<close>

definition keeps_queue :: "'w mq \<Rightarrow> 'w mq \<Rightarrow> bool" where
  "keeps_queue s t \<longleftrightarrow> offchain_ingress t = offchain_ingress s \<and> queued_outbound t = queued_outbound s \<and>
     prefix (outbound_messages s) (outbound_messages t)"

lemma keeps_queue_refl [simp]: "keeps_queue s s"
  by (simp add: keeps_queue_def)

lemma keeps_queue_trans [trans]: "keeps_queue s t \<Longrightarrow> keeps_queue t u \<Longrightarrow> keeps_queue s u"
  by (auto simp: keeps_queue_def intro: prefix_order.trans)

lemma keeps_queue_world [simp]: "keeps_queue s (t\<lparr>world := w\<rparr>) \<longleftrightarrow> keeps_queue s t"
  by (simp add: keeps_queue_def)

lemma keeps_queue_ingress: "keeps_queue s t \<Longrightarrow> expected_seq t x = expected_seq s x"
  by (simp add: keeps_queue_def expected_seq_def)

locale queue_notify =
  fixes cfg :: "('acc, 'w) mq_config"
  assumes notify_keeps:
    "(\<And>m s t. disp m s = Some t \<Longrightarrow> keeps_queue s t) \<Longrightarrow>
     notify_received cfg disp m s = Some t \<Longrightarrow> keeps_queue s t"
begin

lemma dispatch_keeps: "dispatch_message cfg n m s = Some t \<Longrightarrow> keeps_queue s t"
proof (induction n arbitrary: m s t)
  case 0
  then show ?case by simp
next
  case (Suc n)
  from Suc.prems obtain s1 where s1: "notify_received cfg (dispatch_message cfg n) m s = Some s1"
    and t: "t = (if should_push_message cfg m then s1\<lparr>outbound_messages := outbound_messages s1 @ [m]\<rparr> else s1)"
    by (auto split: option.splits)
  have "keeps_queue s s1" using Suc.IH s1 by (rule notify_keeps)
  then show ?case unfolding t by (auto simp: keeps_queue_def)
qed

lemma dispatch_all_keeps: "dispatch_all cfg n ms s = Some t \<Longrightarrow> keeps_queue s t"
  by (induction ms arbitrary: s) (auto split: option.splits dest: dispatch_keeps intro: keeps_queue_trans)

lemma on_initialize_ingress: "on_initialize cfg n s = Some t \<Longrightarrow> offchain_ingress t = offchain_ingress s"
  by (auto simp: on_initialize_def Let_def keeps_queue_def dest!: dispatch_all_keeps split: option.splits)

lemma sync_ingress:
  "sync_offchain_message cfg n orig m s = Some (Inr (t, p)) \<Longrightarrow>
   sync_checks cfg orig m s = Inr () \<and>
   offchain_ingress t = (offchain_ingress s)(sender (message m) \<mapsto> sequence m + 1)"
  by (auto simp: sync_offchain_message_def sync_checks_def keeps_queue_def Let_def result_simps
      dest!: dispatch_keeps split: option.splits sum.splits)

lemma dispatch_expected: "expected_seq (or_unchanged (map_option Inr (dispatch_message cfg n m s)) s) = expected_seq s"
  by (cases "dispatch_message cfg n m s") (auto simp: fun_eq_iff keeps_queue_ingress dest: dispatch_keeps)

text \<open>
  Every call moves the expected sequence of each sender by the number of its accepted
  messages, which is at most one.
\<close>

lemma mq_exec_ingress:
  assumes "mq_exec cfg n c s = (t, acc)"
  shows "acc = [] \<and> expected_seq t = expected_seq s \<or>
    (\<exists>orig m. c = Sync orig m \<and> acc = [m] \<and> sync_checks cfg orig m s = Inr () \<and>
       expected_seq t = (expected_seq s)(sender (message m) := sequence m + 1))"
proof (cases c)
  case (Sync orig m)
  show ?thesis
  proof (cases "\<exists>t' p. sync_offchain_message cfg n orig m s = Some (Inr (t', p))")
    case True
    then obtain t' p where *: "sync_offchain_message cfg n orig m s = Some (Inr (t', p))" by blast
    with assms Sync have "t = t'" "acc = [m]" by simp_all
    with sync_ingress [OF *] Sync show ?thesis by (auto simp: expected_seq_def fun_eq_iff)
  next
    case False
    with assms Sync show ?thesis by (auto split: option.splits sum.splits)
  qed
next
  case (PushMessage orig d p)
  with assms show ?thesis
    by (auto simp: mq_push_message_def dispatch_expected split: sum.splits)
next
  case (ForcePush orig d p)
  with assms show ?thesis
    by (auto simp: force_push_pallet_message_def dispatch_expected split: sum.splits)
next
  case (PalletPush d orig p)
  with assms show ?thesis
    by (auto simp: push_message_to_def fun_eq_iff keeps_queue_ingress dest!: dispatch_keeps split: option.splits)
next
  case (PalletQueue d orig p)
  with assms show ?thesis by (auto simp: queue_bound_message_def expected_seq_def)
next
  case NewBlock
  with assms show ?thesis
    by (auto simp: expected_seq_def dest!: on_initialize_ingress split: option.splits)
next
  case (OtherStep f)
  with assms show ?thesis by (auto simp: expected_seq_def)
qed

lemma mq_run_ingress:
  "mq_run cfg n cs s = (t, acc) \<Longrightarrow>
   map sequence (from_sender x acc) = counting (expected_seq s x) (length (from_sender x acc)) \<and>
   expected_seq t x = expected_seq s x + of_nat (length (from_sender x acc))"
proof (induction cs arbitrary: s acc)
  case Nil
  then show ?case by auto
next
  case (Cons c cs)
  obtain u a b where u: "mq_exec cfg n c s = (u, a)" and r: "mq_run cfg n cs u = (t, b)" and acc: "acc = a @ b"
    using Cons.prems by (auto split: prod.splits)
  from mq_exec_ingress [OF u] show ?case
  proof (elim disjE exE conjE)
    assume "a = []" "expected_seq u = expected_seq s"
    with Cons.IH [OF r] acc show ?thesis by simp
  next
    fix orig m
    assume "a = [m]" "sync_checks cfg orig m s = Inr ()"
      and e: "expected_seq u = (expected_seq s)(sender (message m) := sequence m + 1)"
    then have "sequence m = expected_seq s (sender (message m))" by (simp add: sync_checks_def result_simps)
    with Cons.IH [OF r] acc \<open>a = [m]\<close> e show ?thesis by (auto simp: algebra_simps)
  qed
qed

lemma mq_run_checked:
  "mq_run cfg n cs s = (t, acc) \<Longrightarrow> m \<in> set acc \<Longrightarrow>
   \<exists>pre orig post u. cs = pre @ Sync orig m # post \<and> u = fst (mq_run cfg n pre s) \<and>
     sync_checks cfg orig m u = Inr ()"
proof (induction cs arbitrary: s acc)
  case Nil
  then show ?case by auto
next
  case (Cons c cs)
  obtain u a b where u: "mq_exec cfg n c s = (u, a)" and r: "mq_run cfg n cs u = (t, b)" and acc: "acc = a @ b"
    using Cons.prems by (auto split: prod.splits)
  show ?case
  proof (cases "m \<in> set a")
    case True
    with mq_exec_ingress [OF u] obtain orig where "c = Sync orig m" "sync_checks cfg orig m s = Inr ()" by auto
    then show ?thesis by (intro exI [of _ "[]"]) auto
  next
    case False
    with Cons.prems(2) acc have "m \<in> set b" by simp
    from Cons.IH [OF r this] obtain pre orig post where
      *: "cs = pre @ Sync orig m # post" "sync_checks cfg orig m (fst (mq_run cfg n pre u)) = Inr ()" by blast
    then have "c # cs = (c # pre) @ Sync orig m # post"
      "fst (mq_run cfg n (c # pre) s) = fst (mq_run cfg n pre u)" using u by (auto split: prod.splits)
    with *(2) show ?thesis by metis
  qed
qed

end

text \<open>The configuration \<open>()\<close> of the source, which ignores every message.\<close>

definition default_config :: "('w \<Rightarrow> 'acc registry) \<Rightarrow> ('w \<Rightarrow> 'acc registry_env) \<Rightarrow> encoder \<Rightarrow> ('acc \<Rightarrow> bytes) \<Rightarrow> ('acc, 'w) mq_config" where
  "default_config r e enc h =
     \<lparr>notify_received = notify_default, should_push_message = should_push_default, registry_of = r,
      reg_env_of = e, encode_mq = enc, into_h256 = h\<rparr>"

interpretation dflt: queue_notify "default_config r e enc h"
  by unfold_locales (simp add: default_config_def notify_default_def)

section \<open>Pool and chain agree on the sequence\<close>




definition example_signed :: "u64 \<Rightarrow> signed_message" where
  "example_signed k = \<lparr>message = message_new (Worker [1]) [116] [], sequence = k, signature = replicate 64 0\<rparr>"

definition example_mq :: "nat registry mq" where
  "example_mq = \<lparr>offchain_ingress = [Worker [1] \<mapsto> 4], queued_outbound = None, outbound_messages = [],
     world = registry_empty\<rparr>"

text \<open>An encoding that starts with the index of the sender, for the example.\<close>

definition example_encode :: encoder where
  "example_encode m k = origin_codec_index (sender m) # [ucast k]"

definition example_mq_env :: "nat registry_env" where
  "example_mq_env =
     \<lparr>governance = (\<lambda>orig. orig = Root), now_millis = 0, block_number = 0, verify_pruntime = True,
      verify_genesis = False, none_attestation_enabled = False, parachain_id = 1,
      attest = example_attest_env, hash_registration = (\<lambda>_. []), hash_registration_v2 = (\<lambda>_. []),
      legacy_validate = (\<lambda>_ _ _ _ _. Inr 1), signature_try_from = Some,
      sr25519_verify = (\<lambda>sig data pk. sig = replicate 64 0)\<rparr>"

definition example_config :: "(nat, nat registry) mq_config" where
  "example_config = default_config (\<lambda>r. r) (\<lambda>_. example_mq_env) example_encode (\<lambda>_. replicate 32 0)"


section \<open>What a signature is about\<close>

text \<open>
  C11: a signature on an accepted queue message is of no use elsewhere: the bytes it signs
  are not the signed form of any content of another type (an RPC response, an endpoint, a
  master key, a state request or an event chain block), because those start with the byte
  255 that no sender of an accepted message is encoded with.
\<close>

theorem accepted_signature_domain:
  assumes "encodes_sender_first (encode_mq cfg)"
    and "sync_checks cfg orig m s = Inr ()" and "t \<noteq> MqMessage"
  shows "wrap_content_to_sign d t \<noteq> wrap_content_to_sign (data_be_signed (encode_mq cfg) m) MqMessage"
proof
  assume eq: "wrap_content_to_sign d t = wrap_content_to_sign (data_be_signed (encode_mq cfg) m) MqMessage"
  from assms(1) obtain rest where "data_be_signed (encode_mq cfg) m = origin_codec_index (sender (message m)) # rest"
    by (auto simp: encodes_sender_first_def data_be_signed_def)
  with eq wrap_content_other [OF assms(3)] have "origin_codec_index (sender (message m)) = 255" by simp
  then have "sender (message m) = Reserved" by (rule origin_codec_index_255)
  with assms(2) show False by (simp add: sync_checks_def result_simps)
qed

lemma example_sync_ok: "sync_checks example_config (Signed 0) (example_signed 4) example_mq = Inr ()"
  by (simp add: sync_checks_def example_signed_def example_mq_def expected_seq_def message_new_def
      check_signed_def check_message_def sender_pubkey_def verify_signature_def example_config_def
      default_config_def example_mq_env_def Let_def ensure_def topic_is_valid_def
      RESERVED_BYTES_def)

theorem accepted_signature_domain_witness:
  "wrap_content_to_sign [1, 2] RpcResponse \<noteq>
   wrap_content_to_sign (data_be_signed (encode_mq example_config) (example_signed 4)) MqMessage"
  by (rule accepted_signature_domain [OF _ example_sync_ok])
    (simp_all add: encodes_sender_first_def example_config_def default_config_def example_encode_def)

end
