(* ===== verification/Send_Queue.thy ===== *)
theory Send_Queue
  imports Mq_Types
begin

text \<open>
  The outbound side of the message queue inside the enclave runtime:
  \<^verbatim>\<open>crates/cyrux-mq/src/send_queue.rs\<close>. The queue is one map behind one mutex and each
  method holds the lock for its whole body, so each method is one function on the map.
  Logging is left out.
\<close>

section \<open>State\<close>

record channel =
  ch_sequence :: u64
  ch_messages :: "signed_message list"
  ch_dummy :: bool

type_synonym send_queue = "(sender_id, channel) btree"

definition channel_default :: channel where
  "channel_default = \<lparr>ch_sequence = 0, ch_messages = [], ch_dummy = False\<rparr>"

definition send_queue_new :: send_queue where
  "send_queue_new = []"

text \<open>\<open>entry(sender).or_default()\<close>.\<close>

definition entry_or_default :: "send_queue \<Rightarrow> sender_id \<Rightarrow> channel" where
  "entry_or_default q s = (case map_of q s of None \<Rightarrow> channel_default | Some c \<Rightarrow> c)"

section \<open>Operations\<close>

definition enqueue_message :: "sender_id \<Rightarrow> (u64 \<Rightarrow> signed_message) \<Rightarrow> send_queue \<Rightarrow> send_queue" where
  "enqueue_message s constructor q =
     (let entry = entry_or_default q s;
          entry' = (if \<not> ch_dummy entry
                    then entry\<lparr>ch_messages := ch_messages entry @ [constructor (ch_sequence entry)]\<rparr>
                    else entry)
      in bt_insert s (entry'\<lparr>ch_sequence := ch_sequence entry' + 1\<rparr>) q)"

definition set_dummy_mode :: "sender_id \<Rightarrow> bool \<Rightarrow> send_queue \<Rightarrow> send_queue" where
  "set_dummy_mode s dummy q = bt_insert s ((entry_or_default q s)\<lparr>ch_dummy := dummy\<rparr>) q"

definition all_messages :: "send_queue \<Rightarrow> signed_message list" where
  "all_messages q = concat (map (\<lambda>(k, v). ch_messages v) q)"

definition all_messages_grouped :: "send_queue \<Rightarrow> (message_origin, signed_message list) btree" where
  "all_messages_grouped q = map (\<lambda>(k, v). (k, ch_messages v)) q"

definition messages :: "sender_id \<Rightarrow> send_queue \<Rightarrow> signed_message list" where
  "messages s q = (case map_of q s of None \<Rightarrow> [] | Some x \<Rightarrow> ch_messages x)"

definition count_messages :: "send_queue \<Rightarrow> nat" where
  "count_messages q = sum_list (map (\<lambda>(k, v). length (ch_messages v)) q)"

definition purge :: "(sender_id \<Rightarrow> u64) \<Rightarrow> send_queue \<Rightarrow> send_queue" where
  "purge next_sequence_for q =
     map (\<lambda>(k, v). (k, let seq = next_sequence_for k in
        v\<lparr>ch_messages := filter (\<lambda>msg. sequence msg \<ge> seq) (ch_messages v)\<rparr>)) q"

definition dump_state :: "sender_id \<Rightarrow> send_queue \<Rightarrow> channel option" where
  "dump_state s q = map_of q s"

definition load_state :: "sender_id \<Rightarrow> channel \<Rightarrow> send_queue \<Rightarrow> send_queue" where
  "load_state s state q = bt_insert s state q"

section \<open>Message channels\<close>

record 'sk message_channel =
  mc_sender :: sender_id
  mc_signer :: 'sk

definition prepare_with_data :: "'sk message_channel \<Rightarrow> bytes \<Rightarrow> path \<Rightarrow> 'sk signing_message" where
  "prepare_with_data c pl to =
     \<lparr>sg_message = \<lparr>sender = mc_sender c, destination = Topic to, payload = pl\<rparr>,
      sg_signer = mc_signer c\<rparr>"

definition push_data ::
    "encoder \<Rightarrow> ('sk \<Rightarrow> bytes \<Rightarrow> bytes) \<Rightarrow> 'sk message_channel \<Rightarrow> bytes \<Rightarrow> path \<Rightarrow> send_queue \<Rightarrow> send_queue" where
  "push_data encode sign c pl to q =
     (let signing = prepare_with_data c pl to in
      enqueue_message (mc_sender c) (\<lambda>seq. sign_message encode sign signing seq) q)"

definition set_dummy :: "'sk message_channel \<Rightarrow> bool \<Rightarrow> send_queue \<Rightarrow> send_queue" where
  "set_dummy c dummy q = set_dummy_mode (mc_sender c) dummy q"

definition set_signer :: "'sk \<Rightarrow> 'sk message_channel \<Rightarrow> 'sk message_channel" where
  "set_signer signer c = c\<lparr>mc_signer := signer\<rparr>"

section \<open>Lookup after each operation\<close>

lemma entry_or_default_insert [simp]:
  "bt_inv q \<Longrightarrow> entry_or_default (bt_insert s c q) t = (if t = s then c else entry_or_default q t)"
  by (simp add: entry_or_default_def)

lemma messages_entry: "messages s q = ch_messages (entry_or_default q s)"
  by (simp add: messages_def entry_or_default_def channel_default_def split: option.splits)

lemma entry_enqueue:
  "bt_inv q \<Longrightarrow> entry_or_default (enqueue_message s f q) t =
     (if t = s
      then (entry_or_default q s)
        \<lparr>ch_sequence := ch_sequence (entry_or_default q s) + 1,
         ch_messages := ch_messages (entry_or_default q s) @
           (if ch_dummy (entry_or_default q s) then [] else [f (ch_sequence (entry_or_default q s))])\<rparr>
      else entry_or_default q t)"
  by (simp add: enqueue_message_def Let_def)

lemma entry_set_dummy_mode:
  "bt_inv q \<Longrightarrow> entry_or_default (set_dummy_mode s b q) t =
     (if t = s then (entry_or_default q s)\<lparr>ch_dummy := b\<rparr> else entry_or_default q t)"
  by (simp add: set_dummy_mode_def)

lemma entry_purge:
  "entry_or_default (purge nx q) t =
     (entry_or_default q t)\<lparr>ch_messages := filter (\<lambda>m. sequence m \<ge> nx t) (ch_messages (entry_or_default q t))\<rparr>"
  by (simp add: entry_or_default_def purge_def Let_def channel_default_def split: option.splits)

lemmas entry_simps = entry_enqueue entry_set_dummy_mode entry_purge

lemma bt_inv_send_queue [simp, wf_intros]:
  "bt_inv q \<Longrightarrow> bt_inv (enqueue_message s f q)"
  "bt_inv q \<Longrightarrow> bt_inv (set_dummy_mode s b q)"
  "bt_inv q \<Longrightarrow> bt_inv (purge nx q)"
  "bt_inv q \<Longrightarrow> bt_inv (load_state s c q)"
  by (simp_all add: enqueue_message_def set_dummy_mode_def purge_def load_state_def Let_def)

section \<open>Invariant\<close>

text \<open>
  The pending messages of a sender carry strictly increasing sequence numbers, all below
  the next number to be given, and name that sender.
\<close>

definition channel_inv :: "sender_id \<Rightarrow> channel \<Rightarrow> bool" where
  "channel_inv s c \<longleftrightarrow>
     sorted_wrt (<) (map sequence (ch_messages c)) \<and>
     (\<forall>m\<in>set (ch_messages c). sequence m < ch_sequence c \<and> sender (message m) = s)"

definition send_queue_inv :: "send_queue \<Rightarrow> bool" where
  "send_queue_inv q \<longleftrightarrow> bt_inv q \<and> (\<forall>s. channel_inv s (entry_or_default q s))"

lemma channel_inv_default [simp]: "channel_inv s channel_default"
  by (simp add: channel_inv_def channel_default_def)

lemma send_queue_inv_new: "send_queue_inv send_queue_new"
  by (simp add: send_queue_inv_def send_queue_new_def entry_or_default_def)

lemma less_inc: "(x :: u64) \<noteq> - 1 \<Longrightarrow> x < x + 1"
  by (simp add: word_less_nat_alt unat_inc)

lemma channel_inv_push:
  assumes "channel_inv s c" "ch_sequence c \<noteq> - 1" "sequence m = ch_sequence c" "sender (message m) = s"
  shows "channel_inv s (c\<lparr>ch_sequence := ch_sequence c + 1, ch_messages := ch_messages c @ [m]\<rparr>)"
  using assms less_inc [OF assms(2)]
  by (auto simp: channel_inv_def sorted_wrt_append intro: order.strict_trans)

lemma channel_inv_skip:
  assumes "channel_inv s c" "ch_sequence c \<noteq> - 1"
  shows "channel_inv s (c\<lparr>ch_sequence := ch_sequence c + 1\<rparr>)"
  using assms less_inc [OF assms(2)] by (auto simp: channel_inv_def intro: order.strict_trans)

lemma channel_inv_filter:
  "channel_inv s c \<Longrightarrow> channel_inv s (c\<lparr>ch_messages := filter P (ch_messages c)\<rparr>)"
  by (auto simp: channel_inv_def sorted_wrt_map intro: sorted_wrt_filter)

lemma push_data_inv [wf_intros]:
  assumes inv: "send_queue_inv q" and nowrap: "ch_sequence (entry_or_default q (mc_sender c)) \<noteq> - 1"
  shows "send_queue_inv (push_data encode sign c pl to q)"
proof -
  let ?e = "entry_or_default q (mc_sender c)"
  have c: "channel_inv (mc_sender c) ?e" using inv by (simp add: send_queue_inv_def)
  have "channel_inv t (entry_or_default (push_data encode sign c pl to q) t)" for t
    using inv channel_inv_push [OF c nowrap] channel_inv_skip [OF c nowrap]
    by (auto simp: send_queue_inv_def push_data_def entry_simps prepare_with_data_def Let_def)
  with inv show ?thesis by (simp add: send_queue_inv_def push_data_def Let_def)
qed

lemma set_dummy_inv [wf_intros]: "send_queue_inv q \<Longrightarrow> send_queue_inv (set_dummy c b q)"
  by (auto simp: send_queue_inv_def set_dummy_def entry_simps channel_inv_def)

lemma purge_inv [wf_intros]: "send_queue_inv q \<Longrightarrow> send_queue_inv (purge nx q)"
  by (simp add: send_queue_inv_def entry_simps channel_inv_filter)

lemma load_state_inv [wf_intros]:
  "send_queue_inv q \<Longrightarrow> channel_inv s c \<Longrightarrow> send_queue_inv (load_state s c q)"
  by (simp add: send_queue_inv_def load_state_def)

lemma count_messages_all: "count_messages q = length (all_messages q)"
  by (induction q) (auto simp: count_messages_def all_messages_def)

end
