(* ===== verification/Mq_Delivery.thy ===== *)
theory Mq_Delivery
  imports Mq_Pallet Send_Queue
begin

text \<open>
  From a worker to the chain: the send queue of an enclave (\<^verbatim>\<open>Send_Queue\<close>) and the queue
  pallet (\<^verbatim>\<open>Mq_Pallet\<close>) as one system. Anybody may submit anything to the chain; the
  enclave drops messages from its queue by the ingress sequence it last read from the chain
  (\<^verbatim>\<open>RuntimeState::purge_mq\<close> in \<^verbatim>\<open>crates/phactory/src/lib.rs\<close>), which may be an old one.
\<close>

section \<open>The system\<close>

text \<open>
  Beside the two components the state keeps two histories: what the enclave put into its
  queue and what the chain accepted.
\<close>

record 'w delivery =
  queue :: send_queue
  chain :: "'w mq"
  sent :: "signed_message list"
  accepted :: "signed_message list"

definition content :: "signed_message \<Rightarrow> message \<times> u64" where
  "content m = (message m, sequence m)"

definition delivery_init :: "'w \<Rightarrow> 'w delivery" where
  "delivery_init w =
     \<lparr>queue = send_queue_new,
      chain = \<lparr>offchain_ingress = Map.empty, queued_outbound = None, outbound_messages = [], world = w\<rparr>,
      sent = [], accepted = []\<rparr>"

text \<open>
  \<open>mine\<close> are the senders whose key only this enclave holds: a message in the name of one of
  them passes the chain's checks only if the enclave signed it (\<open>unforged\<close>). The enclave
  sends for them outside dummy mode.
\<close>

definition unforged ::
    "sender_id set \<Rightarrow> ('acc, 'w) mq_config \<Rightarrow> ('acc, 'w) mq_call \<Rightarrow> 'w delivery \<Rightarrow> bool" where
  "unforged mine cfg call d \<longleftrightarrow>
     (\<forall>orig m. call = Sync orig m \<and> sync_checks cfg orig m (chain d) = Inr () \<and> sender (message m) \<in> mine \<longrightarrow>
        content m \<in> content ` set (sent d))"

definition purge_mq :: "(sender_id \<Rightarrow> u64) \<Rightarrow> 'w delivery \<Rightarrow> 'w delivery" where
  "purge_mq mq_sequence d = d\<lparr>queue := purge mq_sequence (queue d)\<rparr>"

definition enclave_push ::
    "encoder \<Rightarrow> ('sk \<Rightarrow> bytes \<Rightarrow> bytes) \<Rightarrow> 'sk message_channel \<Rightarrow> bytes \<Rightarrow> path \<Rightarrow> 'w delivery \<Rightarrow> 'w delivery" where
  "enclave_push encode sign c pl to d =
     d\<lparr>queue := push_data encode sign c pl to (queue d),
       sent := sent d @ [sign_message encode sign (prepare_with_data c pl to)
         (ch_sequence (entry_or_default (queue d) (mc_sender c)))]\<rparr>"

definition chain_call :: "('acc, 'w) mq_config \<Rightarrow> nat \<Rightarrow> ('acc, 'w) mq_call \<Rightarrow> 'w delivery \<Rightarrow> 'w delivery" where
  "chain_call cfg n call d =
     (case mq_exec cfg n call (chain d) of (c', acc) \<Rightarrow> d\<lparr>chain := c', accepted := accepted d @ acc\<rparr>)"

inductive delivery_reachable ::
    "sender_id set \<Rightarrow> ('acc, 'w) mq_config \<Rightarrow> nat \<Rightarrow> encoder \<Rightarrow> ('sk \<Rightarrow> bytes \<Rightarrow> bytes) \<Rightarrow> 'w delivery \<Rightarrow> bool"
  for mine cfg n encode sign where
  d_init: "delivery_reachable mine cfg n encode sign (delivery_init w)"
| d_push: "delivery_reachable mine cfg n encode sign d \<Longrightarrow>
     ch_sequence (entry_or_default (queue d) (mc_sender c)) \<noteq> - 1 \<Longrightarrow>
     delivery_reachable mine cfg n encode sign (enclave_push encode sign c pl to d)"
| d_purge: "delivery_reachable mine cfg n encode sign d \<Longrightarrow>
     \<forall>x\<in>mine. view x \<le> expected_seq (chain d) x \<Longrightarrow>
     delivery_reachable mine cfg n encode sign (purge_mq view d)"
| d_chain: "delivery_reachable mine cfg n encode sign d \<Longrightarrow> unforged mine cfg call d \<Longrightarrow>
     delivery_reachable mine cfg n encode sign (chain_call cfg n call d)"

section \<open>Invariant\<close>

text \<open>
  Per sender: the history of sent messages is numbered from 0 and the queue goes on with the
  next number; the accepted ones are a prefix of it, counted by the chain; and the queue
  still holds a suffix of it that starts no later than the first message not yet accepted.
\<close>

definition sender_inv :: "'w delivery \<Rightarrow> sender_id \<Rightarrow> bool" where
  "sender_inv d x \<longleftrightarrow>
     (let S = from_sender x (sent d); A = from_sender x (accepted d); e = entry_or_default (queue d) x in
      length S < 2 ^ 64 \<and> map sequence S = counting 0 (length S) \<and>
      ch_sequence e = of_nat (length S) \<and> \<not> ch_dummy e \<and>
      prefix (map content A) (map content S) \<and> expected_seq (chain d) x = of_nat (length A) \<and>
      (\<exists>j \<le> length A. ch_messages e = drop j S))"

lemma sender_invI:
  assumes "S = from_sender x (sent d)" "A = from_sender x (accepted d)" "e = entry_or_default (queue d) x"
    and "length S < 2 ^ 64" "map sequence S = counting 0 (length S)"
    and "ch_sequence e = of_nat (length S)" "\<not> ch_dummy e"
    and "prefix (map content A) (map content S)" "expected_seq (chain d) x = of_nat (length A)"
    and "j \<le> length A" "ch_messages e = drop j S"
  shows "sender_inv d x"
  using assms unfolding sender_inv_def Let_def by blast

lemma sender_invE:
  assumes "sender_inv d x"
  obtains S A e j where "S = from_sender x (sent d)" "A = from_sender x (accepted d)" "e = entry_or_default (queue d) x"
    and "length S < 2 ^ 64" "map sequence S = counting 0 (length S)"
    and "ch_sequence e = of_nat (length S)" "\<not> ch_dummy e"
    and "prefix (map content A) (map content S)" "expected_seq (chain d) x = of_nat (length A)"
    and "j \<le> length A" "ch_messages e = drop j S"
  using assms unfolding sender_inv_def Let_def by blast

lemma counting_snoc: "counting a (Suc k) = counting a k @ [a + of_nat k]"
proof (induction k arbitrary: a)
  case (Suc k)
  from Suc.IH [of "a + 1"] show ?case
    by (simp only: counting.simps append_Cons list.inject simp_thms) (simp add: algebra_simps)
qed simp

lemma prefix_map_length: "prefix (map f A) (map g S) \<Longrightarrow> length A \<le> length S"
  using prefix_length_le [of "map f A" "map g S"] by simp

lemma filter_suffix:
  "(\<And>i. i < length xs \<Longrightarrow> P (xs ! i) \<longleftrightarrow> k \<le> i) \<Longrightarrow> filter P xs = drop k xs"
proof (induction xs arbitrary: k)
  case (Cons x xs)
  have "P (xs ! i) \<longleftrightarrow> k - 1 \<le> i" if "i < length xs" for i
    using Cons.prems [of "Suc i"] that by auto
  then have "filter P xs = drop (k - 1) xs" by (rule Cons.IH)
  moreover have "P x \<longleftrightarrow> k = 0" using Cons.prems [of 0] by simp
  ultimately show ?case by (cases k) auto
qed simp

lemma sequence_nth:
  assumes "map sequence S = counting 0 (length S)" "i < length S"
  shows "sequence (S ! i) = of_nat i"
  using assms counting_nth [of i "length S" 0] nth_map [of i S sequence] by simp

lemma unat_small: "i < 2 ^ 64 \<Longrightarrow> unat (of_nat i :: u64) = i"
  by (simp add: unat_of_nat take_bit_nat_eq_self)

lemma filter_counted:
  assumes "map sequence S = counting 0 (length S)" "length S < 2 ^ 64"
  shows "filter (\<lambda>m. v \<le> sequence m) (drop j S) = drop (max j (unat v)) S"
proof -
  have "filter (\<lambda>m. v \<le> sequence m) (drop j S) = drop (unat v - j) (drop j S)"
  proof (rule filter_suffix)
    fix i assume i: "i < length (drop j S)"
    then have "sequence (drop j S ! i) = of_nat (j + i)" using assms(1) by (simp add: sequence_nth)
    moreover have "unat (of_nat (j + i) :: u64) = j + i" using i assms(2) by (intro unat_small) simp
    ultimately show "v \<le> sequence (drop j S ! i) \<longleftrightarrow> unat v - j \<le> i"
      by (simp add: word_le_nat_alt) linarith
  qed
  then show ?thesis by (simp add: max_def split: if_splits)
qed

lemma sender_inv_init: "sender_inv (delivery_init w) x"
  by (simp add: sender_inv_def delivery_init_def send_queue_new_def entry_or_default_def channel_default_def
      expected_seq_def)

lemma sender_inv_push:
  assumes inv: "sender_inv d x" and bt: "bt_inv (queue d)"
    and wrap: "ch_sequence (entry_or_default (queue d) (mc_sender c)) \<noteq> - 1"
  shows "sender_inv (enclave_push encode sign c pl to d) x"
  using inv
proof (cases rule: sender_invE)
  case (1 S A e j)
  show ?thesis
  proof (cases "mc_sender c = x")
    case False
    then show ?thesis using 1 bt
      by (intro sender_invI [of S _ _ A e j])
        (auto simp: enclave_push_def push_data_def entry_simps prepare_with_data_def Let_def)
  next
    case True
    let ?m = "sign_message encode sign (prepare_with_data c pl to) (ch_sequence e)"
    have "(of_nat (length S) :: u64) \<noteq> - 1" using wrap 1 True by auto
    then have "unat (of_nat (length S) :: u64) \<noteq> unat (- 1 :: u64)" by (simp add: word_unat_eq_iff)
    then have len: "Suc (length S) < 2 ^ 64" using 1 by (simp add: unat_small unsigned_minus_1_eq_mask mask_eq_exp_minus_1)
    have snd: "sender (message ?m) = x" using True by (simp add: prepare_with_data_def)
    have pre: "prefix (map content A) (map content (S @ [?m]))"
      using 1 by (auto simp: prefix_def)
    have "length A \<le> length S" using 1(8) by (rule prefix_map_length)
    then show ?thesis using 1 bt True len snd pre
      by (intro sender_invI [of "S @ [?m]" _ _ A "entry_or_default (queue (enclave_push encode sign c pl to d)) x" j])
        (auto simp: enclave_push_def push_data_def entry_simps prepare_with_data_def Let_def counting_snoc
            simp del: counting.simps(2))
  qed
qed

lemma sender_inv_purge:
  assumes inv: "sender_inv d x" and view: "view x \<le> expected_seq (chain d) x"
  shows "sender_inv (purge_mq view d) x"
  using inv
proof (cases rule: sender_invE)
  case (1 S A e j)
  have "length A \<le> length S" using 1(8) by (rule prefix_map_length)
  then have "unat (view x) \<le> length A"
    using view 1 unat_small [of "length A"] by (simp add: word_le_nat_alt)
  then show ?thesis using 1 filter_counted [of S "view x" j]
    by (intro sender_invI [of S _ _ A "entry_or_default (queue (purge_mq view d)) x" "max j (unat (view x))"])
      (auto simp: purge_mq_def entry_simps)
qed

lemma accepted_next:
  assumes S: "map sequence S = counting 0 (length S)" "length S < 2 ^ 64"
    and pre: "prefix (map content A) (map content S)"
    and m: "content m \<in> content ` set S" "sequence m = of_nat (length A)"
  shows "prefix (map content (A @ [m])) (map content S)"
proof -
  have le: "length A \<le> length S" using pre by (rule prefix_map_length)
  from m(1) obtain i where i: "i < length S" "content m = content (S ! i)" by (auto simp: in_set_conv_nth)
  then have "(of_nat i :: u64) = of_nat (length A)"
    using sequence_nth [OF S(1) i(1)] m(2) by (simp add: content_def)
  then have "unat (of_nat i :: u64) = unat (of_nat (length A) :: u64)" by (rule arg_cong)
  moreover have "i < 2 ^ 64" "length A < 2 ^ 64" using i(1) le S(2) by linarith+
  ultimately have il: "i = length A" by (simp only: unat_small)
  have "map content S ! length (map content A) = content m" "length (map content A) < length (map content S)"
    using i il by simp_all
  then have "prefix (map content A @ [content m]) (map content S)"
    using append_one_prefix [OF pre] by simp
  then show ?thesis by simp
qed

lemma sender_inv_chain:
  assumes cfg: "queue_notify cfg" and inv: "sender_inv d x" and x: "x \<in> mine"
    and unforged: "unforged mine cfg call d"
  shows "sender_inv (chain_call cfg n call d) x"
proof -
  obtain c' acc where ex: "mq_exec cfg n call (chain d) = (c', acc)" by fastforce
  have d': "chain_call cfg n call d = d\<lparr>chain := c', accepted := accepted d @ acc\<rparr>"
    by (simp add: chain_call_def ex)
  from queue_notify.mq_exec_ingress [OF cfg ex] show ?thesis
  proof (elim disjE exE conjE)
    assume "acc = []" "expected_seq c' = expected_seq (chain d)"
    then show ?thesis using inv by (simp add: sender_inv_def d')
  next
    fix orig m
    assume call: "call = Sync orig m" and acc: "acc = [m]" and ok: "sync_checks cfg orig m (chain d) = Inr ()"
      and e: "expected_seq c' = (expected_seq (chain d))(sender (message m) := sequence m + 1)"
    show ?thesis
    proof (cases "sender (message m) = x")
      case False
      then show ?thesis using inv e by (simp add: sender_inv_def d' acc)
    next
      case True
      from inv show ?thesis
      proof (cases rule: sender_invE)
        case (1 S A en j)
        have seq: "sequence m = of_nat (length A)"
          using ok True 1(9) by (simp add: sync_checks_def result_simps)
        have "content m \<in> content ` set (sent d)"
          using unforged call ok True x by (simp add: unforged_def)
        then have "content m \<in> content ` set S"
          using True 1(1) by (auto simp: from_sender_def content_def)
        from accepted_next [OF 1(5) 1(4) 1(8) this seq]
        have p: "prefix (map content (A @ [m])) (map content S)" .
        show ?thesis
          by (rule sender_invI [of S _ _ "A @ [m]" en j])
            (use 1 p True e seq in \<open>simp_all add: d' acc\<close>)
      qed
    qed
  qed
qed

lemma bt_inv_delivery:
  "delivery_reachable mine cfg n encode sign d \<Longrightarrow> bt_inv (queue d)"
  by (induction rule: delivery_reachable.induct)
    (simp_all add: delivery_init_def send_queue_new_def enclave_push_def push_data_def purge_mq_def chain_call_def
      Let_def split: prod.split)

lemma delivery_inv:
  assumes "delivery_reachable mine cfg n encode sign d" and "queue_notify cfg" and "x \<in> mine"
  shows "sender_inv d x"
  using assms(1)
proof induction
  case (d_init w)
  show ?case by (rule sender_inv_init)
next
  case (d_push d c pl to)
  then show ?case by (intro sender_inv_push bt_inv_delivery)
next
  case (d_purge d view)
  then show ?case using assms(3) by (simp add: sender_inv_purge)
next
  case (d_chain d call)
  then show ?case using sender_inv_chain [OF assms(2) _ assms(3)] by blast
qed

section \<open>Delivery\<close>

text \<open>
  C8: what the chain has accepted in the name of a sender whose key only the enclave holds
  is, message by message, a prefix of what the enclave sent for it: nothing is duplicated,
  reordered, skipped or invented, whoever relays the messages. Every message not yet
  accepted is still in the enclave's queue, in order, whatever purges happened, and the
  first of them carries exactly the sequence number the chain expects next.
\<close>

theorem delivery_exactly_once:
  assumes "delivery_reachable mine cfg n encode sign d" and "queue_notify cfg" and "x \<in> mine"
  shows "prefix (map content (from_sender x (accepted d))) (map content (from_sender x (sent d))) \<and>
    suffix (drop (length (from_sender x (accepted d))) (from_sender x (sent d))) (messages x (queue d)) \<and>
    (length (from_sender x (accepted d)) < length (from_sender x (sent d)) \<longrightarrow>
       sequence (from_sender x (sent d) ! length (from_sender x (accepted d))) = expected_seq (chain d) x)"
  using delivery_inv [OF assms]
proof (cases rule: sender_invE)
  case (1 S A e j)
  have "suffix (drop (length A - j) (drop j S)) (drop j S)" by (rule suffix_drop)
  then have "suffix (drop (length A) S) (messages x (queue d))"
    using 1(3,10,11) by (simp add: messages_entry)
  moreover have "length A < length S \<longrightarrow> sequence (S ! length A) = expected_seq (chain d) x"
    using 1(5,9) by (simp add: sequence_nth)
  ultimately show ?thesis using 1(1,2,8) by simp
qed

text \<open>One message pushed by a worker and accepted by the chain, for the example.\<close>

definition example_sign :: "unit \<Rightarrow> bytes \<Rightarrow> bytes" where
  "example_sign _ _ = replicate 64 0"

definition example_channel :: "unit message_channel" where
  "example_channel = \<lparr>mc_sender = Worker [1], mc_signer = ()\<rparr>"

definition example_pushed :: "nat registry delivery" where
  "example_pushed = enclave_push example_encode example_sign example_channel [7] [116]
     (delivery_init registry_empty)"

definition example_delivered :: "nat registry delivery" where
  "example_delivered = chain_call example_config 1
     (Sync (Signed 0) (hd (sent example_pushed))) example_pushed"

lemma example_delivered_reachable:
  "delivery_reachable {Worker [1]} example_config 1 example_encode example_sign example_delivered"
proof -
  have "delivery_reachable {Worker [1]} example_config 1 example_encode example_sign example_pushed"
    unfolding example_pushed_def
    by (rule d_push [OF d_init])
      (simp add: delivery_init_def send_queue_new_def entry_or_default_def channel_default_def)
  then show ?thesis
    unfolding example_delivered_def
    by (rule d_chain) (simp add: unforged_def example_pushed_def enclave_push_def delivery_init_def)
qed

lemma example_delivered_accepted: "accepted example_delivered = sent example_delivered"
  by (simp add: example_delivered_def chain_call_def example_pushed_def enclave_push_def delivery_init_def
      send_queue_new_def entry_or_default_def channel_default_def sync_offchain_message_def sync_checks_def
      prepare_with_data_def example_channel_def sign_message_def example_sign_def expected_seq_def check_signed_def
      check_message_def sender_pubkey_def verify_signature_def example_config_def default_config_def
      example_mq_env_def Let_def ensure_def topic_is_valid_def RESERVED_BYTES_def notify_default_def)

theorem delivery_exactly_once_witness:
  "prefix (map content (from_sender (Worker [1]) (accepted example_delivered)))
     (map content (from_sender (Worker [1]) (sent example_delivered))) \<and>
   accepted example_delivered = sent example_delivered \<and> length (sent example_delivered) = 1"
proof -
  have "queue_notify example_config" unfolding example_config_def by (rule dflt.queue_notify_axioms)
  from delivery_exactly_once [OF example_delivered_reachable this, of "Worker [1]"]
  show ?thesis
    by (simp add: example_delivered_accepted)
      (simp add: example_delivered_def chain_call_def example_pushed_def enclave_push_def delivery_init_def
        split: prod.split)
qed

end
