(* ===== verification/Fixed_Point.thy ===== *)
theory Fixed_Point
  imports Messaging
begin

text \<open>
  Balances and fixed point numbers, \<^verbatim>\<open>pallets/cyrux/src/utils/balance_convert.rs\<close>. The
  numbers and their arithmetic come from the crate \<^verbatim>\<open>fixed\<close> and are parameters: a
  \<open>U64F64\<close> and a \<open>U80F48\<close> are their 128 bits, a \<open>U32F32\<close> its 64 bits. The operations
  named \<open>unwrapped\<close> in the source panic on overflow (\<open>None\<close>).
\<close>

type_synonym balance = u128

record fixed_ops =
  fx_from_u32 :: "u32 \<Rightarrow> u64f64_bits"
  fx_decimal :: "nat \<Rightarrow> nat \<Rightarrow> u64f64_bits"
  fx_add :: "u64f64_bits \<Rightarrow> u64f64_bits \<Rightarrow> u64f64_bits"
  fx_sub :: "u64f64_bits \<Rightarrow> u64f64_bits \<Rightarrow> u64f64_bits"
  fx_mul :: "u64f64_bits \<Rightarrow> u64f64_bits \<Rightarrow> u64f64_bits"
  fx_div :: "u64f64_bits \<Rightarrow> u64f64_bits \<Rightarrow> u64f64_bits"
  fx_checked_div :: "u64f64_bits \<Rightarrow> u64f64_bits \<Rightarrow> u64f64_bits option"
  fx_sqrt :: "u64f64_bits \<Rightarrow> u64f64_bits"
  u80f48_from_u64f64 :: "u64f64_bits \<Rightarrow> u128 option"
  u80f48_from_u128 :: "u128 \<Rightarrow> u128 option"
  u80f48_mul_int :: "u128 \<Rightarrow> u128 \<Rightarrow> u128 option"
  u80f48_div_int :: "u128 \<Rightarrow> u128 \<Rightarrow> u128 option"
  u80f48_to_u128 :: "u128 \<Rightarrow> u128"
  u64f64_from_u80f48 :: "u128 \<Rightarrow> u64f64_bits option"
  u32f32_from_u32 :: "u32 \<Rightarrow> u64"
  u32f32_mul :: "u64 \<Rightarrow> u64 \<Rightarrow> u64"
  u32f32_div :: "u64 \<Rightarrow> u64 \<Rightarrow> u64"
  u32f32_checked_shl :: "u64 \<Rightarrow> nat \<Rightarrow> u64 option"
  u32f32_to_u32 :: "u64 \<Rightarrow> u32"

text \<open>\<open>fx_decimal n d\<close> is the literal \<open>n\<close> with \<open>d\<close> decimal places, as in \<open>fp!(0.8)\<close>.\<close>

definition PHA :: u128 where
  "PHA = 1000000000000"

definition from_fixed :: "fixed_ops \<Rightarrow> u64f64_bits \<Rightarrow> balance option" where
  "from_fixed fx v =
     (case u80f48_from_u64f64 fx v of
        None \<Rightarrow> None
      | Some x \<Rightarrow> map_option (u80f48_to_u128 fx) (u80f48_mul_int fx x PHA))"

definition to_fixed :: "fixed_ops \<Rightarrow> balance \<Rightarrow> u64f64_bits option" where
  "to_fixed fx b =
     (case u80f48_from_u128 fx b of
        None \<Rightarrow> None
      | Some v \<Rightarrow>
          (case u80f48_div_int fx v PHA of None \<Rightarrow> None | Some q \<Rightarrow> u64f64_from_u80f48 fx q))"

definition bmul :: "fixed_ops \<Rightarrow> balance \<Rightarrow> u64f64_bits \<Rightarrow> balance option" where
  "bmul fx x y = (case to_fixed fx x of None \<Rightarrow> None | Some f \<Rightarrow> from_fixed fx (fx_mul fx f y))"

definition bdiv :: "fixed_ops \<Rightarrow> balance \<Rightarrow> u64f64_bits \<Rightarrow> balance option" where
  "bdiv fx x y = (case to_fixed fx x of None \<Rightarrow> None | Some f \<Rightarrow> from_fixed fx (fx_div fx f y))"

end
