(* ===== verification/Computation.thy ===== *)
theory Computation
  imports Registry Fixed_Point
begin

text \<open>
  The computation pallet, \<^verbatim>\<open>pallets/cyrux/src/compute/computation.rs\<close>: the life cycle of a
  computing session from binding a worker to reclaiming the stake, the heartbeats and the
  settlements of the gatekeeper, and the tokenomic parameters. The pallet tells its
  configured listeners about rewards, stops and unbindings; the state logs these calls in
  order (\<open>notified\<close>), as it logs messages and events. Weights and the assertions of debug
  builds are left out.
\<close>

section \<open>Sessions\<close>

datatype worker_state = Ready | WorkerIdle | Unused | WorkerUnresponsive | WorkerCoolingDown

fun can_unbind :: "worker_state \<Rightarrow> bool" where
  "can_unbind Ready = True"
| "can_unbind WorkerCoolingDown = True"
| "can_unbind _ = False"

fun is_computing :: "worker_state \<Rightarrow> bool" where
  "is_computing WorkerIdle = True"
| "is_computing WorkerUnresponsive = True"
| "is_computing _ = False"

record benchmark =
  p_init :: u32
  p_instant :: u32
  iterations :: u64
  working_start_time :: u64
  challenge_time_last :: u64

definition benchmark_update :: "u64 \<Rightarrow> u64 \<Rightarrow> u64 \<Rightarrow> benchmark \<Rightarrow> unit + benchmark" where
  "benchmark_update now its challenge_time b =
     (if now \<le> challenge_time_last b then Inl ()
      else
        let its0 = (if its < iterations b then its else iterations b);
            delta_ts = now - challenge_time_last b;
            delta_iter = its - its0;
            p = ucast (delta_iter * 6 div delta_ts) :: u32
        in Inr (b\<lparr>challenge_time_last := challenge_time, iterations := its,
                  p_instant := min p (p_init b * 12 div 10)\<rparr>))"

record session_info =
  ss_state :: worker_state
  ss_ve :: u64f64_bits
  ss_v :: u64f64_bits
  ss_v_updated_at :: u64
  ss_benchmark :: benchmark
  ss_cool_down_start :: u64
  ss_total_reward :: u128

definition calc_final_stake :: "session_info \<Rightarrow> balance \<Rightarrow> balance \<times> balance" where
  "calc_final_stake i orig_stake = (orig_stake, 0)"

definition stats_on_reward :: "fixed_ops \<Rightarrow> u64f64_bits \<Rightarrow> session_info \<Rightarrow> session_info option" where
  "stats_on_reward fx payout_bits i =
     (case from_fixed fx payout_bits of
        None \<Rightarrow> None
      | Some payout \<Rightarrow> Some (i\<lparr>ss_total_reward := ss_total_reward i + payout\<rparr>))"

section \<open>State\<close>

datatype 'acc comp_event =
    CoolDownExpirationChanged u64
  | WorkerStarted 'acc u64f64_bits u32
  | WorkerStopped 'acc
  | WorkerReclaimed 'acc balance balance
  | SessionBound 'acc worker_public_key
  | SessionUnbound 'acc worker_public_key
  | WorkerEnterUnresponsive 'acc
  | WorkerExitUnresponsive 'acc
  | SessionSettled 'acc u64f64_bits u64f64_bits
  | InternalErrorWorkerSettleFailed worker_public_key
  | TokenomicParametersChangedEvent
  | SessionSettlementDropped 'acc u64f64_bits u64f64_bits
  | BenchmarkUpdated 'acc u32
  | BudgetUpdated u64 u128

datatype comp_message =
    CompSystemEvent system_event
  | CompGatekeeperEvent gatekeeper_event

text \<open>The calls of \<open>OnReward\<close>, \<open>OnUnbound\<close>, \<open>OnStopped\<close> and \<open>OnTreasurySettled\<close>.\<close>

datatype comp_notification =
    OnReward "settle_info list"
  | OnUnbound worker_public_key bool
  | OnStopped worker_public_key balance balance
  | OnTreasurySettled balance

record ('acc, 'bank) computation =
  tokenomic_params :: "tokenomic_parameters option"
  scheduled_tokenomic_update :: "tokenomic_parameters option"
  online_workers :: u32
  expected_heartbeat_count :: "u32 option"
  heartbeat_paused :: bool
  max_budget_limit :: u128
  budget_update_nonce :: u64
  last_budget_update_block :: nat
  contract_account :: bytes
  sessions :: "'acc \<rightharpoonup> session_info"
  session_bindings :: "'acc \<rightharpoonup> worker_public_key"
  worker_bindings :: "worker_public_key \<rightharpoonup> 'acc"
  cool_down_period :: u64
  next_session_id :: u32
  stakes :: "'acc \<rightharpoonup> balance"
  bank :: 'bank
  comp_pushed :: "comp_message list"
  comp_events :: "'acc comp_event list"
  notified :: "comp_notification list"

datatype comp_error =
    CeBadSender | CeWorkerNotRegistered | CeDuplicateBoundSession | CeBenchmarkMissing
  | CeSessionNotFound | CeSessionNotBound | CeWorkerNotReady | CeWorkerNotComputing
  | CeWorkerNotBound | CeCoolDownNotReady | CeInsufficientStake | CeTooMuchStake
  | CeInternalErrorBadTokenomicParameters | CeDuplicateBoundWorker | CeBenchmarkTooLow
  | CeInternalErrorCannotStartWithExistingStake | CeNonceIndexInvalid
  | CeBudgetUpdateBlockInvalid | CeBudgetExceedMaxLimit | CeWorkerReregisterNeeded
  | CeCurrency

type_synonym 'a comp_call = "(comp_error dispatch_error, 'a) call"

text \<open>
  The block a call runs in and the configuration: time, the registry pallet, the origins the
  runtime configures, the randomness and the currency (\<open>currency_withdraw\<close> and
  \<open>currency_transfer\<close> fail with \<open>None\<close>).
\<close>

record ('acc, 'bank) comp_env =
  comp_now_sec :: u64
  comp_registry :: "'acc registry"
  expected_block_time_sec :: u32
  min_init_p :: u32
  check_worker_register_time :: bool
  update_tokenomic_origin :: "'acc raw_origin \<Rightarrow> bool"
  set_budget_origins :: "'acc raw_origin \<Rightarrow> bool"
  set_contract_root_origins :: "'acc raw_origin \<Rightarrow> bool"
  comp_governance_origin :: "'acc raw_origin \<Rightarrow> bool"
  random_seed :: "256 word"
  fx_ops :: fixed_ops
  computing_account :: 'acc
  currency_withdraw :: "'acc \<Rightarrow> balance \<Rightarrow> 'bank \<Rightarrow> 'bank option"
  currency_transfer :: "'acc \<Rightarrow> 'acc \<Rightarrow> balance \<Rightarrow> 'bank \<Rightarrow> 'bank option"

definition comp_push :: "comp_message \<Rightarrow> ('acc, 'bank) computation \<Rightarrow> ('acc, 'bank) computation" where
  "comp_push m s = s\<lparr>comp_pushed := comp_pushed s @ [m]\<rparr>"

definition comp_deposit :: "'acc comp_event \<Rightarrow> ('acc, 'bank) computation \<Rightarrow> ('acc, 'bank) computation" where
  "comp_deposit e s = s\<lparr>comp_events := comp_events s @ [e]\<rparr>"

definition comp_notify :: "comp_notification \<Rightarrow> ('acc, 'bank) computation \<Rightarrow> ('acc, 'bank) computation" where
  "comp_notify x s = s\<lparr>notified := notified s @ [x]\<rparr>"

definition set_session :: "'acc \<Rightarrow> session_info \<Rightarrow> ('acc, 'bank) computation \<Rightarrow> ('acc, 'bank) computation" where
  "set_session a i s = s\<lparr>sessions := (sessions s)(a \<mapsto> i)\<rparr>"

section \<open>Tokenomic\<close>

definition rig_cost :: "fixed_ops \<Rightarrow> tokenomic_parameters \<Rightarrow> u32 \<Rightarrow> u64f64_bits" where
  "rig_cost fx t p = fx_add fx (fx_mul fx (tp_rig_k t) (fx_from_u32 fx p)) (tp_rig_b t)"

definition confidence_score :: "fixed_ops \<Rightarrow> u8 \<Rightarrow> u64f64_bits" where
  "confidence_score fx level =
     (let scores = [fx_decimal fx 1 0, fx_decimal fx 1 0, fx_decimal fx 1 0, fx_decimal fx 8 1, fx_decimal fx 7 1] in
      if 1 \<le> level \<and> level \<le> 5 then scores ! (unat level - 1) else scores ! 0)"

definition minimal_stake :: "fixed_ops \<Rightarrow> tokenomic_parameters \<Rightarrow> u32 \<Rightarrow> balance option" where
  "minimal_stake fx t p = from_fixed fx (fx_mul fx (tp_k t) (fx_sqrt fx (fx_from_u32 fx p)))"

definition tokenomic_ve :: "fixed_ops \<Rightarrow> tokenomic_parameters \<Rightarrow> balance \<Rightarrow> u32 \<Rightarrow> u8 \<Rightarrow> u64f64_bits option" where
  "tokenomic_ve fx t stake p level =
     (let f1 = fx_from_u32 fx 1;
          tweaked_re = fx_add fx (fx_mul fx (fx_sub fx (tp_re t) f1) (confidence_score fx level)) f1
      in map_option (\<lambda>s. fx_mul fx tweaked_re (fx_add fx s (rig_cost fx t p))) (to_fixed fx stake))"

definition get_tokenomic :: "('acc, 'bank) computation \<Rightarrow> tokenomic_parameters comp_call" where
  "get_tokenomic s = Some (ok_or (tokenomic_params s) (Module CeInternalErrorBadTokenomicParameters))"

definition update_tokenomic_parameters ::
    "tokenomic_parameters \<Rightarrow> ('acc, 'bank) computation \<Rightarrow> ('acc, 'bank) computation" where
  "update_tokenomic_parameters params s =
     comp_deposit TokenomicParametersChangedEvent
       (comp_push (CompGatekeeperEvent (TokenomicParametersChanged params))
         (s\<lparr>tokenomic_params := Some params\<rparr>))"

section \<open>Session life cycle\<close>

definition ensure_worker_bound :: "worker_public_key \<Rightarrow> ('acc, 'bank) computation \<Rightarrow> comp_error dispatch_error + 'acc" where
  "ensure_worker_bound pk s = ok_or (worker_bindings s pk) (Module CeWorkerNotBound)"

definition ensure_session_bound ::
    "'acc \<Rightarrow> ('acc, 'bank) computation \<Rightarrow> comp_error dispatch_error + worker_public_key" where
  "ensure_session_bound a s = ok_or (session_bindings s a) (Module CeSessionNotBound)"

definition can_reclaim :: "('acc, 'bank) comp_env \<Rightarrow> session_info \<Rightarrow> bool \<Rightarrow> ('acc, 'bank) computation \<Rightarrow> bool" where
  "can_reclaim env i check_cooldown s =
     (if ss_state i \<noteq> WorkerCoolingDown then False
      else if \<not> check_cooldown then True
      else comp_now_sec env - ss_cool_down_start i \<ge> cool_down_period s)"

definition reclaim ::
    "('acc, 'bank) comp_env \<Rightarrow> 'acc \<Rightarrow> bool \<Rightarrow> ('acc, 'bank) computation \<Rightarrow>
     comp_error dispatch_error + ('acc, 'bank) computation \<times> balance \<times> balance" where
  "reclaim env a check_cooldown s =
     bind_result (ok_or (sessions s a) (Module CeSessionNotFound)) (\<lambda>i.
     bind_result (ensure (can_reclaim env i check_cooldown s) (Module CeCoolDownNotReady)) (\<lambda>_.
     let i' = i\<lparr>ss_state := Ready, ss_cool_down_start := 0\<rparr>;
         s1 = set_session a i' s;
         orig_stake = (case stakes s1 a of None \<Rightarrow> 0 | Some x \<Rightarrow> x);
         s2 = s1\<lparr>stakes := (stakes s1)(a := None)\<rparr>;
         slashed = snd (calc_final_stake i' orig_stake)
     in Inr (comp_deposit (WorkerReclaimed a orig_stake slashed) s2, orig_stake, slashed)))"

definition new_session :: "u64 \<Rightarrow> session_info" where
  "new_session now =
     \<lparr>ss_state = Ready, ss_ve = 0, ss_v = 0, ss_v_updated_at = now,
      ss_benchmark = \<lparr>p_init = 0, p_instant = 0, iterations = 0, working_start_time = now,
                      challenge_time_last = 0\<rparr>,
      ss_cool_down_start = 0, ss_total_reward = 0\<rparr>"

definition bind ::
    "('acc, 'bank) comp_env \<Rightarrow> 'acc \<Rightarrow> worker_public_key \<Rightarrow> ('acc, 'bank) computation \<Rightarrow>
     comp_error dispatch_error + ('acc, 'bank) computation" where
  "bind env a pk s =
     bind_result (ok_or (workers (comp_registry env) pk) (Module CeWorkerNotRegistered)) (\<lambda>worker.
     bind_result (ensure (check_worker_register_time env \<longrightarrow>
                    is_worker_registered_after_gk_launched (comp_registry env) pk)
                    (Module CeWorkerReregisterNeeded)) (\<lambda>_.
     bind_result (ensure (initial_score worker \<noteq> None) (Module CeBenchmarkMissing)) (\<lambda>_.
     bind_result (ensure (session_bindings s a = None) (Module CeDuplicateBoundSession)) (\<lambda>_.
     bind_result (ensure (worker_bindings s pk = None) (Module CeDuplicateBoundWorker)) (\<lambda>_.
     bind_result (ensure (case sessions s a of Some i \<Rightarrow> ss_state i = Ready | None \<Rightarrow> True)
                    (Module CeWorkerNotReady)) (\<lambda>_.
     let now = comp_now_sec env;
         s1 = s\<lparr>session_bindings := (session_bindings s)(a \<mapsto> pk),
                worker_bindings := (worker_bindings s)(pk \<mapsto> a)\<rparr>;
         s2 = set_session a (new_session now) s1
     in Inr (comp_deposit (SessionBound a pk) s2)))))))"

definition stop_computing ::
    "('acc, 'bank) comp_env \<Rightarrow> 'acc \<Rightarrow> ('acc, 'bank) computation \<Rightarrow>
     comp_error dispatch_error + ('acc, 'bank) computation" where
  "stop_computing env a s =
     bind_result (ok_or (session_bindings s a) (Module CeSessionNotBound)) (\<lambda>worker.
     bind_result (ok_or (sessions s a) (Module CeSessionNotFound)) (\<lambda>i.
     bind_result (ensure (ss_state i \<noteq> Ready \<and> ss_state i \<noteq> WorkerCoolingDown) (Module CeWorkerNotComputing)) (\<lambda>_.
     let i' = i\<lparr>ss_state := WorkerCoolingDown, ss_cool_down_start := comp_now_sec env\<rparr>;
         s1 = set_session a i' s;
         s2 = s1\<lparr>online_workers := online_workers s1 - 1\<rparr>;
         orig_stake = (case stakes s2 a of None \<Rightarrow> 0 | Some x \<Rightarrow> x);
         slashed = snd (calc_final_stake i' orig_stake);
         s3 = comp_notify (OnStopped worker orig_stake slashed) s2;
         s4 = comp_push (CompSystemEvent (new_worker_event worker Stopped)) s3
     in Inr (comp_deposit (WorkerStopped a) s4))))"

definition unbind_session ::
    "('acc, 'bank) comp_env \<Rightarrow> 'acc \<Rightarrow> bool \<Rightarrow> ('acc, 'bank) computation \<Rightarrow> ('acc, 'bank) computation comp_call" where
  "unbind_session env a notify s =
     bind_call (Some (ensure_session_bound a s)) (\<lambda>worker.
     bind_call (expect_call (sessions s a)) (\<lambda>i.
     let force = \<not> can_unbind (ss_state i) in
     bind_call (if force then Some (stop_computing env a s) else ok_call s) (\<lambda>s1.
     let s2 = s1\<lparr>session_bindings := (session_bindings s1)(a := None),
                 worker_bindings := (worker_bindings s1)(worker := None)\<rparr>;
         s3 = comp_deposit (SessionUnbound a worker) s2
     in ok_call (if notify then comp_notify (OnUnbound worker force) s3 else s3))))"

definition start_computing ::
    "('acc, 'bank) comp_env \<Rightarrow> 'acc \<Rightarrow> balance \<Rightarrow> ('acc, 'bank) computation \<Rightarrow> ('acc, 'bank) computation comp_call" where
  "start_computing env a stake s =
     bind_call (Some (ok_or (session_bindings s a) (Module CeSessionNotFound))) (\<lambda>worker.
     bind_call (expect_call (sessions s a)) (\<lambda>i.
     bind_call (Some (ensure (ss_state i = Ready) (Module CeWorkerNotReady))) (\<lambda>_.
     bind_call (Some (ensure (stakes s a = None) (Module CeInternalErrorCannotStartWithExistingStake))) (\<lambda>_.
     bind_call (expect_call (workers (comp_registry env) worker)) (\<lambda>winfo.
     bind_call (Some (ok_or (initial_score winfo) (Module CeBenchmarkMissing))) (\<lambda>p.
     bind_call (Some (ensure (p \<ge> min_init_p env) (Module CeBenchmarkTooLow))) (\<lambda>_.
     bind_call (get_tokenomic s) (\<lambda>tokenomic.
     bind_call (expect_call (minimal_stake (fx_ops env) tokenomic p)) (\<lambda>min_stake.
     bind_call (Some (ensure (stake \<ge> min_stake) (Module CeInsufficientStake))) (\<lambda>_.
     bind_call (expect_call (tokenomic_ve (fx_ops env) tokenomic stake p (confidence_level winfo))) (\<lambda>ve.
     bind_call (Some (ensure (ve \<le> tp_v_max tokenomic) (Module CeTooMuchStake))) (\<lambda>_.
     let i' = i\<lparr>ss_state := WorkerIdle, ss_ve := ve, ss_v := ve, ss_v_updated_at := comp_now_sec env,
                ss_benchmark := (ss_benchmark i)\<lparr>p_init := p\<rparr>\<rparr>;
         s1 = set_session a i' (s\<lparr>stakes := (stakes s)(a \<mapsto> stake)\<rparr>);
         s2 = s1\<lparr>online_workers := online_workers s1 + 1\<rparr>;
         session_id = next_session_id s2;
         s3 = s2\<lparr>next_session_id := session_id + 1\<rparr>;
         s4 = comp_push (CompSystemEvent (new_worker_event worker (Started session_id ve p))) s3
     in ok_call (comp_deposit (WorkerStarted a ve p) s4)))))))))))))"

section \<open>Extrinsics\<close>

definition set_cool_down_expiration ::
    "'acc raw_origin \<Rightarrow> u64 \<Rightarrow> ('acc, 'bank) computation \<Rightarrow> comp_error dispatch_error + ('acc, 'bank) computation" where
  "set_cool_down_expiration orig period s =
     bind_result (ensure_root orig) (\<lambda>_.
     Inr (comp_deposit (CoolDownExpirationChanged period) (s\<lparr>cool_down_period := period\<rparr>)))"

definition unbind ::
    "('acc, 'bank) comp_env \<Rightarrow> 'acc raw_origin \<Rightarrow> 'acc \<Rightarrow> ('acc, 'bank) computation \<Rightarrow>
     ('acc, 'bank) computation comp_call" where
  "unbind env orig a s =
     bind_call (Some (ensure_signed orig)) (\<lambda>who.
     bind_call (Some (ensure_session_bound a s)) (\<lambda>pk.
     bind_call (Some (ok_or (workers (comp_registry env) pk) (Module CeWorkerNotRegistered))) (\<lambda>worker.
     bind_call (Some (ensure (operator worker = Some who) (Module CeBadSender))) (\<lambda>_.
     unbind_session env a True s))))"

definition force_heartbeat ::
    "'acc raw_origin \<Rightarrow> ('acc, 'bank) computation \<Rightarrow> comp_error dispatch_error + ('acc, 'bank) computation" where
  "force_heartbeat orig s =
     bind_result (ensure_root orig) (\<lambda>_.
     Inr (comp_push (CompSystemEvent (HeartbeatChallenge \<lparr>hc_seed = 0, hc_online_target = - 1\<rparr>)) s))"

definition force_start_computing ::
    "('acc, 'bank) comp_env \<Rightarrow> 'acc raw_origin \<Rightarrow> 'acc \<Rightarrow> balance \<Rightarrow> ('acc, 'bank) computation \<Rightarrow>
     ('acc, 'bank) computation comp_call" where
  "force_start_computing env orig a stake s =
     bind_call (Some (ensure_root orig)) (\<lambda>_. start_computing env a stake s)"

definition force_stop_computing ::
    "('acc, 'bank) comp_env \<Rightarrow> 'acc raw_origin \<Rightarrow> 'acc \<Rightarrow> ('acc, 'bank) computation \<Rightarrow>
     comp_error dispatch_error + ('acc, 'bank) computation" where
  "force_stop_computing env orig a s = bind_result (ensure_root orig) (\<lambda>_. stop_computing env a s)"

definition update_tokenomic ::
    "('acc, 'bank) comp_env \<Rightarrow> 'acc raw_origin \<Rightarrow> tokenomic_parameters \<Rightarrow> ('acc, 'bank) computation \<Rightarrow>
     comp_error dispatch_error + ('acc, 'bank) computation" where
  "update_tokenomic env orig params s =
     bind_result (ensure (update_tokenomic_origin env orig) BadOriginErr) (\<lambda>_.
     Inr (s\<lparr>scheduled_tokenomic_update := Some params\<rparr>))"

definition set_heartbeat_paused ::
    "('acc, 'bank) comp_env \<Rightarrow> 'acc raw_origin \<Rightarrow> bool \<Rightarrow> ('acc, 'bank) computation \<Rightarrow>
     comp_error dispatch_error + ('acc, 'bank) computation" where
  "set_heartbeat_paused env orig paused s =
     bind_result (ensure (comp_governance_origin env orig) BadOriginErr) (\<lambda>_. Inr (s\<lparr>heartbeat_paused := paused\<rparr>))"

definition BUDGET_SAFE_MULTIPLIER :: u128 where
  "BUDGET_SAFE_MULTIPLIER = 2"

definition set_budget_per_block ::
    "('acc, 'bank) comp_env \<Rightarrow> 'acc raw_origin \<Rightarrow> u64 \<Rightarrow> nat \<Rightarrow> u128 \<Rightarrow> ('acc, 'bank) computation \<Rightarrow>
     comp_error dispatch_error + ('acc, 'bank) computation" where
  "set_budget_per_block env orig nonce block budget s =
     bind_result (ensure (set_budget_origins env orig) BadOriginErr) (\<lambda>_.
     bind_result (ensure (nonce > budget_update_nonce s) (Module CeNonceIndexInvalid)) (\<lambda>_.
     bind_result (ensure (block > last_budget_update_block s) (Module CeBudgetUpdateBlockInvalid)) (\<lambda>_.
     bind_result (ensure (budget \<le> max_budget_limit s * BUDGET_SAFE_MULTIPLIER) (Module CeBudgetExceedMaxLimit)) (\<lambda>_.
     bind_result (ok_or (tokenomic_params s) (Module CeInternalErrorBadTokenomicParameters)) (\<lambda>tokenomic.
     let s1 = s\<lparr>budget_update_nonce := nonce, last_budget_update_block := block\<rparr>;
         s2 = update_tokenomic_parameters (tokenomic\<lparr>tp_budget_per_block := budget\<rparr>) s1
     in Inr (comp_deposit (BudgetUpdated nonce budget) s2))))))"

definition update_contract_root ::
    "('acc, 'bank) comp_env \<Rightarrow> 'acc raw_origin \<Rightarrow> bytes \<Rightarrow> ('acc, 'bank) computation \<Rightarrow>
     comp_error dispatch_error + ('acc, 'bank) computation" where
  "update_contract_root env orig account s =
     bind_result (ensure (set_contract_root_origins env orig) BadOriginErr) (\<lambda>_. Inr (s\<lparr>contract_account := account\<rparr>))"

section \<open>Blocks\<close>

text \<open>
  The share of the hash space that answers a challenge. \<open>None\<close> is a panic: a block time of
  zero seconds, or an overflowing shift.
\<close>

definition pow_target :: "fixed_ops \<Rightarrow> u32 \<Rightarrow> u32 \<Rightarrow> u32 \<Rightarrow> 256 word option" where
  "pow_target fx num_tx num_workers secs_per_block =
     (if num_workers = 0 then Some 0
      else if secs_per_block = 0 then None
      else
        let n = u32f32_from_u32 fx num_workers;
            tx = u32f32_from_u32 fx num_tx;
            max_tx = u32f32_div fx (u32f32_mul fx n (u32f32_from_u32 fx 2)) (u32f32_from_u32 fx (3600 div secs_per_block));
            target_tx = min tx max_tx
        in map_option (\<lambda>frac. drop_bit 24 (- 1) * ucast (u32f32_to_u32 fx frac))
             (u32f32_checked_shl fx (u32f32_div fx target_tx n) 24))"

definition DEFAULT_EXPECTED_HEARTBEAT_COUNT :: u32 where
  "DEFAULT_EXPECTED_HEARTBEAT_COUNT = 20"

definition heartbeat_challenge_hook ::
    "('acc, 'bank) comp_env \<Rightarrow> ('acc, 'bank) computation \<Rightarrow> ('acc, 'bank) computation option" where
  "heartbeat_challenge_hook env s =
     (if heartbeat_paused s then Some s
      else
        let num_tx = (case expected_heartbeat_count s of None \<Rightarrow> DEFAULT_EXPECTED_HEARTBEAT_COUNT | Some n \<Rightarrow> n)
        in map_option (\<lambda>target.
             comp_push (CompSystemEvent (HeartbeatChallenge \<lparr>hc_seed = random_seed env, hc_online_target = target\<rparr>)) s)
             (pow_target (fx_ops env) num_tx (online_workers s) (expected_block_time_sec env)))"

definition on_finalize ::
    "('acc, 'bank) comp_env \<Rightarrow> ('acc, 'bank) computation \<Rightarrow> ('acc, 'bank) computation option" where
  "on_finalize env s =
     (case heartbeat_challenge_hook env s of
        None \<Rightarrow> None
      | Some s1 \<Rightarrow>
          (case scheduled_tokenomic_update s1 of
             None \<Rightarrow> Some s1
           | Some t \<Rightarrow> Some (update_tokenomic_parameters t (s1\<lparr>scheduled_tokenomic_update := None\<rparr>))))"

section \<open>Message handlers\<close>

definition heartbeat ::
    "('acc, 'bank) comp_env \<Rightarrow> worker_public_key \<Rightarrow> u64 \<Rightarrow> u64 \<Rightarrow> ('acc, 'bank) computation \<Rightarrow>
     (('acc, 'bank) computation \<times> (comp_error dispatch_error + unit)) option" where
  "heartbeat env worker challenge_time its s =
     (case ensure_worker_bound worker s of
        Inl e \<Rightarrow> Some (s, Inl e)
      | Inr a \<Rightarrow>
          (case (sessions s a, workers (comp_registry env) worker) of
             (Some i, Some _) \<Rightarrow>
               (case benchmark_update (comp_now_sec env) its (challenge_time div 1000) (ss_benchmark i) of
                  Inl _ \<Rightarrow> None
                | Inr b \<Rightarrow>
                    Some (set_session a (i\<lparr>ss_benchmark := b\<rparr>)
                      (comp_deposit (BenchmarkUpdated a (p_instant b)) s), Inr ()))
           | _ \<Rightarrow> None))"

definition on_working_message_received ::
    "('acc, 'bank) comp_env \<Rightarrow> working_report_event decoded_message \<Rightarrow> ('acc, 'bank) computation \<Rightarrow>
     (('acc, 'bank) computation \<times> (comp_error dispatch_error + unit)) option" where
  "on_working_message_received env m s =
     (case dm_sender m of
        Worker worker \<Rightarrow>
          (case dm_payload m of
             Heartbeat _ _ challenge_time its \<Rightarrow> heartbeat env worker challenge_time its s
           | HeartbeatV2 _ _ challenge_time its _ _ \<Rightarrow> heartbeat env worker challenge_time its s)
      | _ \<Rightarrow> Some (s, Inr ()))"

text \<open>
  The body of the loops over \<open>offline\<close> and \<open>recovered_to_online\<close>: a bound, computing
  session goes to the given state.
\<close>

definition turn_worker ::
    "worker_state \<Rightarrow> ('acc \<Rightarrow> 'acc comp_event) \<Rightarrow> worker_event \<Rightarrow> worker_public_key \<Rightarrow>
     ('acc, 'bank) computation \<Rightarrow> ('acc, 'bank) computation" where
  "turn_worker st ev wev worker s =
     (case worker_bindings s worker of
        None \<Rightarrow> s
      | Some a \<Rightarrow>
          (case sessions s a of
             None \<Rightarrow> s
           | Some i \<Rightarrow>
               if \<not> is_computing (ss_state i) then s
               else comp_push (CompSystemEvent (new_worker_event worker wev))
                      (comp_deposit (ev a) (set_session a (i\<lparr>ss_state := st\<rparr>) s))))"

definition try_handle_settle ::
    "('acc, 'bank) comp_env \<Rightarrow> settle_info \<Rightarrow> u64 \<Rightarrow> u64 \<Rightarrow> ('acc, 'bank) computation \<Rightarrow>
     (('acc, 'bank) computation \<times> (comp_error dispatch_error + unit)) option" where
  "try_handle_settle env info now emit_ts s =
     (case worker_bindings s (si_pubkey info) of
        None \<Rightarrow> Some (s, Inr ())
      | Some a \<Rightarrow>
          (case sessions s a of
             None \<Rightarrow> Some (s, Inl (Module CeSessionNotFound))
           | Some i \<Rightarrow>
               if ss_v_updated_at i \<ge> emit_ts
               then Some (comp_deposit (SessionSettlementDropped a (si_v info) (si_payout info)) s, Inr ())
               else
                 (case stats_on_reward (fx_ops env) (si_payout info)
                         (i\<lparr>ss_v := si_v info, ss_v_updated_at := now\<rparr>) of
                    None \<Rightarrow> None
                  | Some i' \<Rightarrow>
                      let s1 = set_session a i' s in
                      (case from_fixed (fx_ops env) (si_treasury info) of
                         None \<Rightarrow> None
                       | Some deposit \<Rightarrow>
                           (case currency_withdraw env (computing_account env) deposit (bank s1) of
                              None \<Rightarrow> Some (s1, Inl (Module CeCurrency))
                            | Some b \<Rightarrow>
                                let s2 = comp_notify (OnTreasurySettled deposit) (s1\<lparr>bank := b\<rparr>)
                                in Some (comp_deposit (SessionSettled a (si_v info) (si_payout info)) s2, Inr ()))))))"

fun handle_settles ::
    "('acc, 'bank) comp_env \<Rightarrow> u64 \<Rightarrow> u64 \<Rightarrow> settle_info list \<Rightarrow> ('acc, 'bank) computation \<Rightarrow>
     ('acc, 'bank) computation option" where
  "handle_settles env now emit_ts [] s = Some s"
| "handle_settles env now emit_ts (info # infos) s =
     (case try_handle_settle env info now emit_ts s of
        None \<Rightarrow> None
      | Some (s1, Inr _) \<Rightarrow> handle_settles env now emit_ts infos s1
      | Some (s1, Inl _) \<Rightarrow>
          handle_settles env now emit_ts infos (comp_deposit (InternalErrorWorkerSettleFailed (si_pubkey info)) s1))"

definition comp_on_gk_message_received ::
    "('acc, 'bank) comp_env \<Rightarrow> working_info_update_event decoded_message \<Rightarrow> ('acc, 'bank) computation \<Rightarrow>
     (('acc, 'bank) computation \<times> (comp_error dispatch_error + unit)) option" where
  "comp_on_gk_message_received env m s =
     (if dm_sender m \<noteq> Gatekeeper then Some (s, Inl (Module CeBadSender))
      else
        let event = dm_payload m in
        if working_info_update_is_empty event then Some (s, Inr ())
        else
          let emit_ts = wi_timestamp_ms event div 1000;
              now = comp_now_sec env;
              s1 = fold (turn_worker WorkerUnresponsive WorkerEnterUnresponsive EnterUnresponsive) (wi_offline event) s;
              s2 = fold (turn_worker WorkerIdle WorkerExitUnresponsive ExitUnresponsive) (wi_recovered_to_online event) s1
          in map_option (\<lambda>s3. (comp_notify (OnReward (wi_settle event)) s3, Inr ()))
               (handle_settles env now emit_ts (wi_settle event) s2))"

definition withdraw_subsidy_pool ::
    "('acc, 'bank) comp_env \<Rightarrow> 'acc \<Rightarrow> balance \<Rightarrow> ('acc, 'bank) computation \<Rightarrow>
     comp_error dispatch_error + ('acc, 'bank) computation" where
  "withdraw_subsidy_pool env target value s =
     (case currency_transfer env (computing_account env) target value (bank s) of
        None \<Rightarrow> Inl (Module CeCurrency)
      | Some b \<Rightarrow> Inr (s\<lparr>bank := b\<rparr>))"

section \<open>Genesis\<close>

definition computation_genesis :: "u32 \<Rightarrow> tokenomic_parameters \<Rightarrow> 'bank \<Rightarrow> ('acc, 'bank) computation" where
  "computation_genesis cool_down params b =
     \<lparr>tokenomic_params = Some params, scheduled_tokenomic_update = None, online_workers = 0,
      expected_heartbeat_count = None, heartbeat_paused = True,
      max_budget_limit = 1729382256910270464000, budget_update_nonce = 0, last_budget_update_block = 0,
      contract_account =
        [158, 99, 153, 205, 87, 126, 138, 197, 54, 189, 192, 23, 103, 95, 116, 123,
         45, 24, 147, 173, 156, 200, 198, 159, 209, 126, 239, 115, 212, 230, 229, 30],
      sessions = Map.empty, session_bindings = Map.empty, worker_bindings = Map.empty,
      cool_down_period = ucast cool_down, next_session_id = 0, stakes = Map.empty, bank = b,
      comp_pushed = [CompGatekeeperEvent (TokenomicParametersChanged params)], comp_events = [], notified = []\<rparr>"

end
