(* ===== verification/Pool_Types.thy ===== *)
theory Pool_Types
  imports Computation
begin

text \<open>
  The types of the pool pallets under \<^verbatim>\<open>pallets/cyrux/src/compute\<close>: the pools of
  \<^verbatim>\<open>base_pool.rs\<close> and \<^verbatim>\<open>pool_proxy.rs\<close>, the errors of \<^verbatim>\<open>base_pool.rs\<close>,
  \<^verbatim>\<open>stake_pool_v2.rs\<close>, \<^verbatim>\<open>vault.rs\<close> and \<^verbatim>\<open>wrapped_balances.rs\<close>, the storage of the base
  pool, and the encodings it stores. The NFT pallets (\<^verbatim>\<open>pallet_rmrk_core\<close>,
  \<^verbatim>\<open>pallet_uniques\<close>) and the asset pallet (\<^verbatim>\<open>pallet_assets\<close>) are parameters over an
  abstract ledger state \<open>'led\<close>.
\<close>

section \<open>Pools\<close>

record 'acc withdraw_info =
  wd_user :: 'acc
  wd_start_time :: u64
  wd_nft_id :: u32

record withdraw_event_stats =
  we_amount :: balance
  we_shares :: balance
  we_burnt_shares :: balance

record nft_attr =
  attr_shares :: balance

record 'acc base_pool =
  bp_pid :: u64
  bp_owner :: 'acc
  total_shares :: balance
  total_value :: balance
  withdraw_queue :: "'acc withdraw_info list"
  value_subscribers :: "u64 list"
  bp_cid :: u32
  pool_account_id :: 'acc

text \<open>A commission is a \<open>Permill\<close>: parts per million.\<close>

record 'acc stake_pool =
  sp_basepool :: "'acc base_pool"
  payout_commission :: "u32 option"
  sp_cap :: "balance option"
  sp_workers :: "worker_public_key list"
  cd_workers :: "worker_public_key list"
  lock_account :: 'acc
  owner_reward_account :: 'acc

record 'acc vault =
  v_basepool :: "'acc base_pool"
  last_share_price_checkpoint :: balance
  v_commission :: "u32 option"
  owner_shares :: balance
  invest_pools :: "u64 list"

datatype 'acc pool_proxy = ProxyStakePool "'acc stake_pool" | ProxyVault "'acc vault"

definition pool_remove_worker :: "worker_public_key \<Rightarrow> 'acc stake_pool \<Rightarrow> 'acc stake_pool" where
  "pool_remove_worker w p = p\<lparr>sp_workers := filter (\<lambda>x. x \<noteq> w) (sp_workers p)\<rparr>"

definition pool_remove_cd_worker :: "worker_public_key \<Rightarrow> 'acc stake_pool \<Rightarrow> 'acc stake_pool" where
  "pool_remove_cd_worker w p = p\<lparr>cd_workers := filter (\<lambda>x. x \<noteq> w) (cd_workers p)\<rparr>"

fun proxy_basepool :: "'acc pool_proxy \<Rightarrow> 'acc base_pool" where
  "proxy_basepool (ProxyStakePool p) = sp_basepool p"
| "proxy_basepool (ProxyVault v) = v_basepool v"

section \<open>Errors, events and state\<close>

datatype bp_error =
    BpMissCollectionId | BpPoolBankrupt | BpInvalidShareToWithdraw | BpInvalidWithdrawalAmount
  | BpRmrkError | BpPoolDoesNotExist | BpPoolTypeNotMatch | BpNftIdNotFound | BpInvalidSharePrice
  | BpAttrLocked | BpUnauthorizedPoolOwner | BpAlreadyInContributeWhitelist
  | BpNotInContributeWhitelist | BpExceedWhitelistMaxLen | BpNoWhitelistCreated
  | BpExceedMaxDescriptionLen | BpNotMigrationRoot | BpBurnNftFailed
  | BpDeprecatedTransferSharesAmountInvalid | BpNoReimbursementToClaim
  | BpInternalSubsidyPoolCannotWithdraw

datatype sp_error =
    SpWorkerNotRegistered | SpBenchmarkMissing | SpWorkerExists | SpWorkerAlreadyStopped
  | SpWorkerDoesNotExist | SpWorkerInAnotherPool | SpUnauthorizedOperator
  | SpUnauthorizedPoolOwner | SpInadequateCapacity | SpStakeExceedsCapacity
  | SpInsufficientContribution | SpNoNftToWithdraw | SpInsufficientBalance
  | SpInsufficientFreeStake | SpInvalidWithdrawalAmount | SpFailedToBindSessionAndWorker
  | SpInternalSubsidyPoolCannotWithdraw | SpNoRewardToClaim | SpWorkersExceedLimit
  | SpCannotRestartWithLessStake | SpWithdrawQueueNotEmpty | SpVaultIsLocked
  | SpSessionDoesNotExist | SpWorkerIsNotReady | SpNoLegacyRewardToClaim

datatype vault_error =
    VUnauthorizedPoolOwner | VNoEnoughShareToClaim | VNoRewardToClaim | VAssetAccountNotExist
  | VInsufficientBalance | VInsufficientContribution | VVaultBankrupt | VNoNftToWithdraw
  | VCommissionNotChanged

datatype wb_error =
    WbStakerAccountNotFound | WbUnwrapAmountExceedsAvaliableStake
  | WbVoteAmountLargerThanTotalStakes | WbReferendumInvalid | WbReferendumOngoing
  | WbIterationsIsNotVaild

text \<open>An error of a pool call: of one of the pallets here, of the computation pallet, or of the
  pallets outside the repository.\<close>

datatype pool_error =
    Bp bp_error | Sp sp_error | Vlt vault_error | Wb wb_error
  | Comp "comp_error dispatch_error" | Foreign

type_synonym 'a pool_call = "(pool_error dispatch_error, 'a) call"

datatype 'acc bp_event =
    NftCreated u64 u32 u32 'acc balance
  | WithdrawalQueued u64 'acc balance u32 "u64 option" u32
  | Withdrawal u64 'acc balance balance balance
  | PoolWhitelistCreated u64
  | PoolWhitelistDeleted u64
  | PoolWhitelistStakerAdded u64 'acc
  | PoolWhitelistStakerRemoved u64 'acc

record ('acc, 'led) base_pool_state =
  next_nft_id :: "u32 \<Rightarrow> u32"
  pool_count :: u64
  pool_collections :: "u32 \<rightharpoonup> u64"
  collection_index :: u32
  pools :: "u64 \<rightharpoonup> 'acc pool_proxy"
  nft_locks :: "(u32 \<times> u32) set"
  pool_contribution_whitelists :: "u64 \<rightharpoonup> 'acc list"
  pool_descriptions :: "u64 \<rightharpoonup> bytes"
  reimbursements :: "'acc \<times> u64 \<rightharpoonup> balance"
  ledger :: 'led
  bp_events :: "'acc bp_event list"

text \<open>
  The NFT and asset pallets. \<open>None\<close> of an operation is its error; \<open>nft_remove_property\<close> is
  only called where the error is ignored. \<open>asset_minimum\<close> is \<open>None\<close> when the asset does not
  exist.
\<close>

datatype 'led mint_outcome = Minted 'led | BelowMinimum | MintFailed

record ('acc, 'led) ledger_ops =
  collection_known :: "u32 \<Rightarrow> 'led \<Rightarrow> bool"
  create_collection :: "'acc \<Rightarrow> u32 \<Rightarrow> bytes \<Rightarrow> 'led \<Rightarrow> 'led option"
  nft_mint :: "'acc \<Rightarrow> 'acc \<Rightarrow> u32 \<Rightarrow> u32 \<Rightarrow> 'led \<Rightarrow> 'led option"
  nft_burn :: "'acc \<Rightarrow> u32 \<Rightarrow> u32 \<Rightarrow> 'led \<Rightarrow> 'led option"
  nft_set_lock :: "u32 \<times> u32 \<Rightarrow> bool \<Rightarrow> 'led \<Rightarrow> 'led"
  nft_lock_remove :: "u32 \<times> u32 \<Rightarrow> 'led \<Rightarrow> 'led"
  nft_property :: "u32 \<Rightarrow> u32 \<Rightarrow> string \<Rightarrow> 'led \<Rightarrow> bytes option"
  nft_set_property :: "u32 \<Rightarrow> u32 \<Rightarrow> string \<Rightarrow> bytes \<Rightarrow> 'led \<Rightarrow> 'led option"
  nft_remove_property :: "u32 \<Rightarrow> u32 \<Rightarrow> string \<Rightarrow> 'led \<Rightarrow> 'led"
  owned_in_collection :: "u32 \<Rightarrow> 'acc \<Rightarrow> 'led \<Rightarrow> u32 list"
  asset_balance :: "'acc \<Rightarrow> 'led \<Rightarrow> balance"
  asset_maybe_balance :: "'acc \<Rightarrow> 'led \<Rightarrow> balance option"
  asset_minimum :: "'led \<Rightarrow> balance option"
  asset_transfer :: "'acc \<Rightarrow> 'acc \<Rightarrow> balance \<Rightarrow> 'led \<Rightarrow> 'led option"
  asset_mint_into :: "'acc \<Rightarrow> balance \<Rightarrow> 'led \<Rightarrow> 'led mint_outcome"
  asset_burn_from :: "'acc \<Rightarrow> balance \<Rightarrow> 'led \<Rightarrow> (balance \<times> 'led) option"
  key_limit :: nat
  value_limit :: nat
  symbol_limit :: nat

text \<open>
  The block a call runs in, the runtime's configuration, and the primitives of the host:
  the hash, the encoding of accounts and their decoding from a zero-padded string.
\<close>

record ('acc, 'led) pool_env = "('acc, 'led) ledger_ops" +
  pool_now_sec :: u64
  pool_fx :: fixed_ops
  migration_account :: 'acc
  pool_blake2_256 :: "bytes \<Rightarrow> bytes"
  encode_account :: "'acc \<Rightarrow> bytes"
  decode_account :: "bytes \<Rightarrow> 'acc"
  permill_mul :: "u32 \<Rightarrow> balance \<Rightarrow> balance"

definition bp_deposit :: "'acc bp_event \<Rightarrow> ('acc, 'led, 'z) base_pool_state_scheme \<Rightarrow> ('acc, 'led, 'z) base_pool_state_scheme" where
  "bp_deposit e s = s\<lparr>bp_events := bp_events s @ [e]\<rparr>"

definition insert_pool :: "u64 \<Rightarrow> 'acc pool_proxy \<Rightarrow> ('acc, 'led, 'z) base_pool_state_scheme \<Rightarrow> ('acc, 'led, 'z) base_pool_state_scheme" where
  "insert_pool p x s = s\<lparr>pools := (pools s)(p \<mapsto> x)\<rparr>"

section \<open>Encodings\<close>

text \<open>
  The SCALE encoding of an integer is its bytes, least significant first; \<open>format!\<close> prints
  the decimal digits. A \<open>BoundedVec\<close> refuses a longer vector.
\<close>

definition le_bytes :: "nat \<Rightarrow> 'a::len word \<Rightarrow> bytes" where
  "le_bytes n w = map (\<lambda>i. ucast (drop_bit (8 * i) w)) [0..<n]"

fun le_value :: "bytes \<Rightarrow> 'a::len word" where
  "le_value [] = 0"
| "le_value (b # bs) = ucast b + push_bit 8 (le_value bs)"

fun decimal :: "nat \<Rightarrow> bytes" where
  "decimal n = (if n < 10 then [48 + of_nat n] else decimal (n div 10) @ [48 + of_nat (n mod 10)])"

declare decimal.simps [simp del]

definition bounded :: "nat \<Rightarrow> bytes \<Rightarrow> bytes option" where
  "bounded limit bs = (if length bs \<le> limit then Some bs else None)"

definition ascii :: "string \<Rightarrow> bytes" where
  "ascii cs = map (\<lambda>c. of_char c) cs"

definition bounded_key :: "nat \<Rightarrow> string \<Rightarrow> string option" where
  "bounded_key limit key = (if length key \<le> limit then Some key else None)"

definition encode_attr :: "nft_attr \<Rightarrow> bytes" where
  "encode_attr a = le_bytes 16 (attr_shares a)"

definition decode_attr :: "bytes \<Rightarrow> nft_attr option" where
  "decode_attr bs = (if length bs < 16 then None else Some \<lparr>attr_shares = le_value (take 16 bs)\<rparr>)"

end
