(* ===== verification/Base_Pool.thy ===== *)
theory Base_Pool
  imports Pool_Types
begin

text \<open>
  The base pool pallet, \<^verbatim>\<open>pallets/cyrux/src/compute/base_pool.rs\<close>. A pool issues shares,
  kept as an attribute of an NFT in the collection of the pool; the stake itself is a balance
  of the wrapped asset. A function of the source that takes \<open>&mut BasePool\<close> returns the
  changed pool. \<open>None\<close> is a panic.
\<close>

section \<open>Prices and dust\<close>

definition share_price :: "fixed_ops \<Rightarrow> 'acc base_pool \<Rightarrow> u64f64_bits option option" where
  "share_price fx p =
     (case (to_fixed fx (total_value p), to_fixed fx (total_shares p)) of
        (Some v, Some sh) \<Rightarrow> Some (fx_checked_div fx v sh)
      | _ \<Rightarrow> None)"

definition balance_close_to_zero :: "balance \<Rightarrow> bool" where
  "balance_close_to_zero n \<longleftrightarrow> n \<le> 1000"

definition is_nondust_balance :: "balance \<Rightarrow> bool" where
  "is_nondust_balance n \<longleftrightarrow> \<not> balance_close_to_zero n"

definition extract_dust :: "balance \<Rightarrow> balance \<times> balance" where
  "extract_dust n = (if balance_close_to_zero n then (0, n) else (n, 0))"

definition slash :: "balance \<Rightarrow> 'acc base_pool \<Rightarrow> 'acc base_pool" where
  "slash amount p =
     (let amount' = min (total_value p) amount
      in p\<lparr>total_value := fst (extract_dust (total_value p - amount'))\<rparr>)"

definition get_free_stakes ::
    "('acc, 'led, 'y) pool_env_scheme \<Rightarrow> 'acc base_pool \<Rightarrow> ('acc, 'led, 'z) base_pool_state_scheme \<Rightarrow> balance" where
  "get_free_stakes env p s = asset_balance env (pool_account_id p) (ledger s)"

section \<open>Pool accounts and lookup\<close>

definition pallet_id :: "('acc, 'led, 'y) pool_env_scheme \<Rightarrow> 'acc" where
  "pallet_id env = decode_account env (ascii ''basepool'')"

definition generate_staker_account :: "('acc, 'led, 'y) pool_env_scheme \<Rightarrow> u64 \<Rightarrow> 'acc \<Rightarrow> 'acc" where
  "generate_staker_account env p own =
     (let h = pool_blake2_256 env (le_bytes 8 p @ encode_account env own)
      in decode_account env (ascii ''bp/'' @ h))"

definition ensure_stake_pool ::
    "u64 \<Rightarrow> ('acc, 'led, 'z) base_pool_state_scheme \<Rightarrow> pool_error dispatch_error + 'acc stake_pool" where
  "ensure_stake_pool p s =
     bind_result (ok_or (pools s p) (Module (Bp BpPoolDoesNotExist))) (\<lambda>proxy.
       case proxy of ProxyStakePool x \<Rightarrow> Inr x | _ \<Rightarrow> Inl (Module (Bp BpPoolTypeNotMatch)))"

definition ensure_vault ::
    "u64 \<Rightarrow> ('acc, 'led, 'z) base_pool_state_scheme \<Rightarrow> pool_error dispatch_error + 'acc vault" where
  "ensure_vault p s =
     bind_result (ok_or (pools s p) (Module (Bp BpPoolDoesNotExist))) (\<lambda>proxy.
       case proxy of ProxyVault x \<Rightarrow> Inr x | _ \<Rightarrow> Inl (Module (Bp BpPoolTypeNotMatch)))"

definition consume_new_pid ::
    "('acc, 'led, 'z) base_pool_state_scheme \<Rightarrow> u64 \<times> ('acc, 'led, 'z) base_pool_state_scheme" where
  "consume_new_pid s = (pool_count s, s\<lparr>pool_count := pool_count s + 1\<rparr>)"

definition RESERVE_CID_START :: u32 where
  "RESERVE_CID_START = 10000"

definition consume_new_cid ::
    "('acc, 'led, 'z) base_pool_state_scheme \<Rightarrow> u32 \<times> ('acc, 'led, 'z) base_pool_state_scheme" where
  "consume_new_cid s =
     (let n = (if collection_index s \<le> RESERVE_CID_START then RESERVE_CID_START else collection_index s)
      in (n, s\<lparr>collection_index := n + 1\<rparr>))"

definition ensure_migration_root ::
    "('acc, 'led, 'y) pool_env_scheme \<Rightarrow> 'acc \<Rightarrow> pool_error dispatch_error + unit" where
  "ensure_migration_root env user = ensure (user = migration_account env) (Module (Bp BpNotMigrationRoot))"

section \<open>NFTs\<close>

definition on_ledger ::
    "('led \<Rightarrow> 'led option) \<Rightarrow> ('acc, 'led, 'z) base_pool_state_scheme \<Rightarrow>
     ('acc, 'led, 'z) base_pool_state_scheme pool_call" where
  "on_ledger f s =
     (case f (ledger s) of None \<Rightarrow> Some (Inl (Module Foreign)) | Some l \<Rightarrow> ok_call (s\<lparr>ledger := l\<rparr>))"

definition set_lock ::
    "('acc, 'led, 'y) pool_env_scheme \<Rightarrow> u32 \<Rightarrow> u32 \<Rightarrow> bool \<Rightarrow> ('acc, 'led, 'z) base_pool_state_scheme \<Rightarrow>
     ('acc, 'led, 'z) base_pool_state_scheme" where
  "set_lock env c n b s = s\<lparr>ledger := nft_set_lock env (c, n) b (ledger s)\<rparr>"

definition NFT_PROPERTY_KEY :: string where
  "NFT_PROPERTY_KEY = ''stake-info''"

definition CREATETIME_KEY :: string where
  "CREATETIME_KEY = ''createtime''"

definition get_nft_attr ::
    "('acc, 'led, 'y) pool_env_scheme \<Rightarrow> u32 \<Rightarrow> u32 \<Rightarrow> ('acc, 'led, 'z) base_pool_state_scheme \<Rightarrow> nft_attr pool_call" where
  "get_nft_attr env c n s =
     bind_call (expect_call (bounded_key (key_limit env) NFT_PROPERTY_KEY)) (\<lambda>key.
     bind_call (Some (ok_or (nft_property env c n key (ledger s)) (Module (Bp BpMissCollectionId)))) (\<lambda>raw_value.
     expect_call (decode_attr raw_value)))"

definition set_nft_attr ::
    "('acc, 'led, 'y) pool_env_scheme \<Rightarrow> u32 \<Rightarrow> u32 \<Rightarrow> nft_attr \<Rightarrow> ('acc, 'led, 'z) base_pool_state_scheme \<Rightarrow>
     ('acc, 'led, 'z) base_pool_state_scheme pool_call" where
  "set_nft_attr env c n attr s =
     bind_call (expect_call (bounded_key (key_limit env) NFT_PROPERTY_KEY)) (\<lambda>key.
     bind_call (expect_call (bounded (value_limit env) (encode_attr attr))) (\<lambda>val.
     bind_call (on_ledger (nft_set_property env c n key val) (set_lock env c n False s)) (\<lambda>s1.
     ok_call (set_lock env c n True s1))))"

definition set_nft_desc_attr ::
    "('acc, 'led, 'y) pool_env_scheme \<Rightarrow> u32 \<Rightarrow> u32 \<Rightarrow> ('acc, 'led, 'z) base_pool_state_scheme \<Rightarrow>
     ('acc, 'led, 'z) base_pool_state_scheme pool_call" where
  "set_nft_desc_attr env c n s =
     (let s0 = set_lock env c n False s in
      bind_call (expect_call (bounded_key (key_limit env) CREATETIME_KEY)) (\<lambda>key.
      bind_call (expect_call (bounded (value_limit env) (decimal (unat (pool_now_sec env))))) (\<lambda>val.
      bind_call (on_ledger (nft_set_property env c n key val) s0) (\<lambda>s1.
      ok_call (set_lock env c n True s1)))))"

definition remove_properties ::
    "('acc, 'led, 'y) pool_env_scheme \<Rightarrow> u32 \<Rightarrow> u32 \<Rightarrow> ('acc, 'led, 'z) base_pool_state_scheme \<Rightarrow>
     ('acc, 'led, 'z) base_pool_state_scheme pool_call" where
  "remove_properties env c n s =
     bind_call (expect_call (bounded_key (key_limit env) CREATETIME_KEY)) (\<lambda>key.
     ok_call (s\<lparr>ledger := nft_remove_property env c n key (ledger s)\<rparr>))"

definition get_next_nft_id ::
    "u32 \<Rightarrow> ('acc, 'led, 'z) base_pool_state_scheme \<Rightarrow> (u32 \<times> ('acc, 'led, 'z) base_pool_state_scheme) pool_call" where
  "get_next_nft_id c s =
     (let current_id = next_nft_id s c in
      bind_call (Some (ensure (current_id \<noteq> - 1) (Module (Bp BpNftIdNotFound)))) (\<lambda>_.
      ok_call (current_id, s\<lparr>next_nft_id := (next_nft_id s)(c := current_id + 1)\<rparr>)))"

definition mint_nft ::
    "('acc, 'led, 'y) pool_env_scheme \<Rightarrow> u32 \<Rightarrow> 'acc \<Rightarrow> balance \<Rightarrow> u64 \<Rightarrow> ('acc, 'led, 'z) base_pool_state_scheme \<Rightarrow>
     (u32 \<times> ('acc, 'led, 'z) base_pool_state_scheme) pool_call" where
  "mint_nft env c contributer shares p s =
     bind_call (Some (ensure (collection_known env c (ledger s)) (Module Foreign))) (\<lambda>_.
     bind_call (get_next_nft_id c s) (\<lambda>(n, s1).
     bind_call (on_ledger (nft_mint env (pallet_id env) contributer n c) s1) (\<lambda>s2.
     bind_call (set_nft_attr env c n \<lparr>attr_shares = shares\<rparr> s2) (\<lambda>s3.
     bind_call (set_nft_desc_attr env c n s3) (\<lambda>s4.
     ok_call (n, bp_deposit (NftCreated p c n contributer shares) (set_lock env c n True s4)))))))"

definition burn_nft ::
    "('acc, 'led, 'y) pool_env_scheme \<Rightarrow> 'acc \<Rightarrow> u32 \<Rightarrow> u32 \<Rightarrow> ('acc, 'led, 'z) base_pool_state_scheme \<Rightarrow>
     ('acc, 'led, 'z) base_pool_state_scheme pool_call" where
  "burn_nft env own c n s =
     (case nft_burn env own c n (ledger (set_lock env c n False s)) of
        None \<Rightarrow> Some (Inl (Module (Bp BpBurnNftFailed)))
      | Some l \<Rightarrow>
          bind_call (remove_properties env c n (s\<lparr>ledger := l\<rparr>)) (\<lambda>s1.
          ok_call (s1\<lparr>ledger := nft_lock_remove env (c, n) (ledger s1)\<rparr>)))"

text \<open>
  A guard holds the attribute and the lock of an NFT; \<open>guard_drop\<close> is its destructor, which
  \<open>unlock\<close> calls, and \<open>guard_save\<close> writes the attribute back first. \<open>peek_nft\<close> takes a
  guard, copies the attribute and drops the guard.
\<close>

definition get_nft_attr_guard ::
    "('acc, 'led, 'y) pool_env_scheme \<Rightarrow> u32 \<Rightarrow> u32 \<Rightarrow> ('acc, 'led, 'z) base_pool_state_scheme \<Rightarrow>
     (nft_attr \<times> ('acc, 'led, 'z) base_pool_state_scheme) pool_call" where
  "get_nft_attr_guard env c n s =
     bind_call (get_nft_attr env c n s) (\<lambda>nft.
     bind_call (Some (ensure ((c, n) \<notin> nft_locks s) (Module (Bp BpAttrLocked)))) (\<lambda>_.
     ok_call (nft, s\<lparr>nft_locks := insert (c, n) (nft_locks s)\<rparr>)))"

definition guard_drop ::
    "u32 \<Rightarrow> u32 \<Rightarrow> ('acc, 'led, 'z) base_pool_state_scheme \<Rightarrow> ('acc, 'led, 'z) base_pool_state_scheme" where
  "guard_drop c n s = s\<lparr>nft_locks := nft_locks s - {(c, n)}\<rparr>"

definition guard_save ::
    "('acc, 'led, 'y) pool_env_scheme \<Rightarrow> u32 \<Rightarrow> u32 \<Rightarrow> nft_attr \<Rightarrow> ('acc, 'led, 'z) base_pool_state_scheme \<Rightarrow>
     ('acc, 'led, 'z) base_pool_state_scheme pool_call" where
  "guard_save env c n attr s =
     bind_call (set_nft_attr env c n attr s) (\<lambda>s1. ok_call (guard_drop c n s1))"

definition peek_nft ::
    "('acc, 'led, 'y) pool_env_scheme \<Rightarrow> u32 \<Rightarrow> u32 \<Rightarrow> ('acc, 'led, 'z) base_pool_state_scheme \<Rightarrow>
     (nft_attr \<times> ('acc, 'led, 'z) base_pool_state_scheme) pool_call" where
  "peek_nft env c n s =
     bind_call (get_nft_attr_guard env c n s) (\<lambda>(attr, s1). ok_call (attr, guard_drop c n s1))"

fun merge_one ::
    "('acc, 'led, 'y) pool_env_scheme \<Rightarrow> u32 \<Rightarrow> 'acc \<Rightarrow> u32 \<Rightarrow>
     balance \<times> ('acc, 'led, 'z) base_pool_state_scheme \<Rightarrow>
     (balance \<times> ('acc, 'led, 'z) base_pool_state_scheme) pool_call" where
  "merge_one env c staker n (t, s) =
     bind_call (unwrap_call (peek_nft env c n s)) (\<lambda>(attr, s1).
     bind_call (unwrap_call (burn_nft env staker c n s1)) (\<lambda>s2.
     ok_call (t + attr_shares attr, s2)))"

definition merge_nft_for_staker ::
    "('acc, 'led, 'y) pool_env_scheme \<Rightarrow> u32 \<Rightarrow> 'acc \<Rightarrow> u64 \<Rightarrow> ('acc, 'led, 'z) base_pool_state_scheme \<Rightarrow>
     (u32 option \<times> ('acc, 'led, 'z) base_pool_state_scheme) pool_call" where
  "merge_nft_for_staker env c staker p s =
     (case owned_in_collection env c staker (ledger s) of
        [] \<Rightarrow> ok_call (None, s)
      | [n] \<Rightarrow> ok_call (Some n, s)
      | nfts \<Rightarrow>
          bind_call (fold_call (merge_one env c staker) nfts (0, s)) (\<lambda>(t, s1).
          bind_call (mint_nft env c staker t p s1) (\<lambda>(n, s2). ok_call (Some n, s2))))"

section \<open>Contributions and withdrawals\<close>

definition asset_move ::
    "('acc, 'led, 'y) pool_env_scheme \<Rightarrow> 'acc \<Rightarrow> 'acc \<Rightarrow> balance \<Rightarrow> ('acc, 'led, 'z) base_pool_state_scheme \<Rightarrow>
     ('acc, 'led, 'z) base_pool_state_scheme pool_call" where
  "asset_move env src dst amount = on_ledger (asset_transfer env src dst amount)"

definition add_stake_to_new_nft ::
    "('acc, 'led, 'y) pool_env_scheme \<Rightarrow> 'acc base_pool \<Rightarrow> 'acc \<Rightarrow> balance \<Rightarrow>
     ('acc, 'led, 'z) base_pool_state_scheme \<Rightarrow>
     (balance \<times> 'acc base_pool \<times> ('acc, 'led, 'z) base_pool_state_scheme) pool_call" where
  "add_stake_to_new_nft env p account amount s =
     bind_call (expect_call (share_price (pool_fx env) p)) (\<lambda>price.
     bind_call (case price of
         Some x \<Rightarrow> if x \<noteq> fx_decimal (pool_fx env) 0 0 then expect_call (bdiv (pool_fx env) amount x)
                   else ok_call amount
       | None \<Rightarrow> ok_call amount) (\<lambda>shares.
     bind_call (unwrap_call (mint_nft env (bp_cid p) account shares (bp_pid p) s)) (\<lambda>(_, s1).
     let p1 = p\<lparr>total_shares := total_shares p + shares, total_value := total_value p + amount\<rparr> in
     bind_call (unwrap_call (asset_move env account (pool_account_id p1) amount s1)) (\<lambda>s2.
     ok_call (shares, p1, s2)))))"

definition base_contribute ::
    "('acc, 'led, 'y) pool_env_scheme \<Rightarrow> 'acc base_pool \<Rightarrow> 'acc \<Rightarrow> balance \<Rightarrow>
     ('acc, 'led, 'z) base_pool_state_scheme \<Rightarrow>
     (balance \<times> 'acc base_pool \<times> ('acc, 'led, 'z) base_pool_state_scheme) pool_call" where
  "base_contribute env p account amount s =
     bind_call (Some (ensure (total_shares p = 0 \<or> total_value p > 0) (Module (Bp BpPoolBankrupt)))) (\<lambda>_.
     bind_call (Some (case pool_contribution_whitelists s (bp_pid p) of
         None \<Rightarrow> Inr ()
       | Some wl \<Rightarrow> ensure (account \<in> set wl \<or> bp_owner p = account) (Module (Bp BpNotInContributeWhitelist)))) (\<lambda>_.
     bind_call (merge_nft_for_staker env (bp_cid p) account (bp_pid p) s) (\<lambda>(_, s1).
     add_stake_to_new_nft env p account amount s1)))"

fun requeue_one ::
    "('acc, 'led, 'y) pool_env_scheme \<Rightarrow> u32 \<Rightarrow> 'acc withdraw_info \<Rightarrow>
     nft_attr \<times> ('acc, 'led, 'z) base_pool_state_scheme \<Rightarrow>
     (nft_attr \<times> ('acc, 'led, 'z) base_pool_state_scheme) pool_call" where
  "requeue_one env c wd (nft, s) =
     bind_call (peek_nft env c (wd_nft_id wd) s) (\<lambda>(in_queue_nft, s1).
     bind_call (unwrap_call (burn_nft env (pallet_id env) c (wd_nft_id wd) s1)) (\<lambda>s2.
     ok_call (nft\<lparr>attr_shares := attr_shares nft + attr_shares in_queue_nft\<rparr>, s2)))"

definition push_withdraw_in_queue ::
    "('acc, 'led, 'y) pool_env_scheme \<Rightarrow> 'acc base_pool \<Rightarrow> nft_attr \<Rightarrow> 'acc \<Rightarrow> balance \<Rightarrow>
     ('acc, 'led, 'z) base_pool_state_scheme \<Rightarrow>
     (u32 option \<times> 'acc base_pool \<times> nft_attr \<times> ('acc, 'led, 'z) base_pool_state_scheme) pool_call" where
  "push_withdraw_in_queue env p nft account shares s =
     bind_call (expect_call (share_price (pool_fx env) p)) (\<lambda>price.
     if price = None then
       bind_call (Some (ensure (shares \<le> attr_shares nft) (Module (Bp BpInvalidShareToWithdraw)))) (\<lambda>_.
       ok_call (None, p, nft\<lparr>attr_shares := attr_shares nft - shares\<rparr>, s))
     else
       let in_queue_nfts = filter (\<lambda>wd. wd_user wd = account) (withdraw_queue p);
           p1 = p\<lparr>withdraw_queue := filter (\<lambda>wd. wd_user wd \<noteq> account) (withdraw_queue p)\<rparr>
       in
       bind_call (fold_call (requeue_one env (bp_cid p1)) in_queue_nfts (nft, s)) (\<lambda>(nft1, s1).
       bind_call (unwrap_call (mint_nft env (bp_cid p1) (pallet_id env) shares (bp_pid p1) s1)) (\<lambda>(split_nft_id, s2).
       bind_call (Some (ensure (shares \<le> attr_shares nft1) (Module (Bp BpInvalidShareToWithdraw)))) (\<lambda>_.
       let nft2 = nft1\<lparr>attr_shares := attr_shares nft1 - shares\<rparr>;
           wd = \<lparr>wd_user = account, wd_start_time = pool_now_sec env, wd_nft_id = split_nft_id\<rparr>;
           p2 = p1\<lparr>withdraw_queue := withdraw_queue p1 @ [wd]\<rparr>
       in ok_call (Some split_nft_id, p2, nft2, s2)))))"

fun expired_requests ::
    "('acc, 'led, 'y) pool_env_scheme \<Rightarrow> u32 \<Rightarrow> u64 \<Rightarrow> u64 \<Rightarrow> u64 option \<Rightarrow> u64f64_bits \<Rightarrow> 'acc withdraw_info list \<Rightarrow> balance \<Rightarrow>
     ('acc, 'led, 'z) base_pool_state_scheme \<Rightarrow> (bool \<times> ('acc, 'led, 'z) base_pool_state_scheme) pool_call" where
  "expired_requests env c now grace_period vault_period price [] budget s = ok_call (False, s)"
| "expired_requests env c now grace_period vault_period price (wd # wds) budget s =
     (if (case vault_period of Some v \<Rightarrow> now - wd_start_time wd > v | None \<Rightarrow> False) then ok_call (True, s)
      else
        bind_call (unwrap_call (peek_nft env c (wd_nft_id wd) s)) (\<lambda>(nft, s1).
        bind_call (expect_call (bmul (pool_fx env) (attr_shares nft) price)) (\<lambda>amount.
        if amount > budget then ok_call (now - wd_start_time wd > grace_period, s1)
        else expired_requests env c now grace_period vault_period price wds (budget - amount) s1)))"

definition has_expired_withdrawal ::
    "('acc, 'led, 'y) pool_env_scheme \<Rightarrow> 'acc base_pool \<Rightarrow> u64 \<Rightarrow> u64 \<Rightarrow> u64 option \<Rightarrow> balance \<Rightarrow>
     ('acc, 'led, 'z) base_pool_state_scheme \<Rightarrow> (bool \<times> ('acc, 'led, 'z) base_pool_state_scheme) pool_call" where
  "has_expired_withdrawal env p now grace_period vault_period releasing_stake s =
     bind_call (expect_call (share_price (pool_fx env) p)) (\<lambda>maybe_price.
     case maybe_price of
       None \<Rightarrow> ok_call (False, s)
     | Some price \<Rightarrow>
         if price = fx_decimal (pool_fx env) 0 0 then ok_call (False, s)
         else expired_requests env (bp_cid p) now grace_period vault_period price (withdraw_queue p)
                (get_free_stakes env p s + releasing_stake) s)"

text \<open>The inner \<open>Inl ()\<close> is the \<open>None\<close> that the source returns.\<close>

definition remove_stake_from_nft ::
    "('acc, 'led, 'y) pool_env_scheme \<Rightarrow> 'acc base_pool \<Rightarrow> balance \<Rightarrow> nft_attr \<Rightarrow> 'acc \<Rightarrow>
     ('acc, 'led, 'z) base_pool_state_scheme \<Rightarrow>
     (unit, balance \<times> balance \<times> 'acc base_pool \<times> nft_attr \<times> ('acc, 'led, 'z) base_pool_state_scheme) call" where
  "remove_stake_from_nft env p shares nft user s =
     bind_call (expect_call (share_price (pool_fx env) p)) (\<lambda>maybe_price.
     bind_call (Some (ok_or maybe_price ())) (\<lambda>price.
     bind_call (expect_call (bmul (pool_fx env) shares price)) (\<lambda>amount0.
     let amount = min amount0 (get_free_stakes env p s) in
     bind_call (Some (ensure (shares \<le> attr_shares nft) ())) (\<lambda>_.
     let (user_shares, shares_dust) = extract_dust (attr_shares nft - shares);
         removed_shares = shares + shares_dust
     in
     bind_call (Some (ensure (removed_shares \<le> total_shares p) ())) (\<lambda>_.
     let total_stake = fst (extract_dust (total_value p - amount)) in
     bind_call (unwrap_call (asset_move env (pool_account_id p) user amount s)) (\<lambda>s1.
     let p1 = p\<lparr>total_value := (if total_stake > 0 then total_value p - amount else 0),
                total_shares := total_shares p - removed_shares\<rparr>
     in ok_call (amount, removed_shares, p1, nft\<lparr>attr_shares := user_shares\<rparr>, s1)))))))"

definition maybe_remove_dust ::
    "('acc, 'led, 'y) pool_env_scheme \<Rightarrow> 'acc base_pool \<Rightarrow> nft_attr \<Rightarrow> ('acc, 'led, 'z) base_pool_state_scheme \<Rightarrow>
     (bool \<times> 'acc base_pool) pool_call" where
  "maybe_remove_dust env p nft s =
     bind_call (expect_call (share_price (pool_fx env) p)) (\<lambda>maybe_price.
     case maybe_price of
       None \<Rightarrow> ok_call (False, p)
     | Some price \<Rightarrow>
         bind_call (expect_call (bmul (pool_fx env) (attr_shares nft) price)) (\<lambda>current_balance.
         bind_call (expect_call (asset_minimum env (ledger s))) (\<lambda>wpha_min.
         if current_balance > wpha_min then ok_call (False, p)
         else ok_call (True, p\<lparr>total_shares := total_shares p - attr_shares nft\<rparr>))))"

text \<open>
  The loop of \<open>try_process_withdraw_queue\<close> works on the pool, the storage and the statistics
  for the events. \<open>process_front\<close> is its body for the request at the front, \<open>finish_front\<close> the
  end of the body after a payment.
\<close>

type_synonym 'acc withdrawing = "('acc, withdraw_event_stats) btree"

definition stats_default :: withdraw_event_stats where
  "stats_default = \<lparr>we_amount = 0, we_shares = 0, we_burnt_shares = 0\<rparr>"

definition update_stats ::
    "'acc::linorder \<Rightarrow> (withdraw_event_stats \<Rightarrow> withdraw_event_stats) \<Rightarrow> 'acc withdrawing \<Rightarrow> 'acc withdrawing" where
  "update_stats user f w =
     bt_insert user (f (case map_of w user of None \<Rightarrow> stats_default | Some e \<Rightarrow> e)) w"

definition pop_front :: "'acc base_pool \<Rightarrow> 'acc base_pool" where
  "pop_front p = p\<lparr>withdraw_queue := tl (withdraw_queue p)\<rparr>"

definition finish_front ::
    "('acc::linorder, 'led, 'y) pool_env_scheme \<Rightarrow> 'acc withdraw_info \<Rightarrow> nft_attr \<Rightarrow> 'acc base_pool \<Rightarrow>
     ('acc, 'led, 'z) base_pool_state_scheme \<Rightarrow> 'acc withdrawing \<Rightarrow>
     ('acc base_pool \<times> ('acc, 'led, 'z) base_pool_state_scheme \<times> 'acc withdrawing) pool_call" where
  "finish_front env wd nft p s w =
     bind_call (if attr_shares nft = 0 then ok_call (True, p) else maybe_remove_dust env p nft s)
       (\<lambda>(finished, p1).
     if finished then
       let w1 = (if attr_shares nft \<noteq> 0
                 then update_stats (wd_user wd)
                        (\<lambda>e. e\<lparr>we_burnt_shares := we_burnt_shares e + attr_shares nft\<rparr>) w
                 else w);
           p2 = pop_front p1
       in
       bind_call (unwrap_call (burn_nft env (pallet_id env) (bp_cid p2) (wd_nft_id wd) s)) (\<lambda>s1.
       ok_call (p2, s1, w1))
     else ok_call (p1, s, w))"

fun process_front ::
    "('acc::linorder, 'led, 'y) pool_env_scheme \<Rightarrow> u64f64_bits \<Rightarrow> 'acc withdraw_info \<Rightarrow>
     'acc base_pool \<times> ('acc, 'led, 'z) base_pool_state_scheme \<times> 'acc withdrawing \<Rightarrow>
     ('acc base_pool \<times> ('acc, 'led, 'z) base_pool_state_scheme \<times> 'acc withdrawing) pool_call" where
  "process_front env price wd (p, s, w) =
     bind_call (unwrap_call (get_nft_attr_guard env (bp_cid p) (wd_nft_id wd) s)) (\<lambda>(nft, s1).
     bind_call (maybe_remove_dust env p nft s1) (\<lambda>(is_dust, p1).
     if is_dust then
       let w1 = update_stats (wd_user wd) (\<lambda>e. e\<lparr>we_burnt_shares := we_burnt_shares e + attr_shares nft\<rparr>) w;
           s2 = guard_drop (bp_cid p) (wd_nft_id wd) s1;
           p2 = pop_front p1
       in
       bind_call (unwrap_call (burn_nft env (pallet_id env) (bp_cid p2) (wd_nft_id wd) s2)) (\<lambda>s3.
       ok_call (p2, s3, w1))
     else
       bind_call (if price = fx_decimal (pool_fx env) 0 0 then ok_call (attr_shares nft)
                  else expect_call (bdiv (pool_fx env) (get_free_stakes env p1 s1) price)) (\<lambda>free_shares.
       let withdrawing_shares = min free_shares (attr_shares nft) in
       bind_call (unwrap_call (remove_stake_from_nft env p1 withdrawing_shares nft (wd_user wd) s1))
         (\<lambda>(reduced, withdrawn_shares, p2, nft2, s2).
       let w1 = update_stats (wd_user wd) (\<lambda>e. e\<lparr>we_amount := we_amount e + reduced,
                                              we_shares := we_shares e + withdrawn_shares\<rparr>) w in
       bind_call (unwrap_call (guard_save env (bp_cid p) (wd_nft_id wd) nft2 s2)) (\<lambda>s3.
       finish_front env wd nft2 p2 s3 w1)))))"

text \<open>
  The \<open>while\<close> loop. Fuel bounds the number of iterations; \<open>OutOfFuel\<close> is told apart from a
  panic.
\<close>

datatype 'a run = Ran 'a | Panicked | OutOfFuel

fun withdraw_loop ::
    "('acc::linorder, 'led, 'y) pool_env_scheme \<Rightarrow> u64f64_bits \<Rightarrow> balance \<Rightarrow> nat \<Rightarrow>
     'acc base_pool \<times> ('acc, 'led, 'z) base_pool_state_scheme \<times> 'acc withdrawing \<Rightarrow>
     ('acc base_pool \<times> ('acc, 'led, 'z) base_pool_state_scheme \<times> 'acc withdrawing) run" where
  "withdraw_loop env price wpha_min fuel (p, s, w) =
     (if get_free_stakes env p s > wpha_min then
        (case withdraw_queue p of
           [] \<Rightarrow> Ran (p, s, w)
         | wd # _ \<Rightarrow>
             (case fuel of
                0 \<Rightarrow> OutOfFuel
              | Suc fuel' \<Rightarrow>
                  (case process_front env price wd (p, s, w) of
                     Some (Inr x) \<Rightarrow> withdraw_loop env price wpha_min fuel' x
                   | _ \<Rightarrow> Panicked)))
      else Ran (p, s, w))"

declare process_front.simps [simp del]
declare withdraw_loop.simps [simp del]

definition loop_fuel :: "'acc base_pool \<Rightarrow> nat" where
  "loop_fuel p = length (withdraw_queue p) + unat (total_shares p)"

definition emit_withdrawals ::
    "u64 \<Rightarrow> 'acc withdrawing \<Rightarrow> ('acc, 'led, 'z) base_pool_state_scheme \<Rightarrow> ('acc, 'led, 'z) base_pool_state_scheme" where
  "emit_withdrawals pid w =
     fold (\<lambda>(user, e). bp_deposit (Withdrawal pid user (we_amount e) (we_shares e) (we_burnt_shares e))) w"

definition try_process_withdraw_queue ::
    "('acc::linorder, 'led, 'y) pool_env_scheme \<Rightarrow> 'acc base_pool \<Rightarrow> ('acc, 'led, 'z) base_pool_state_scheme \<Rightarrow>
     ('acc base_pool \<times> ('acc, 'led, 'z) base_pool_state_scheme) pool_call" where
  "try_process_withdraw_queue env p s =
     bind_call (expect_call (share_price (pool_fx env) p)) (\<lambda>maybe_price.
     case maybe_price of
       None \<Rightarrow> ok_call (p, s)
     | Some price \<Rightarrow>
         bind_call (expect_call (asset_minimum env (ledger s))) (\<lambda>wpha_min.
         case withdraw_loop env price wpha_min (loop_fuel p) (p, s, []) of
           Ran (p1, s1, w) \<Rightarrow> ok_call (p1, emit_withdrawals (bp_pid p1) w s1)
         | _ \<Rightarrow> None))"

definition try_withdraw ::
    "('acc::linorder, 'led, 'y) pool_env_scheme \<Rightarrow> 'acc base_pool \<Rightarrow> nft_attr \<Rightarrow> 'acc \<Rightarrow> balance \<Rightarrow> u32 \<Rightarrow> u64 option \<Rightarrow>
     ('acc, 'led, 'z) base_pool_state_scheme \<Rightarrow>
     ('acc base_pool \<times> nft_attr \<times> ('acc, 'led, 'z) base_pool_state_scheme) pool_call" where
  "try_withdraw env p nft user shares nft_id as_vault s =
     bind_call (push_withdraw_in_queue env p nft user shares s) (\<lambda>(maybe_split_nft_id, p1, nft1, s1).
     case maybe_split_nft_id of
       None \<Rightarrow> ok_call (p1, nft1, s1)
     | Some split_nft_id \<Rightarrow>
         let s2 = bp_deposit (WithdrawalQueued (bp_pid p1) user shares nft_id as_vault split_nft_id) s1 in
         bind_call (try_process_withdraw_queue env p1 s2) (\<lambda>(p2, s3). ok_call (p2, nft1, s3)))"

section \<open>Rewards\<close>

text \<open>
  A reward raises the value of the pool and of the vaults that subscribe to it, which pass
  theirs on in turn. The depth of this recursion is bounded by fuel.
\<close>

fun queued_shares ::
    "('acc, 'led, 'y) pool_env_scheme \<Rightarrow> u32 \<Rightarrow> 'acc withdraw_info \<Rightarrow>
     u64f64_bits \<times> ('acc, 'led, 'z) base_pool_state_scheme \<Rightarrow>
     (u64f64_bits \<times> ('acc, 'led, 'z) base_pool_state_scheme) pool_call" where
  "queued_shares env c wd (vault_shares, s) =
     bind_call (unwrap_call (peek_nft env c (wd_nft_id wd) s)) (\<lambda>(attr, s1).
     bind_call (expect_call (to_fixed (pool_fx env) (attr_shares attr))) (\<lambda>x.
     ok_call (fx_add (pool_fx env) vault_shares x, s1)))"

text \<open>
  The part of a reward that is due to the vault with account \<open>acct\<close>: its shares, in its NFT
  and in the queue, over all shares. \<open>None\<close> where the source continues with the next vault.
\<close>

definition settled_stake ::
    "('acc, 'led, 'y) pool_env_scheme \<Rightarrow> 'acc base_pool \<Rightarrow> balance \<Rightarrow> 'acc \<Rightarrow>
     ('acc, 'led, 'z) base_pool_state_scheme \<Rightarrow>
     (balance option \<times> ('acc, 'led, 'z) base_pool_state_scheme) pool_call" where
  "settled_stake env p rewards acct s =
     (let fx = pool_fx env in
      bind_call (unwrap_call (merge_nft_for_staker env (bp_cid p) acct (bp_pid p) s)) (\<lambda>(maybe_nft_id, s1).
      case maybe_nft_id of
        None \<Rightarrow> ok_call (None, s1)
      | Some nft_id \<Rightarrow>
          bind_call (unwrap_call (peek_nft env (bp_cid p) nft_id s1)) (\<lambda>(attr, s2).
          bind_call (expect_call (to_fixed fx (attr_shares attr))) (\<lambda>own_shares.
          bind_call (fold_call (queued_shares env (bp_cid p))
                       (filter (\<lambda>wd. wd_user wd = acct) (withdraw_queue p)) (own_shares, s2)) (\<lambda>(vault_shares, s3).
          bind_call (expect_call (to_fixed fx (total_shares p))) (\<lambda>all_shares.
          case fx_checked_div fx vault_shares all_shares of
            None \<Rightarrow> ok_call (None, s3)
          | Some ratio \<Rightarrow>
              bind_call (expect_call (from_fixed fx ratio)) (\<lambda>stake_ratio.
              bind_call (expect_call (to_fixed fx rewards)) (\<lambda>rewards_fixed.
              bind_call (expect_call (bmul fx stake_ratio rewards_fixed)) (\<lambda>x.
              ok_call (Some x, s3))))))))))"

fun distribute_reward ::
    "('acc, 'led, 'y) pool_env_scheme \<Rightarrow> nat \<Rightarrow> balance \<Rightarrow> 'acc base_pool \<Rightarrow>
     ('acc, 'led, 'z) base_pool_state_scheme \<Rightarrow>
     ('acc base_pool \<times> ('acc, 'led, 'z) base_pool_state_scheme) pool_call" where
  "distribute_reward env 0 rewards p s = None"
| "distribute_reward env (Suc fuel) rewards p s =
     (let p1 = p\<lparr>total_value := total_value p + rewards\<rparr> in
      bind_call (fold_call (\<lambda>vault_staker s.
        bind_call (unwrap_call (Some (ensure_vault vault_staker s))) (\<lambda>vault.
        bind_call (settled_stake env p1 rewards (pool_account_id (v_basepool vault)) s) (\<lambda>(settled, s1).
        case settled of
          None \<Rightarrow> ok_call s1
        | Some x \<Rightarrow>
            bind_call (distribute_reward env fuel x (v_basepool vault) s1) (\<lambda>(bp, s2).
            ok_call (insert_pool vault_staker (ProxyVault (vault\<lparr>v_basepool := bp\<rparr>)) s2)))))
        (value_subscribers p1) s) (\<lambda>s'. ok_call (p1, s')))"

section \<open>Extrinsics\<close>

definition MAX_WHITELIST_LEN :: u32 where
  "MAX_WHITELIST_LEN = 100"

definition ensure_pool_owner ::
    "'acc raw_origin \<Rightarrow> u64 \<Rightarrow> ('acc, 'led, 'z) base_pool_state_scheme \<Rightarrow> pool_error dispatch_error + unit" where
  "ensure_pool_owner orig p s =
     bind_result (ensure_signed orig) (\<lambda>own.
     bind_result (ok_or (pools s p) (Module (Bp BpPoolDoesNotExist))) (\<lambda>proxy.
     ensure (bp_owner (proxy_basepool proxy) = own) (Module (Bp BpUnauthorizedPoolOwner))))"

definition add_staker_to_whitelist ::
    "'acc raw_origin \<Rightarrow> u64 \<Rightarrow> 'acc \<Rightarrow> ('acc, 'led, 'z) base_pool_state_scheme \<Rightarrow>
     pool_error dispatch_error + ('acc, 'led, 'z) base_pool_state_scheme" where
  "add_staker_to_whitelist orig p staker s =
     bind_result (ensure_pool_owner orig p s) (\<lambda>_.
     bind_result
       (case pool_contribution_whitelists s p of
          Some wl \<Rightarrow>
            bind_result (ensure (staker \<notin> set wl) (Module (Bp BpAlreadyInContributeWhitelist))) (\<lambda>_.
            bind_result (ensure ((of_nat (length wl) :: u32) < MAX_WHITELIST_LEN) (Module (Bp BpExceedWhitelistMaxLen))) (\<lambda>_.
            Inr (s\<lparr>pool_contribution_whitelists := (pool_contribution_whitelists s)(p \<mapsto> wl @ [staker])\<rparr>)))
        | None \<Rightarrow>
            Inr (bp_deposit (PoolWhitelistCreated p)
              (s\<lparr>pool_contribution_whitelists := (pool_contribution_whitelists s)(p \<mapsto> [staker])\<rparr>))) (\<lambda>s1.
     Inr (bp_deposit (PoolWhitelistStakerAdded p staker) s1)))"

definition set_pool_description ::
    "'acc raw_origin \<Rightarrow> u64 \<Rightarrow> bytes \<Rightarrow> ('acc, 'led, 'z) base_pool_state_scheme \<Rightarrow>
     pool_error dispatch_error + ('acc, 'led, 'z) base_pool_state_scheme" where
  "set_pool_description orig p description s =
     bind_result (ensure_pool_owner orig p s) (\<lambda>_.
     Inr (s\<lparr>pool_descriptions := (pool_descriptions s)(p \<mapsto> description)\<rparr>))"

definition remove_staker_from_whitelist ::
    "'acc raw_origin \<Rightarrow> u64 \<Rightarrow> 'acc \<Rightarrow> ('acc, 'led, 'z) base_pool_state_scheme \<Rightarrow>
     pool_error dispatch_error + ('acc, 'led, 'z) base_pool_state_scheme" where
  "remove_staker_from_whitelist orig p staker s =
     bind_result (ensure_pool_owner orig p s) (\<lambda>_.
     bind_result (ok_or (pool_contribution_whitelists s p) (Module (Bp BpNoWhitelistCreated))) (\<lambda>wl.
     bind_result (ensure (staker \<in> set wl) (Module (Bp BpNotInContributeWhitelist))) (\<lambda>_.
     let wl1 = filter (\<lambda>a. a \<noteq> staker) wl in
     if wl1 = [] then
       Inr (bp_deposit (PoolWhitelistDeleted p) (bp_deposit (PoolWhitelistStakerRemoved p staker)
         (s\<lparr>pool_contribution_whitelists := (pool_contribution_whitelists s)(p := None)\<rparr>)))
     else
       Inr (bp_deposit (PoolWhitelistStakerRemoved p staker)
         (s\<lparr>pool_contribution_whitelists := (pool_contribution_whitelists s)(p \<mapsto> wl1)\<rparr>)))))"

definition claim_reimbursement ::
    "('acc, 'bank) comp_env \<Rightarrow> 'acc raw_origin \<Rightarrow> u64 \<Rightarrow> 'acc \<Rightarrow> ('acc, 'led, 'z) base_pool_state_scheme \<Rightarrow>
     ('acc, 'bank) computation \<Rightarrow>
     pool_error dispatch_error + ('acc, 'led, 'z) base_pool_state_scheme \<times> ('acc, 'bank) computation" where
  "claim_reimbursement cenv orig p target s c =
     bind_result (ensure_signed orig) (\<lambda>who.
     bind_result (ok_or (reimbursements s (who, p)) (Module (Bp BpNoReimbursementToClaim))) (\<lambda>rewards.
     let s1 = s\<lparr>reimbursements := (reimbursements s)((who, p) := None)\<rparr> in
     case withdraw_subsidy_pool cenv target rewards c of
       Inl _ \<Rightarrow> Inl (Module (Bp BpInternalSubsidyPoolCannotWithdraw))
     | Inr c1 \<Rightarrow> Inr (s1, c1)))"

definition set_reimbursements ::
    "('acc, 'led, 'y) pool_env_scheme \<Rightarrow> 'acc raw_origin \<Rightarrow> ('acc \<times> u64 \<times> balance) list \<Rightarrow> bool \<Rightarrow>
     ('acc, 'led, 'z) base_pool_state_scheme \<Rightarrow>
     pool_error dispatch_error + ('acc, 'led, 'z) base_pool_state_scheme" where
  "set_reimbursements env orig input add s =
     bind_result (ensure_signed orig) (\<lambda>who.
     bind_result (ensure_migration_root env who) (\<lambda>_.
     Inr (fold (\<lambda>(account, p, b) s.
       let new_balance = (if add then (case reimbursements s (account, p) of None \<Rightarrow> 0 | Some x \<Rightarrow> x) + b else b)
       in s\<lparr>reimbursements := (reimbursements s)((account, p) \<mapsto> new_balance)\<rparr>) input s)))"

end
