(* ===== verification/Share_Accounting.thy ===== *)
theory Share_Accounting
  imports Base_Pool
begin

text \<open>
  The shares of a pool and the NFTs that hold them. The laws state what the NFT and asset
  pallets do to the owners and the properties of NFTs; \<open>issued\<close> sums the shares held by the
  NFTs of a collection. The lemmas give the effect of every operation of the base pool on
  this sum, and that the total of the pool moves with it.
\<close>

section \<open>The ledger\<close>

text \<open>
  \<open>own l c n\<close> is the owner of item \<open>n\<close> of collection \<open>c\<close>. Burning may leave properties of the
  burnt item behind; \<open>nft_remove_property\<close> may fail and change nothing.
\<close>

type_synonym ('acc, 'led) owner_map = "'led \<Rightarrow> u32 \<Rightarrow> u32 \<Rightarrow> 'acc option"

definition same_items :: "('acc, 'led, 'y) pool_env_scheme \<Rightarrow> ('acc, 'led) owner_map \<Rightarrow> 'led \<Rightarrow> 'led \<Rightarrow> bool" where
  "same_items env own l l' \<longleftrightarrow>
     own l' = own l \<and> (\<forall>c n key. nft_property env c n key l' = nft_property env c n key l)"

definition item_laws :: "('acc, 'led, 'y) pool_env_scheme \<Rightarrow> ('acc, 'led) owner_map \<Rightarrow> bool" where
  "item_laws env own \<longleftrightarrow>
     (\<forall>a c n l l'. nft_burn env a c n l = Some l' \<longrightarrow>
        own l' = (own l)(c := (own l c)(n := None)) \<and>
        (\<forall>d m key. (d, m) \<noteq> (c, n) \<longrightarrow> nft_property env d m key l' = nft_property env d m key l)) \<and>
     (\<forall>k b l. same_items env own l (nft_set_lock env k b l)) \<and>
     (\<forall>k l. same_items env own l (nft_lock_remove env k l)) \<and>
     (\<forall>c n key val l l'. nft_set_property env c n key val l = Some l' \<longrightarrow>
        own l' = own l \<and>
        (\<forall>d m k. nft_property env d m k l' =
           (if (d, m, k) = (c, n, key) then Some val else nft_property env d m k l))) \<and>
     (\<forall>c n key l. own (nft_remove_property env c n key l) = own l \<and>
        (\<forall>d m k. (d, m, k) \<noteq> (c, n, key) \<longrightarrow>
           nft_property env d m k (nft_remove_property env c n key l) = nft_property env d m k l)) \<and>
     (\<forall>a b amount l l'. asset_transfer env a b amount l = Some l' \<longrightarrow> same_items env own l l')"

definition ledger_laws :: "('acc, 'led, 'y) pool_env_scheme \<Rightarrow> ('acc, 'led) owner_map \<Rightarrow> bool" where
  "ledger_laws env own \<longleftrightarrow> item_laws env own \<and>
     (\<forall>c a l. distinct (owned_in_collection env c a l) \<and>
        set (owned_in_collection env c a l) = {n. own l c n = Some a}) \<and>
     (\<forall>i a n c l l'. nft_mint env i a n c l = Some l' \<longrightarrow>
        own l' = (own l)(c := (own l c)(n \<mapsto> a)) \<and>
        (\<forall>c n key. nft_property env c n key l' = nft_property env c n key l))"

definition shares_in :: "('acc, 'led, 'y) pool_env_scheme \<Rightarrow> 'led \<Rightarrow> u32 \<Rightarrow> u32 \<Rightarrow> nat" where
  "shares_in env l c n =
     (case nft_property env c n NFT_PROPERTY_KEY l of
        None \<Rightarrow> 0
      | Some bs \<Rightarrow> (case decode_attr bs of None \<Rightarrow> 0 | Some a \<Rightarrow> unat (attr_shares a)))"

definition items :: "('acc, 'led) owner_map \<Rightarrow> 'led \<Rightarrow> u32 \<Rightarrow> u32 set" where
  "items own l c = {n. own l c n \<noteq> None}"

definition issued :: "('acc, 'led, 'y) pool_env_scheme \<Rightarrow> ('acc, 'led) owner_map \<Rightarrow> 'led \<Rightarrow> u32 \<Rightarrow> nat" where
  "issued env own l c = (\<Sum>n\<in>items own l c. shares_in env l c n)"

section \<open>Encodings\<close>

lemma le_value_bytes: "le_value (map (\<lambda>i. ucast (drop_bit (8 * i) w)) [0..<n]) = take_bit (8 * n) (w :: 'a::len word)"
proof (induction n arbitrary: w)
  case 0
  then show ?case by simp
next
  case (Suc n)
  have split: "map (\<lambda>i. ucast (drop_bit (8 * i) w) :: u8) [0..<Suc n]
      = ucast w # map (\<lambda>i. ucast (drop_bit (8 * i) (drop_bit 8 w))) [0..<n]"
    by (subst upt_conv_Cons) (auto simp: map_Suc_upt [symmetric] add.commute simp del: upt_Suc)
  have "le_value (map (\<lambda>i. ucast (drop_bit (8 * i) w)) [0..<Suc n])
      = ucast (ucast w :: u8) + push_bit 8 (take_bit (8 * n) (drop_bit 8 w))"
    unfolding split by (simp only: le_value.simps Suc.IH)
  also have "\<dots> = take_bit 8 w + push_bit 8 (take_bit (8 * n) (drop_bit 8 w))"
    by (rule arg_cong2 [of _ _ _ _ plus]) (auto intro!: bit_word_eqI simp: bit_simps)
  also have "\<dots> = take_bit (8 * Suc n) w"
  proof -
    have "take_bit 8 w + push_bit 8 (take_bit (8 * n) (drop_bit 8 w))
        = or (take_bit 8 w) (push_bit 8 (take_bit (8 * n) (drop_bit 8 w)))"
      by (rule disjunctive_add) (auto simp: bit_simps)
    also have "\<dots> = take_bit (8 * Suc n) w"
      by (rule bit_word_eqI) (auto simp: bit_simps)
    finally show ?thesis .
  qed
  finally show ?case .
qed

lemma decode_encode_attr [simp]: "decode_attr (encode_attr a) = Some a"
proof -
  have "le_value (take 16 (le_bytes 16 (attr_shares a))) = attr_shares a"
    by (simp add: le_bytes_def take_map le_value_bytes take_bit_word_eq_self)
  then show ?thesis by (cases a) (simp add: decode_attr_def encode_attr_def le_bytes_def)
qed

section \<open>Effects of the NFT operations\<close>

lemma keys_distinct [simp]: "CREATETIME_KEY \<noteq> NFT_PROPERTY_KEY" "NFT_PROPERTY_KEY \<noteq> CREATETIME_KEY"
  by (simp_all add: CREATETIME_KEY_def NFT_PROPERTY_KEY_def)

lemma same_items_shares: "same_items env own l l' \<Longrightarrow> shares_in env l' = shares_in env l"
  by (simp add: same_items_def shares_in_def fun_eq_iff)

lemma on_ledger_iff [result_simps]:
  "on_ledger f s = Some (Inr s') \<longleftrightarrow> (\<exists>l. f (ledger s) = Some l \<and> s' = s\<lparr>ledger := l\<rparr>)"
  by (auto simp: on_ledger_def result_simps split: option.splits)

lemma bounded_key_iff [result_simps]:
  "bounded_key k key = Some x \<longleftrightarrow> length key \<le> k \<and> x = key"
  by (auto simp: bounded_key_def)

lemma bounded_iff [result_simps]:
  "bounded k bs = Some x \<longleftrightarrow> length bs \<le> k \<and> x = bs"
  by (auto simp: bounded_def)

text \<open>The laws, one by one.\<close>

lemma ledger_lawsD:
  assumes "ledger_laws env own"
  shows ledger_items: "item_laws env own"
    and ledger_distinct: "distinct (owned_in_collection env c a l)"
    and ledger_owned: "set (owned_in_collection env c a l) = {n. own l c n = Some a}"
    and ledger_mint: "nft_mint env i a n c l = Some l' \<Longrightarrow>
      own l' = (own l)(c := (own l c)(n \<mapsto> a)) \<and> shares_in env l' = shares_in env l"
  using assms by (simp_all add: ledger_laws_def shares_in_def fun_eq_iff)

lemma item_lawsD:
  assumes "item_laws env own"
  shows ledger_burn: "nft_burn env a c n l = Some l' \<Longrightarrow>
      own l' = (own l)(c := (own l c)(n := None)) \<and>
      (\<forall>d m. (d, m) \<noteq> (c, n) \<longrightarrow> shares_in env l' d m = shares_in env l d m)"
    and ledger_set_lock: "same_items env own l (nft_set_lock env (c, n) flag l)"
    and ledger_lock_remove: "same_items env own l (nft_lock_remove env (c, n) l)"
    and ledger_set_property: "nft_set_property env c n key val l = Some l' \<Longrightarrow>
      own l' = own l \<and> (\<forall>d m k. nft_property env d m k l' =
        (if (d, m, k) = (c, n, key) then Some val else nft_property env d m k l))"
    and ledger_remove_property: "own (nft_remove_property env c n key l) = own l"
      "(d, m, kk) \<noteq> (c, n, key) \<Longrightarrow>
        nft_property env d m kk (nft_remove_property env c n key l) = nft_property env d m kk l"
    and ledger_transfer: "asset_transfer env a a' amount l = Some l' \<Longrightarrow> same_items env own l l'"
  using assms by (simp_all add: item_laws_def shares_in_def fun_eq_iff)

lemma set_lock_effect:
  assumes "item_laws env own"
  shows "own (ledger (set_lock env c n b s)) = own (ledger s)"
    and "shares_in env (ledger (set_lock env c n b s)) = shares_in env (ledger s)"
    and "nft_property env d m k (ledger (set_lock env c n b s)) = nft_property env d m k (ledger s)"
  using ledger_set_lock [OF assms, of "ledger s" c n b]
  by (simp_all add: set_lock_def same_items_def shares_in_def fun_eq_iff)

text \<open>\<open>ledger_only\<close>: an operation changed nothing but the ledger.\<close>

definition ledger_only :: "('acc, 'led, 'z) base_pool_state_scheme \<Rightarrow> ('acc, 'led, 'z) base_pool_state_scheme \<Rightarrow> bool" where
  "ledger_only s s' \<longleftrightarrow> s' = s\<lparr>ledger := ledger s'\<rparr>"

lemma ledger_onlyI: "s' = s\<lparr>ledger := l\<rparr> \<Longrightarrow> ledger_only s s'"
  by (simp add: ledger_only_def)

lemma ledger_only_update [simp]: "ledger_only s (s\<lparr>ledger := l\<rparr>)"
  by (simp add: ledger_only_def)

lemma ledger_only_trans [trans]: "ledger_only s t \<Longrightarrow> ledger_only t u \<Longrightarrow> ledger_only s u"
  unfolding ledger_only_def by (metis base_pool_state.surjective base_pool_state.update_convs(10))

lemma ledger_only_set_lock [simp]: "ledger_only s (set_lock env c n b s)"
  by (simp add: set_lock_def)

lemma ledger_onlyD:
  assumes "ledger_only s s'"
  shows "next_nft_id s' = next_nft_id s" "nft_locks s' = nft_locks s" "pools s' = pools s"
    "pool_contribution_whitelists s' = pool_contribution_whitelists s" "pool_count s' = pool_count s"
    "bp_events s' = bp_events s" "base_pool_state.more s' = base_pool_state.more s"
    "pool_collections s' = pool_collections s" "collection_index s' = collection_index s"
  by (subst assms [unfolded ledger_only_def], simp)+

lemma set_nft_attr_effect:
  assumes laws: "item_laws env own" and "set_nft_attr env c n attr s = Some (Inr s')"
  shows "ledger_only s s'" and "own (ledger s') = own (ledger s)"
    and "shares_in env (ledger s') =
      (shares_in env (ledger s))(c := (shares_in env (ledger s) c)(n := unat (attr_shares attr)))"
proof -
  from assms(2) obtain l where
    l: "nft_set_property env c n NFT_PROPERTY_KEY (encode_attr attr) (ledger (set_lock env c n False s)) = Some l"
    and s': "s' = set_lock env c n True ((set_lock env c n False s)\<lparr>ledger := l\<rparr>)"
    by (auto simp: set_nft_attr_def result_simps)
  show "ledger_only s s'" by (simp add: s' set_lock_def)
  note p = ledger_set_property [OF laws l]
  show "own (ledger s') = own (ledger s)"
    using p by (simp add: s' set_lock_effect [OF laws])
  show "shares_in env (ledger s') =
      (shares_in env (ledger s))(c := (shares_in env (ledger s) c)(n := unat (attr_shares attr)))"
    using p by (simp add: s' set_lock_effect [OF laws] shares_in_def fun_eq_iff)
qed

lemma set_nft_desc_attr_effect:
  assumes laws: "item_laws env own" and "set_nft_desc_attr env c n s = Some (Inr s')"
  shows "ledger_only s s'" and "own (ledger s') = own (ledger s)"
    and "shares_in env (ledger s') = shares_in env (ledger s)"
proof -
  from assms(2) obtain l val where
    l: "nft_set_property env c n CREATETIME_KEY val (ledger (set_lock env c n False s)) = Some l"
    and s': "s' = set_lock env c n True ((set_lock env c n False s)\<lparr>ledger := l\<rparr>)"
    by (auto simp: set_nft_desc_attr_def Let_def result_simps)
  show "ledger_only s s'" by (simp add: s' set_lock_def)
  note p = ledger_set_property [OF laws l]
  show "own (ledger s') = own (ledger s)"
    using p by (simp add: s' set_lock_effect [OF laws])
  show "shares_in env (ledger s') = shares_in env (ledger s)"
    using p by (simp add: s' set_lock_effect [OF laws] shares_in_def fun_eq_iff)
qed

lemma burn_nft_effect:
  assumes laws: "item_laws env own" and "burn_nft env a c n s = Some (Inr s')"
  shows "ledger_only s s'"
    and "own (ledger s') = (own (ledger s))(c := (own (ledger s) c)(n := None))"
    and "(d, m) \<noteq> (c, n) \<Longrightarrow> shares_in env (ledger s') d m = shares_in env (ledger s) d m"
proof -
  from assms(2) obtain l where
    l: "nft_burn env a c n (ledger (set_lock env c n False s)) = Some l"
    and s': "s' = s\<lparr>ledger := nft_lock_remove env (c, n) (nft_remove_property env c n CREATETIME_KEY l)\<rparr>"
    by (auto simp: burn_nft_def remove_properties_def result_simps split: option.splits)
  note b = ledger_burn [OF laws l] and r = ledger_remove_property [OF laws]
  note k = ledger_lock_remove [OF laws, of "nft_remove_property env c n CREATETIME_KEY l" c n, unfolded same_items_def]
  show "ledger_only s s'" by (simp add: s')
  show "own (ledger s') = (own (ledger s))(c := (own (ledger s) c)(n := None))"
    using b k r(1) by (simp add: s' set_lock_effect [OF laws])
  show "shares_in env (ledger s') d m = shares_in env (ledger s) d m" if "(d, m) \<noteq> (c, n)"
  proof -
    have "shares_in env (ledger s') d m = shares_in env l d m"
      using k r(2) [of d m NFT_PROPERTY_KEY c n CREATETIME_KEY l] by (simp add: s' shares_in_def)
    also have "\<dots> = shares_in env (ledger s) d m"
      using b that by (simp add: set_lock_effect [OF laws])
    finally show ?thesis .
  qed
qed

text \<open>\<open>nft_only\<close>: an operation changed nothing but the ledger, the next item ids and the events.\<close>

definition nft_only :: "('acc, 'led, 'z) base_pool_state_scheme \<Rightarrow> ('acc, 'led, 'z) base_pool_state_scheme \<Rightarrow> bool" where
  "nft_only s s' \<longleftrightarrow> s' = s\<lparr>ledger := ledger s', next_nft_id := next_nft_id s', bp_events := bp_events s'\<rparr>"

lemma nft_only_refl [simp]: "nft_only s s"
  by (simp add: nft_only_def)

lemma nft_only_trans [trans]: "nft_only s t \<Longrightarrow> nft_only t u \<Longrightarrow> nft_only s u"
  unfolding nft_only_def by (cases s, cases t, cases u) simp

lemma ledger_only_nft: "ledger_only s s' \<Longrightarrow> nft_only s s'"
  unfolding nft_only_def ledger_only_def by (cases s, cases s') simp

lemma nft_onlyD:
  assumes "nft_only s s'"
  shows "nft_locks s' = nft_locks s" "pools s' = pools s"
    "pool_contribution_whitelists s' = pool_contribution_whitelists s" "pool_count s' = pool_count s"
    "base_pool_state.more s' = base_pool_state.more s"
    "pool_collections s' = pool_collections s" "collection_index s' = collection_index s"
  by (subst assms [unfolded nft_only_def], simp)+

lemma nft_only_deposit [simp]: "nft_only s (bp_deposit e s)"
  by (simp add: nft_only_def bp_deposit_def)

lemma mint_nft_effect:
  assumes laws: "ledger_laws env own" and "mint_nft env c a sh p s = Some (Inr (n, s'))"
  shows "nft_only s s'" and "n = next_nft_id s c" and "n \<noteq> - 1"
    and "next_nft_id s' = (next_nft_id s)(c := n + 1)"
    and "own (ledger s') = (own (ledger s))(c := (own (ledger s) c)(n \<mapsto> a))"
    and "shares_in env (ledger s') = (shares_in env (ledger s))(c := (shares_in env (ledger s) c)(n := unat sh))"
proof -
  note items = ledger_items [OF laws]
  from assms(2) obtain l s3 s4 where
    n: "n = next_nft_id s c" "next_nft_id s c \<noteq> - 1"
    and l: "nft_mint env (pallet_id env) a n c (ledger s) = Some l"
    and s3: "set_nft_attr env c n \<lparr>attr_shares = sh\<rparr>
        (s\<lparr>next_nft_id := (next_nft_id s)(c := n + 1), ledger := l\<rparr>) = Some (Inr s3)"
    and s4: "set_nft_desc_attr env c n s3 = Some (Inr s4)"
    and s': "s' = bp_deposit (NftCreated p c n a sh) (set_lock env c n True s4)"
    by (auto simp: mint_nft_def get_next_nft_id_def Let_def result_simps)
  note m = ledger_mint [OF laws l] and e3 = set_nft_attr_effect [OF items s3]
    and e4 = set_nft_desc_attr_effect [OF items s4]
  show "n = next_nft_id s c" "n \<noteq> - 1" using n by simp_all
  have "ledger_only (s\<lparr>next_nft_id := (next_nft_id s)(c := n + 1), ledger := l\<rparr>) (set_lock env c n True s4)"
    using e3(1) e4(1) ledger_only_set_lock by (blast intro: ledger_only_trans)
  then have u: "set_lock env c n True s4
      = s\<lparr>next_nft_id := (next_nft_id s)(c := n + 1), ledger := ledger (set_lock env c n True s4)\<rparr>"
    by (simp add: ledger_only_def)
  show "nft_only s s'"
    unfolding s' by (subst u) (simp add: nft_only_def bp_deposit_def)
  show "next_nft_id s' = (next_nft_id s)(c := n + 1)"
    unfolding s' by (subst u) (simp add: bp_deposit_def)
  show "own (ledger s') = (own (ledger s))(c := (own (ledger s) c)(n \<mapsto> a))"
    using m e3(2) e4(2) by (simp add: s' bp_deposit_def set_lock_effect [OF items])
  show "shares_in env (ledger s') = (shares_in env (ledger s))(c := (shares_in env (ledger s) c)(n := unat sh))"
    using m e3(3) e4(3) by (simp add: s' bp_deposit_def set_lock_effect [OF items])
qed

lemma get_nft_attr_shares:
  "get_nft_attr env c n s = Some (Inr attr) \<Longrightarrow> shares_in env (ledger s) c n = unat (attr_shares attr)"
  by (auto simp: get_nft_attr_def shares_in_def result_simps)

lemma get_nft_attr_guard_effect:
  assumes "get_nft_attr_guard env c n s = Some (Inr (attr, s'))"
  shows "s' = s\<lparr>nft_locks := insert (c, n) (nft_locks s)\<rparr>" and "(c, n) \<notin> nft_locks s"
    and "shares_in env (ledger s) c n = unat (attr_shares attr)"
  using assms by (auto simp: get_nft_attr_guard_def result_simps dest: get_nft_attr_shares)

lemma peek_nft_effect:
  assumes "peek_nft env c n s = Some (Inr (attr, s'))"
  shows "s' = s" and "(c, n) \<notin> nft_locks s" and "shares_in env (ledger s) c n = unat (attr_shares attr)"
proof -
  from assms obtain t where t: "get_nft_attr_guard env c n s = Some (Inr (attr, t))" and "s' = guard_drop c n t"
    by (auto simp: peek_nft_def result_simps)
  with get_nft_attr_guard_effect [OF t] show "s' = s" by (simp add: guard_drop_def)
  show "(c, n) \<notin> nft_locks s" "shares_in env (ledger s) c n = unat (attr_shares attr)"
    using get_nft_attr_guard_effect [OF t] by simp_all
qed

section \<open>The sum of the shares\<close>

lemma issued_cong:
  "own l' c = own l c \<Longrightarrow> shares_in env l' c = shares_in env l c \<Longrightarrow> issued env own l' c = issued env own l c"
  by (simp add: issued_def items_def)

lemma issued_remove: "own l c n \<noteq> None \<Longrightarrow>
  issued env own l c = shares_in env l c n + (\<Sum>m\<in>items own l c - {n}. shares_in env l c m)"
  unfolding issued_def by (rule sum.remove) (simp_all add: items_def)

lemma shares_le_issued: "own l c n \<noteq> None \<Longrightarrow> shares_in env l c n \<le> issued env own l c"
  by (simp add: issued_remove)

lemma issued_update:
  assumes "own l c n \<noteq> None" and "own l' = own l"
    and "shares_in env l' = (shares_in env l)(c := (shares_in env l c)(n := k))"
  shows "issued env own l' c + shares_in env l c n = issued env own l c + k"
proof -
  have "items own l' c = items own l c" using assms(2) by (simp add: items_def)
  moreover have "(\<Sum>m\<in>items own l c - {n}. shares_in env l' c m) = (\<Sum>m\<in>items own l c - {n}. shares_in env l c m)"
    using assms(3) by (intro sum.cong) simp_all
  ultimately show ?thesis
    using assms issued_remove [of own l c n env] issued_remove [of own l' c n env] by simp
qed

lemma issued_add:
  assumes "own l c n = None" and "own l' = (own l)(c := (own l c)(n \<mapsto> a))"
    and "shares_in env l' = (shares_in env l)(c := (shares_in env l c)(n := k))"
  shows "issued env own l' c = issued env own l c + k"
proof -
  have "items own l' c - {n} = items own l c" using assms(1,2) by (auto simp: items_def)
  moreover have "(\<Sum>m\<in>items own l c. shares_in env l' c m) = issued env own l c"
    unfolding issued_def using assms(1,3) by (intro sum.cong) (auto simp: items_def)
  ultimately show ?thesis using assms issued_remove [of own l' c n env] by simp
qed

lemma issued_drop:
  assumes "own l c n \<noteq> None" and "own l' = (own l)(c := (own l c)(n := None))"
    and "\<And>m. m \<noteq> n \<Longrightarrow> shares_in env l' c m = shares_in env l c m"
  shows "issued env own l' c + shares_in env l c n = issued env own l c"
proof -
  have "items own l' c = items own l c - {n}" using assms(2) by (auto simp: items_def)
  moreover have "issued env own l' c = (\<Sum>m\<in>items own l c - {n}. shares_in env l c m)"
    unfolding issued_def calculation using assms(3) by (intro sum.cong) simp_all
  ultimately show ?thesis using issued_remove [of own l c n env] assms(1) by simp
qed

text \<open>Item ids are handed out in order, so a new item does not replace one.\<close>

definition fresh_items :: "('acc, 'led) owner_map \<Rightarrow> ('acc, 'led, 'z) base_pool_state_scheme \<Rightarrow> bool" where
  "fresh_items own s \<longleftrightarrow> (\<forall>c n. own (ledger s) c n \<noteq> None \<longrightarrow> n < next_nft_id s c)"

text \<open>
  \<open>nft_delta env own c K k s s'\<close>: between \<open>s\<close> and \<open>s'\<close> the shares issued in collection \<open>c\<close>
  grew by \<open>k\<close>, the items in \<open>K\<close> and those of the other collections are untouched.
\<close>

definition nft_delta ::
    "('acc, 'led, 'y) pool_env_scheme \<Rightarrow> ('acc, 'led) owner_map \<Rightarrow> u32 \<Rightarrow> u32 set \<Rightarrow> int \<Rightarrow>
     ('acc, 'led, 'z) base_pool_state_scheme \<Rightarrow> ('acc, 'led, 'z) base_pool_state_scheme \<Rightarrow> bool" where
  "nft_delta env own c K k s s' \<longleftrightarrow>
     (\<forall>d. d \<noteq> c \<longrightarrow> own (ledger s') d = own (ledger s) d \<and> shares_in env (ledger s') d = shares_in env (ledger s) d) \<and>
     (\<forall>m\<in>K. own (ledger s) c m \<noteq> None \<longrightarrow>
        own (ledger s') c m = own (ledger s) c m \<and> shares_in env (ledger s') c m = shares_in env (ledger s) c m) \<and>
     int (issued env own (ledger s') c) = int (issued env own (ledger s) c) + k \<and>
     (fresh_items own s \<longrightarrow> fresh_items own s')"

lemma nft_deltaD:
  assumes "nft_delta env own c K k s s'"
  shows "d \<noteq> c \<Longrightarrow> own (ledger s') d = own (ledger s) d"
    and "d \<noteq> c \<Longrightarrow> shares_in env (ledger s') d = shares_in env (ledger s) d"
    and "m \<in> K \<Longrightarrow> own (ledger s) c m \<noteq> None \<Longrightarrow> own (ledger s') c m = own (ledger s) c m"
    and "m \<in> K \<Longrightarrow> own (ledger s) c m \<noteq> None \<Longrightarrow> shares_in env (ledger s') c m = shares_in env (ledger s) c m"
    and "int (issued env own (ledger s') c) = int (issued env own (ledger s) c) + k"
    and "fresh_items own s \<Longrightarrow> fresh_items own s'"
  using assms by (simp_all add: nft_delta_def)

lemma nft_delta_trans:
  assumes "nft_delta env own c K k s t" and "nft_delta env own c K' k' t u"
  shows "nft_delta env own c (K \<inter> K') (k + k') s u"
  using assms by (simp add: nft_delta_def)

lemma nft_delta_mono: "nft_delta env own c K k s t \<Longrightarrow> K' \<subseteq> K \<Longrightarrow> k = k' \<Longrightarrow> nft_delta env own c K' k' s t"
  by (auto simp: nft_delta_def)

lemma nft_delta_same:
  assumes "own (ledger s') = own (ledger s)" and "shares_in env (ledger s') = shares_in env (ledger s)"
    and "next_nft_id s' = next_nft_id s"
  shows "nft_delta env own c UNIV 0 s s'"
  using assms by (simp add: nft_delta_def fresh_items_def issued_def items_def)

lemma nft_delta_refl [simp]: "nft_delta env own c UNIV 0 s s"
  by (simp add: nft_delta_def)

lemma mint_nft_delta:
  assumes laws: "ledger_laws env own" and fresh: "fresh_items own s"
    and m: "mint_nft env c a sh p s = Some (Inr (n, s'))"
  shows "nft_delta env own c UNIV (uint sh) s s'"
    and "own (ledger s') c n = Some a" and "own (ledger s) c n = None"
proof -
  note e = mint_nft_effect [OF laws m]
  show none: "own (ledger s) c n = None" using fresh e(2) unfolding fresh_items_def by (metis less_irrefl)
  show "own (ledger s') c n = Some a" using e(5) by simp
  have "fresh_items own s'"
    unfolding fresh_items_def
  proof (intro allI impI)
    fix d x assume "own (ledger s') d x \<noteq> None"
    with e(5) have "(d = c \<and> x = n) \<or> own (ledger s) d x \<noteq> None" by (auto split: if_splits)
    moreover have "n < n + 1" using unat_inc [OF e(3)] by (simp add: word_less_nat_alt)
    ultimately show "x < next_nft_id s' d"
      using fresh e(2,4) by (auto simp: fresh_items_def dest: less_trans)
  qed
  moreover have "issued env own (ledger s') c = issued env own (ledger s) c + unat sh"
    by (rule issued_add [OF none e(5,6)])
  moreover have "own (ledger s) c x \<noteq> None \<Longrightarrow> x \<noteq> n" for x using none by auto
  ultimately show "nft_delta env own c UNIV (uint sh) s s'"
    using e(5,6) by (auto simp: nft_delta_def)
qed

lemma burn_nft_delta:
  assumes laws: "item_laws env own" and live: "own (ledger s) c n \<noteq> None"
    and b: "burn_nft env a c n s = Some (Inr s')"
  shows "nft_delta env own c (- {n}) (- int (shares_in env (ledger s) c n)) s s'"
    and "own (ledger s') c n = None"
proof -
  note e = burn_nft_effect [OF laws b]
  have "issued env own (ledger s') c + shares_in env (ledger s) c n = issued env own (ledger s) c"
    by (rule issued_drop [where own = own and n = n]) (simp_all add: live e)
  moreover have "fresh_items own s \<longrightarrow> fresh_items own s'"
    using e(2) ledger_onlyD(1) [OF e(1)] by (auto simp: fresh_items_def split: if_splits)
  moreover have "shares_in env (ledger s') d = shares_in env (ledger s) d" if "d \<noteq> c" for d
    using e(3) that by (simp add: fun_eq_iff)
  ultimately show "nft_delta env own c (- {n}) (- int (shares_in env (ledger s) c n)) s s'"
    using e(2,3) by (auto simp: nft_delta_def)
  show "own (ledger s') c n = None" using e(2) by simp
qed

lemma set_nft_attr_delta:
  assumes laws: "item_laws env own" and live: "own (ledger s) c n \<noteq> None"
    and b: "set_nft_attr env c n attr s = Some (Inr s')"
  shows "nft_delta env own c (- {n}) (uint (attr_shares attr) - int (shares_in env (ledger s) c n)) s s'"
proof -
  note e = set_nft_attr_effect [OF laws b]
  have "issued env own (ledger s') c + shares_in env (ledger s) c n = issued env own (ledger s) c + unat (attr_shares attr)"
    by (rule issued_update [OF live e(2,3)])
  from arg_cong [OF this, of int] show ?thesis
    using e(2,3) ledger_onlyD(1) [OF e(1)] by (auto simp: nft_delta_def fresh_items_def)
qed

lemma asset_move_effect:
  assumes "item_laws env own" and "asset_move env a b x s = Some (Inr s')"
  shows "ledger_only s s'" and "nft_delta env own c UNIV 0 s s'"
    and "own (ledger s') = own (ledger s)" and "shares_in env (ledger s') = shares_in env (ledger s)"
proof -
  from assms(2) obtain l where l: "asset_transfer env a b x (ledger s) = Some l" and s': "s' = s\<lparr>ledger := l\<rparr>"
    by (auto simp: asset_move_def result_simps)
  note t = ledger_transfer [OF assms(1) l]
  then show o: "own (ledger s') = own (ledger s)" by (simp add: s' same_items_def)
  show sh: "shares_in env (ledger s') = shares_in env (ledger s)" using same_items_shares [OF t] by (simp add: s')
  show "ledger_only s s'" by (simp add: s')
  show "nft_delta env own c UNIV 0 s s'" by (rule nft_delta_same [OF o sh]) (simp add: s')
qed

section \<open>Merging\<close>

lemma unat_add_bounded: "unat x + unat y < 2 ^ LENGTH('a) \<Longrightarrow> unat (x + y :: 'a::len word) = unat x + unat y"
  by (simp add: unat_add_lem)

lemma merge_fold_effect:
  assumes laws: "item_laws env own"
    and "fold_call (merge_one env c a) xs (t, s) = Some (Inr (t', s'))"
    and "distinct xs" and "\<forall>n\<in>set xs. own (ledger s) c n \<noteq> None"
    and "unat t + issued env own (ledger s) c < 2 ^ 128"
  shows "ledger_only s s' \<and> nft_delta env own c (- set xs) (uint t - uint t') s s' \<and>
         (\<forall>m. own (ledger s') c m = (if m \<in> set xs then None else own (ledger s) c m))"
  using assms(2-)
proof (induction xs arbitrary: t s)
  case Nil
  then show ?case by (simp add: result_simps ledger_only_def)
next
  case (Cons n xs)
  from Cons.prems(1) obtain attr s1 s2 where pk: "peek_nft env c n s = Some (Inr (attr, s1))"
    and b: "burn_nft env a c n s1 = Some (Inr s2)"
    and rest: "fold_call (merge_one env c a) xs (t + attr_shares attr, s2) = Some (Inr (t', s'))"
    by (auto simp: result_simps)
  have s1: "s1 = s" and sh: "shares_in env (ledger s) c n = unat (attr_shares attr)"
    using peek_nft_effect [OF pk] by simp_all
  have live: "own (ledger s) c n \<noteq> None" using Cons.prems(3) by simp
  note d = burn_nft_delta [OF laws live b [unfolded s1]] and e = burn_nft_effect [OF laws b [unfolded s1]]
  have sum: "int (issued env own (ledger s2) c) + uint (attr_shares attr) = int (issued env own (ledger s) c)"
    using nft_deltaD(5) [OF d(1)] sh by simp
  then have "int (issued env own (ledger s2) c + unat (attr_shares attr)) = int (issued env own (ledger s) c)"
    by simp
  then have sum': "issued env own (ledger s2) c + unat (attr_shares attr) = issued env own (ledger s) c"
    by (simp only: of_nat_eq_iff)
  have t: "unat (t + attr_shares attr) = unat t + unat (attr_shares attr)"
    using Cons.prems(4) sum' by (intro unat_add_bounded) simp
  have owns: "\<forall>m\<in>set xs. own (ledger s2) c m \<noteq> None"
    using Cons.prems(2,3) e(2) by auto
  have "unat (t + attr_shares attr) + issued env own (ledger s2) c < 2 ^ 128"
    using Cons.prems(4) sum' t by simp
  from Cons.IH [OF rest _ owns this] Cons.prems(2)
  have ih: "ledger_only s2 s'" "nft_delta env own c (- set xs) (uint (t + attr_shares attr) - uint t') s2 s'"
    "\<forall>m. own (ledger s') c m = (if m \<in> set xs then None else own (ledger s2) c m)" by simp_all
  have "nft_delta env own c (- set (n # xs)) (uint t - uint t') s s'"
  proof (rule nft_delta_mono [OF nft_delta_trans [OF d(1) ih(2)]])
    show "- int (shares_in env (ledger s) c n) + (uint (t + attr_shares attr) - uint t') = uint t - uint t'"
      using arg_cong [OF t, of int] sh by simp
  qed auto
  with ih e show ?case by (auto intro: ledger_only_trans)
qed

lemma merge_nft_effect:
  assumes laws: "ledger_laws env own" and fresh: "fresh_items own s"
    and bound: "issued env own (ledger s) c < 2 ^ 128"
    and m: "merge_nft_for_staker env c a p s = Some (Inr (r, s'))"
  shows "nft_only s s'" and "nft_delta env own c {n. own (ledger s) c n \<noteq> Some a} 0 s s'"
    and "r = Some n \<Longrightarrow> own (ledger s') c n = Some a"
proof -
  let ?ns = "owned_in_collection env c a (ledger s)"
  have owned: "set ?ns = {n. own (ledger s) c n = Some a}" "distinct ?ns"
    using ledger_owned [OF laws] ledger_distinct [OF laws] by blast+
  have "nft_only s s' \<and> nft_delta env own c {n. own (ledger s) c n \<noteq> Some a} 0 s s' \<and>
        (\<forall>n. r = Some n \<longrightarrow> own (ledger s') c n = Some a)"
  proof (cases "\<exists>x y zs. ?ns = x # y # zs")
    case False
    then consider "?ns = []" | x where "?ns = [x]" by (metis list.exhaust)
    then show ?thesis
    proof cases
      case 1
      with m have "r = None" "s' = s" by (simp_all add: merge_nft_for_staker_def result_simps)
      then show ?thesis using nft_delta_mono [OF nft_delta_refl [of env own c s]] by auto
    next
      case 2
      with m have "r = Some x" "s' = s" by (simp_all add: merge_nft_for_staker_def result_simps)
      moreover have "own (ledger s) c x = Some a" using owned 2 by auto
      ultimately show ?thesis using nft_delta_mono [OF nft_delta_refl [of env own c s]] by auto
    qed
  next
    case True
    with m obtain t s1 x where f: "fold_call (merge_one env c a) ?ns (0, s) = Some (Inr (t, s1))"
      and mi: "mint_nft env c a t p s1 = Some (Inr (x, s'))" and r: "r = Some x"
      by (auto simp: merge_nft_for_staker_def result_simps simp del: fold_call.simps)
    have fold: "ledger_only s s1" "nft_delta env own c (- set ?ns) (uint (0 :: balance) - uint t) s s1"
      using merge_fold_effect [OF ledger_items [OF laws] f owned(2)] owned(1) bound by auto
    note mint = mint_nft_delta [OF laws nft_deltaD(6) [OF fold(2) fresh] mi]
    have "nft_delta env own c {n. own (ledger s) c n \<noteq> Some a} 0 s s'"
      by (rule nft_delta_mono [OF nft_delta_trans [OF fold(2) mint(1)]]) (auto simp: owned)
    moreover have "nft_only s s'"
      using ledger_only_nft [OF fold(1)] mint_nft_effect(1) [OF laws mi] by (rule nft_only_trans)
    ultimately show ?thesis using mint(2) r by simp
  qed
  then show "nft_only s s'" "nft_delta env own c {n. own (ledger s) c n \<noteq> Some a} 0 s s'"
    "r = Some n \<Longrightarrow> own (ledger s') c n = Some a" by simp_all
qed

section \<open>Leaving an item out\<close>

text \<open>
  While a guard holds an attribute in memory, the stored shares of its item are stale. The
  books then balance over the other items: \<open>mask c n own\<close> hides item \<open>n\<close> of collection \<open>c\<close>.
\<close>

definition mask :: "u32 \<Rightarrow> u32 \<Rightarrow> ('acc, 'led) owner_map \<Rightarrow> ('acc, 'led) owner_map" where
  "mask c n own l d m = (if d = c \<and> m = n then None else own l d m)"

lemma mask_other [simp]: "d \<noteq> c \<or> m \<noteq> n \<Longrightarrow> mask c n own l d m = own l d m"
  by (auto simp: mask_def)

lemma mask_self [simp]: "mask c n own l c n = None"
  by (simp add: mask_def)

lemma mask_cong: "own l' = own l \<Longrightarrow> mask c n own l' = mask c n own l"
  by (simp add: mask_def fun_eq_iff)

lemma item_laws_mask:
  assumes "item_laws env own"
  shows "item_laws env (mask c n own)"
proof -
  have burn: "mask c n own l' = (mask c n own l)(d := (mask c n own l d)(m := None))"
    if "own l' = (own l)(d := (own l d)(m := None))" for l l' d m
    using that by (auto simp: mask_def fun_eq_iff)
  have same: "same_items env own l l' \<Longrightarrow> same_items env (mask c n own) l l'" for l l'
    by (auto simp: same_items_def intro: mask_cong)
  show ?thesis
    using assms unfolding item_laws_def
    by (intro conjI allI impI) (auto intro: burn same mask_cong)
qed

lemma issued_mask:
  "own l c n \<noteq> None \<Longrightarrow> issued env own l c = issued env (mask c n own) l c + shares_in env l c n"
proof -
  assume live: "own l c n \<noteq> None"
  have "items (mask c n own) l c = items own l c - {n}"
    by (auto simp: items_def mask_def)
  then show ?thesis using issued_remove [of own l c n env, OF live] by (simp add: issued_def)
qed

lemma fresh_items_mask: "fresh_items own s \<Longrightarrow> fresh_items (mask c n own) s"
  by (auto simp: fresh_items_def mask_def split: if_splits)

end
