(* ===== verification/Fixed_Laws.thy ===== *)
theory Fixed_Laws
  imports Fixed_Point
begin

text \<open>
  What the conversions of \<^verbatim>\<open>balance_convert.rs\<close> compute, from the documented behaviour of the
  crate \<^verbatim>\<open>fixed\<close>: conversions between formats shift the bits and panic when the value does
  not fit, products and quotients round down. \<open>fixed_of\<close> and \<open>balance_of\<close> are the two
  conversions on natural numbers.
\<close>

definition fixed_laws :: "fixed_ops \<Rightarrow> bool" where
  "fixed_laws fx \<longleftrightarrow>
     (\<forall>b. u80f48_from_u128 fx b = (if unat b < 2 ^ 80 then Some (of_nat (unat b * 2 ^ 48)) else None)) \<and>
     (\<forall>x y. y \<noteq> 0 \<longrightarrow> u80f48_div_int fx x y = Some (x div y)) \<and>
     (\<forall>x y. u80f48_mul_int fx x y = (if unat x * unat y < 2 ^ 128 then Some (x * y) else None)) \<and>
     (\<forall>x. u80f48_to_u128 fx x = of_nat (unat x div 2 ^ 48)) \<and>
     (\<forall>x. u64f64_from_u80f48 fx x = (if unat x < 2 ^ 112 then Some (of_nat (unat x * 2 ^ 16)) else None)) \<and>
     (\<forall>v. u80f48_from_u64f64 fx v = Some (of_nat (unat v div 2 ^ 16))) \<and>
     (\<forall>a b. unat a * unat b div 2 ^ 64 < 2 ^ 128 \<longrightarrow> fx_mul fx a b = of_nat (unat a * unat b div 2 ^ 64)) \<and>
     (\<forall>a b. b \<noteq> 0 \<longrightarrow> unat a * 2 ^ 64 div unat b < 2 ^ 128 \<longrightarrow>
        fx_div fx a b = of_nat (unat a * 2 ^ 64 div unat b)) \<and>
     (\<forall>a b. fx_checked_div fx a b =
        (if b = 0 \<or> unat a * 2 ^ 64 div unat b \<ge> 2 ^ 128 then None
         else Some (of_nat (unat a * 2 ^ 64 div unat b)))) \<and>
     fx_decimal fx 0 0 = 0"

definition fixed_of :: "nat \<Rightarrow> nat" where
  "fixed_of b = b * 2 ^ 48 div 10 ^ 12 * 2 ^ 16"

definition balance_of :: "nat \<Rightarrow> nat" where
  "balance_of v = v div 2 ^ 16 * 10 ^ 12 div 2 ^ 48"

lemma fixed_lawsD:
  assumes "fixed_laws fx"
  shows "u80f48_from_u128 fx b = (if unat b < 2 ^ 80 then Some (of_nat (unat b * 2 ^ 48)) else None)"
    and "y \<noteq> 0 \<Longrightarrow> u80f48_div_int fx x y = Some (x div y)"
    and "u80f48_mul_int fx x y = (if unat x * unat y < 2 ^ 128 then Some (x * y) else None)"
    and "u80f48_to_u128 fx x = of_nat (unat x div 2 ^ 48)"
    and "u64f64_from_u80f48 fx x = (if unat x < 2 ^ 112 then Some (of_nat (unat x * 2 ^ 16)) else None)"
    and "u80f48_from_u64f64 fx v = Some (of_nat (unat v div 2 ^ 16))"
    and "unat f * unat g div 2 ^ 64 < 2 ^ 128 \<Longrightarrow> fx_mul fx f g = of_nat (unat f * unat g div 2 ^ 64)"
    and "g \<noteq> 0 \<Longrightarrow> unat f * 2 ^ 64 div unat g < 2 ^ 128 \<Longrightarrow> fx_div fx f g = of_nat (unat f * 2 ^ 64 div unat g)"
    and "fx_checked_div fx f g =
        (if g = 0 \<or> unat f * 2 ^ 64 div unat g \<ge> 2 ^ 128 then None
         else Some (of_nat (unat f * 2 ^ 64 div unat g)))"
    and "fx_decimal fx 0 0 = 0"
  using assms unfolding fixed_laws_def by blast+

lemma unat_less: "unat (x :: 'a::len word) < 2 ^ LENGTH('a)"
  by (rule unsigned_less)

lemma unat_of_nat_small: "n < 2 ^ LENGTH('a) \<Longrightarrow> unat (of_nat n :: 'a::len word) = n"
  by (simp add: unat_of_nat take_bit_nat_eq_self)

lemma unat_PHA: "unat PHA = 10 ^ 12" "PHA \<noteq> 0"
  by (simp_all add: PHA_def)

lemma to_fixed_eq:
  assumes "fixed_laws fx"
  shows "to_fixed fx b = (if unat b < 2 ^ 80 then Some (of_nat (fixed_of (unat b))) else None)"
proof (cases "unat b < 2 ^ 80")
  case False
  then show ?thesis by (simp add: to_fixed_def fixed_lawsD(1) [OF assms])
next
  case True
  let ?x = "of_nat (unat b * 2 ^ 48) :: u128"
  have x: "unat ?x = unat b * 2 ^ 48" using True by (intro unat_of_nat_small) simp
  have q: "unat (?x div PHA) = unat b * 2 ^ 48 div 10 ^ 12"
    by (simp only: unat_div_distrib x unat_PHA(1))
  have "unat b * 2 ^ 48 div 10 ^ 12 < 2 ^ 112" using True by (simp add: div_less_iff_less_mult)
  then show ?thesis
    using True q unat_PHA(2) by (simp add: to_fixed_def fixed_lawsD [OF assms] fixed_of_def)
qed

lemma from_fixed_eq:
  assumes "fixed_laws fx"
  shows "from_fixed fx v =
    (if unat v div 2 ^ 16 * 10 ^ 12 < 2 ^ 128 then Some (of_nat (balance_of (unat v))) else None)"
proof -
  let ?x = "of_nat (unat v div 2 ^ 16) :: u128"
  have "unat v div 2 ^ 16 < 2 ^ 128" using unat_less [of v] by (simp add: div_less_iff_less_mult)
  then have x: "unat ?x = unat v div 2 ^ 16" by (intro unat_of_nat_small) simp
  show ?thesis
  proof (cases "unat v div 2 ^ 16 * 10 ^ 12 < 2 ^ 128")
    case True
    then have "unat (?x * PHA) = unat v div 2 ^ 16 * 10 ^ 12"
      using x unat_PHA(1) by (simp add: unat_mult_lem [THEN iffD1])
    then show ?thesis
      using True x unat_PHA(1) by (simp add: from_fixed_def fixed_lawsD [OF assms] balance_of_def)
  next
    case False
    then show ?thesis using x unat_PHA(1) by (simp add: from_fixed_def fixed_lawsD [OF assms])
  qed
qed

section \<open>Rounding\<close>

lemma fixed_of_mono: "a \<le> b \<Longrightarrow> fixed_of a \<le> fixed_of b"
  unfolding fixed_of_def by (intro mult_le_mono1 div_le_mono) simp

lemma balance_of_mono: "a \<le> b \<Longrightarrow> balance_of a \<le> balance_of b"
  unfolding balance_of_def by (intro div_le_mono mult_le_mono1)

lemma fixed_of_0 [simp]: "fixed_of 0 = 0" and balance_of_0 [simp]: "balance_of 0 = 0"
  by (simp_all add: fixed_of_def balance_of_def)

lemma balance_of_fixed_of_le: "balance_of (fixed_of b) \<le> b"
proof -
  have "b * 2 ^ 48 div 10 ^ 12 * 10 ^ 12 div 2 ^ 48 \<le> b * 2 ^ 48 div (2 ^ 48 :: nat)"
    by (intro div_le_mono div_times_less_eq_dividend)
  then show ?thesis by (simp add: balance_of_def fixed_of_def)
qed

lemma balance_of_fixed_of_ge: "b \<le> Suc (balance_of (fixed_of b))"
proof (cases b)
  case (Suc a)
  let ?q = "b * 2 ^ 48 div 10 ^ 12 :: nat"
  have "b * 2 ^ 48 < ?q * 10 ^ 12 + 10 ^ 12"
    by (metis div_mult_mod_eq add_less_cancel_left mod_less_divisor zero_less_numeral zero_less_power)
  then have "a * 2 ^ 48 \<le> ?q * 10 ^ 12" using Suc by simp
  then have "a * 2 ^ 48 div 2 ^ 48 \<le> ?q * 10 ^ 12 div (2 ^ 48 :: nat)" by (rule div_le_mono)
  then have "a \<le> ?q * 10 ^ 12 div 2 ^ 48" by simp
  then show ?thesis using Suc by (simp add: balance_of_def fixed_of_def)
qed simp

lemma balance_of_fixed_of_exact: "5 ^ 12 dvd b \<Longrightarrow> balance_of (fixed_of b) = b"
proof -
  assume "5 ^ 12 dvd b"
  then obtain k where "b = 5 ^ 12 * k" by (rule dvdE)
  then show ?thesis by (simp add: balance_of_def fixed_of_def)
qed

lemma fixed_of_balance_of_le: "fixed_of (balance_of v) \<le> v"
proof -
  have "v div 2 ^ 16 * 10 ^ 12 div 2 ^ 48 * 2 ^ 48 div 10 ^ 12 \<le> v div 2 ^ 16 * 10 ^ 12 div (10 ^ 12 :: nat)"
    by (intro div_le_mono div_times_less_eq_dividend)
  then have "v div 2 ^ 16 * 10 ^ 12 div 2 ^ 48 * 2 ^ 48 div 10 ^ 12 * 2 ^ 16 \<le> v div 2 ^ 16 * 2 ^ 16"
    by (intro mult_le_mono1) simp
  also have "\<dots> \<le> v" by (rule div_times_less_eq_dividend)
  finally show ?thesis by (simp add: fixed_of_def balance_of_def)
qed

section \<open>Products and quotients of balances\<close>

lemma fixed_of_less: "b < 2 ^ 80 \<Longrightarrow> fixed_of b < 2 ^ 105"
  unfolding fixed_of_def
proof -
  assume b: "b < 2 ^ 80"
  then have "b * 2 ^ 48 div 10 ^ 12 < 2 ^ 89" by (simp add: div_less_iff_less_mult)
  then show "b * 2 ^ 48 div 10 ^ 12 * 2 ^ 16 < (2 ^ 105 :: nat)" by simp
qed

lemma unat_fixed_of: "b < 2 ^ 80 \<Longrightarrow> unat (of_nat (fixed_of b) :: u128) = fixed_of b"
  using fixed_of_less [of b] by (intro unat_of_nat_small) simp

lemma bmul_Some:
  assumes laws: "fixed_laws fx" and r: "bmul fx b price = Some r"
    and small: "fixed_of (unat b) * unat price div 2 ^ 64 < 2 ^ 128"
  shows "unat r = balance_of (fixed_of (unat b) * unat price div 2 ^ 64)"
proof -
  let ?m = "fixed_of (unat b) * unat price div 2 ^ 64"
  from r have b: "unat b < 2 ^ 80"
    by (auto simp: bmul_def to_fixed_eq [OF laws] split: if_splits option.splits)
  note u = unat_fixed_of [OF b]
  have m: "fx_mul fx (of_nat (fixed_of (unat b))) price = of_nat ?m"
    using fixed_lawsD(7) [OF laws, of "of_nat (fixed_of (unat b))" price] small u by simp
  have um: "unat (of_nat ?m :: u128) = ?m" using small by (intro unat_of_nat_small) simp
  from r b m have "from_fixed fx (of_nat ?m) = Some r" by (simp add: bmul_def to_fixed_eq [OF laws])
  then have lt: "?m div 2 ^ 16 * 10 ^ 12 < 2 ^ 128" and r': "r = of_nat (balance_of ?m)"
    unfolding from_fixed_eq [OF laws] um by (auto split: if_splits)
  have "balance_of ?m < 2 ^ 128" unfolding balance_of_def using lt by (simp add: div_less_iff_less_mult)
  then show ?thesis unfolding r' by (intro unat_of_nat_small) simp
qed

lemma bdiv_Some:
  assumes laws: "fixed_laws fx" and r: "bdiv fx b price = Some r" and nz: "price \<noteq> 0"
    and small: "fixed_of (unat b) * 2 ^ 64 div unat price < 2 ^ 128"
  shows "unat r = balance_of (fixed_of (unat b) * 2 ^ 64 div unat price)" and "unat r < 2 ^ 80"
proof -
  let ?m = "fixed_of (unat b) * 2 ^ 64 div unat price"
  from r have b: "unat b < 2 ^ 80"
    by (auto simp: bdiv_def to_fixed_eq [OF laws] split: if_splits option.splits)
  note u = unat_fixed_of [OF b]
  have m: "fx_div fx (of_nat (fixed_of (unat b))) price = of_nat ?m"
    using fixed_lawsD(8) [OF laws nz, of "of_nat (fixed_of (unat b))"] small u by simp
  have um: "unat (of_nat ?m :: u128) = ?m" using small by (intro unat_of_nat_small) simp
  from r b m have "from_fixed fx (of_nat ?m) = Some r" by (simp add: bdiv_def to_fixed_eq [OF laws])
  then have lt: "?m div 2 ^ 16 * 10 ^ 12 < 2 ^ 128" and r': "r = of_nat (balance_of ?m)"
    unfolding from_fixed_eq [OF laws] um by (auto split: if_splits)
  have small': "balance_of ?m < 2 ^ 80" unfolding balance_of_def using lt by (simp add: div_less_iff_less_mult)
  show "unat r = balance_of ?m" unfolding r' using small' by (intro unat_of_nat_small) simp
  with small' show "unat r < 2 ^ 80" by simp
qed

text \<open>Dividing by a price and multiplying again never gains.\<close>

lemma bmul_bdiv_le:
  assumes laws: "fixed_laws fx" and d: "bdiv fx x price = Some y" and m: "bmul fx y price = Some z"
    and nz: "price \<noteq> 0" and small: "fixed_of (unat x) * 2 ^ 64 div unat price < 2 ^ 128"
  shows "z \<le> x"
proof -
  let ?q = "fixed_of (unat x) * 2 ^ 64 div unat price"
  have y: "unat y = balance_of ?q" using bdiv_Some(1) [OF laws d nz small] .
  have "fixed_of (unat y) * unat price \<le> ?q * unat price"
    unfolding y by (intro mult_le_mono1 fixed_of_balance_of_le)
  also have "\<dots> \<le> fixed_of (unat x) * 2 ^ 64" by (rule div_times_less_eq_dividend)
  finally have le: "fixed_of (unat y) * unat price div 2 ^ 64 \<le> fixed_of (unat x)"
    using div_le_mono [of _ _ "2 ^ 64"] by fastforce
  have "unat x < 2 ^ 80" using d by (auto simp: bdiv_def to_fixed_eq [OF laws] split: if_splits option.splits)
  from fixed_of_less [OF this] le have "fixed_of (unat y) * unat price div 2 ^ 64 < 2 ^ 128" by simp
  from bmul_Some [OF laws m this] le
  have "unat z \<le> balance_of (fixed_of (unat x))" by (simp add: balance_of_mono)
  also have "\<dots> \<le> unat x" by (rule balance_of_fixed_of_le)
  finally show ?thesis by (simp add: word_le_nat_alt)
qed

text \<open>A quotient is positive when the price is at most half the dividend.\<close>

lemma bdiv_positive:
  assumes laws: "fixed_laws fx" and r: "bdiv fx b price = Some r"
    and lo: "2 ^ 41 \<le> unat price" and hi: "unat price \<le> unat k * 2 ^ 63" and k: "k < b"
  shows "r \<noteq> 0"
proof -
  have b: "unat b < 2 ^ 80" using r by (auto simp: bdiv_def to_fixed_eq [OF laws] split: if_splits option.splits)
  have kb: "unat k < unat b" using k by (simp add: word_less_nat_alt)
  have nz: "price \<noteq> 0" using lo by auto
  have F: "fixed_of (unat b) * 2 ^ 64 < 2 ^ 169" using fixed_of_less [OF b] by simp
  also have "(2 :: nat) ^ 169 \<le> 2 ^ 128 * unat price" using lo by simp
  finally have small: "fixed_of (unat b) * 2 ^ 64 div unat price < 2 ^ 128"
    using lo by (simp add: div_less_iff_less_mult)
  have "141 * unat k * 10 ^ 12 \<le> unat b * 2 ^ 48" using kb by simp
  then have "141 * unat k \<le> unat b * 2 ^ 48 div 10 ^ 12" by (simp add: less_eq_div_iff_mult_less_eq)
  then have "282 * 2 ^ 16 * unat price \<le> fixed_of (unat b) * 2 ^ 64"
    unfolding fixed_of_def using hi by simp
  then have "282 * 2 ^ 16 \<le> fixed_of (unat b) * 2 ^ 64 div unat price"
    using lo by (simp add: less_eq_div_iff_mult_less_eq)
  from balance_of_mono [OF this] have "0 < balance_of (fixed_of (unat b) * 2 ^ 64 div unat price)"
    by (simp add: balance_of_def)
  with bdiv_Some(1) [OF laws r nz small] show ?thesis by (metis less_irrefl unat_0)
qed

lemma bmul_0: "fixed_laws fx \<Longrightarrow> bmul fx 0 price = Some r \<Longrightarrow> r = 0"
  using bmul_Some [of fx 0 price r] by (simp add: unat_eq_zero)

section \<open>The crate's arithmetic\<close>

text \<open>An instance of the laws, for concrete inputs.\<close>

definition fixed_std :: fixed_ops where
  "fixed_std =
     \<lparr>fx_from_u32 = (\<lambda>x. of_nat (unat x * 2 ^ 64)),
      fx_decimal = (\<lambda>n d. of_nat (n * 2 ^ 64 div 10 ^ d)),
      fx_add = (\<lambda>a b. a + b), fx_sub = (\<lambda>a b. a - b),
      fx_mul = (\<lambda>a b. of_nat (unat a * unat b div 2 ^ 64)),
      fx_div = (\<lambda>a b. of_nat (unat a * 2 ^ 64 div unat b)),
      fx_checked_div = (\<lambda>a b.
        (if b = 0 \<or> unat a * 2 ^ 64 div unat b \<ge> 2 ^ 128 then None
         else Some (of_nat (unat a * 2 ^ 64 div unat b)))),
      fx_sqrt = (\<lambda>x. x),
      u80f48_from_u64f64 = (\<lambda>v. Some (of_nat (unat v div 2 ^ 16))),
      u80f48_from_u128 = (\<lambda>b. if unat b < 2 ^ 80 then Some (of_nat (unat b * 2 ^ 48)) else None),
      u80f48_mul_int = (\<lambda>x y. if unat x * unat y < 2 ^ 128 then Some (x * y) else None),
      u80f48_div_int = (\<lambda>x y. if y = 0 then None else Some (x div y)),
      u80f48_to_u128 = (\<lambda>x. of_nat (unat x div 2 ^ 48)),
      u64f64_from_u80f48 = (\<lambda>x. if unat x < 2 ^ 112 then Some (of_nat (unat x * 2 ^ 16)) else None),
      u32f32_from_u32 = (\<lambda>x. of_nat (unat x * 2 ^ 32)), u32f32_mul = (\<lambda>a b. of_nat (unat a * unat b div 2 ^ 32)),
      u32f32_div = (\<lambda>a b. of_nat (unat a * 2 ^ 32 div unat b)), u32f32_checked_shl = (\<lambda>x n. Some (push_bit n x)),
      u32f32_to_u32 = (\<lambda>x. of_nat (unat x div 2 ^ 32))\<rparr>"

lemma fixed_std_laws: "fixed_laws fixed_std"
  by (simp add: fixed_laws_def fixed_std_def)

text \<open>
  C30: A balance below 2 to the 80 converts to a fixed point number and back to itself or to one
  unit less, and to itself when it is a multiple of 5 to the 12, such as a whole number of PHA.
\<close>

theorem fixed_roundtrip:
  assumes "fixed_laws fx" and "unat b < 2 ^ 80"
  shows "\<exists>f r. to_fixed fx b = Some f \<and> from_fixed fx f = Some r \<and>
    (r = b \<or> r = b - 1 \<and> b \<noteq> 0) \<and> (5 ^ 12 dvd unat b \<longrightarrow> r = b)"
proof -
  let ?f = "of_nat (fixed_of (unat b)) :: u64f64_bits" and ?r = "of_nat (balance_of (fixed_of (unat b))) :: balance"
  note u = unat_fixed_of [OF assms(2)]
  have "fixed_of (unat b) div 2 ^ 16 * 10 ^ 12 \<le> unat b * 2 ^ 48"
    by (simp add: fixed_of_def)
  also have "\<dots> < 2 ^ 128" using assms(2) by simp
  finally have fits: "fixed_of (unat b) div 2 ^ 16 * 10 ^ 12 < 2 ^ 128" .
  have conv: "to_fixed fx b = Some ?f" using assms(2) by (simp add: to_fixed_eq [OF assms(1)])
  have ret: "from_fixed fx ?f = Some ?r" unfolding from_fixed_eq [OF assms(1)] u using fits by simp
  note le = balance_of_fixed_of_le [of "unat b"] and ge = balance_of_fixed_of_ge [of "unat b"]
  have ur: "unat ?r = balance_of (fixed_of (unat b))"
    using le unat_less [of b] by (intro unat_of_nat_small) simp
  have "?r = b \<or> ?r = b - 1 \<and> b \<noteq> 0"
  proof (cases "balance_of (fixed_of (unat b)) = unat b")
    case False
    with le ge have "unat b = Suc (unat ?r)" using ur by linarith
    moreover have nz: "b \<noteq> 0" using \<open>unat b = Suc (unat ?r)\<close> by auto
    ultimately have "unat ?r = unat (b - 1)" using unat_dec [OF nz] by simp
    then have "?r = b - 1" by (simp only: unsigned_word_eqI)
    with nz show ?thesis by simp
  qed simp
  moreover have "5 ^ 12 dvd unat b \<longrightarrow> ?r = b" using balance_of_fixed_of_exact by auto
  ultimately show ?thesis using conv ret by blast
qed

theorem fixed_roundtrip_witness:
  "fixed_laws fixed_std \<and> unat (1000000000000000000001 :: balance) < 2 ^ 80 \<and>
   (\<exists>f r. to_fixed fixed_std 1000000000000000000001 = Some f \<and> from_fixed fixed_std f = Some r \<and>
    (r = 1000000000000000000001 \<or> r = 1000000000000000000001 - 1 \<and> (1000000000000000000001 :: balance) \<noteq> 0) \<and>
    (5 ^ 12 dvd unat (1000000000000000000001 :: balance) \<longrightarrow> r = 1000000000000000000001))"
proof -
  have "unat (1000000000000000000001 :: balance) < 2 ^ 80" by simp
  from fixed_roundtrip [OF fixed_std_laws this] this fixed_std_laws show ?thesis by blast
qed

end
