(* ===== verification/Pool_Safety.thy ===== *)
theory Pool_Safety
  imports Share_Accounting Fixed_Laws
begin

text \<open>
  The base pool keeps its books: contributions, withdrawals and the processing of the
  withdraw queue move the total shares of a pool by exactly what the NFTs of its collection
  gain or lose, and the queue can be worked off.
\<close>

section \<open>The books of a pool\<close>

text \<open>
  The requests of the queue hold distinct NFTs that belong to the pallet. \<open>excess\<close> is what the
  pool counts beyond the shares in NFTs: zero for a stake pool, the unclaimed shares of the
  owner for a vault.
\<close>

definition queue_ok ::
    "('acc, 'led, 'y) pool_env_scheme \<Rightarrow> ('acc, 'led) owner_map \<Rightarrow> 'acc base_pool \<Rightarrow>
     ('acc, 'led, 'z) base_pool_state_scheme \<Rightarrow> bool" where
  "queue_ok env own p s \<longleftrightarrow>
     fresh_items own s \<and> distinct (map wd_nft_id (withdraw_queue p)) \<and>
     (\<forall>wd\<in>set (withdraw_queue p). own (ledger s) (bp_cid p) (wd_nft_id wd) = Some (pallet_id env))"

definition excess ::
    "('acc, 'led, 'y) pool_env_scheme \<Rightarrow> ('acc, 'led) owner_map \<Rightarrow> 'acc base_pool \<Rightarrow>
     ('acc, 'led, 'z) base_pool_state_scheme \<Rightarrow> int" where
  "excess env own p s = uint (total_shares p) - int (issued env own (ledger s) (bp_cid p))"

definition backed ::
    "('acc, 'led, 'y) pool_env_scheme \<Rightarrow> ('acc, 'led) owner_map \<Rightarrow> 'acc base_pool \<Rightarrow>
     ('acc, 'led, 'z) base_pool_state_scheme \<Rightarrow> bool" where
  "backed env own p s \<longleftrightarrow> queue_ok env own p s \<and> 0 \<le> excess env own p s"

text \<open>The fields of a pool that only its creation sets, and its subscribers.\<close>

definition same_pool :: "'acc base_pool \<Rightarrow> 'acc base_pool \<Rightarrow> bool" where
  "same_pool p p' \<longleftrightarrow> p' = p\<lparr>total_shares := total_shares p', total_value := total_value p',
     withdraw_queue := withdraw_queue p'\<rparr>"

lemma same_pool_refl [simp]: "same_pool p p"
  by (simp add: same_pool_def)

lemma same_pool_trans [trans]: "same_pool p q \<Longrightarrow> same_pool q r \<Longrightarrow> same_pool p r"
  unfolding same_pool_def by (cases p, cases q, cases r) simp

lemma same_poolD:
  assumes "same_pool p p'"
  shows "bp_pid p' = bp_pid p" "bp_owner p' = bp_owner p" "value_subscribers p' = value_subscribers p"
    "bp_cid p' = bp_cid p" "pool_account_id p' = pool_account_id p"
  by (subst assms [unfolded same_pool_def], simp)+

lemma issued_le_total:
  assumes "backed env own p s"
  shows "issued env own (ledger s) (bp_cid p) \<le> unat (total_shares p)"
proof -
  have "int (issued env own (ledger s) (bp_cid p)) \<le> int (unat (total_shares p))"
    using assms by (simp add: backed_def excess_def)
  then show ?thesis by (simp only: of_nat_le_iff)
qed

lemma issued_bound:
  assumes "backed env own p s"
  shows "issued env own (ledger s) (bp_cid p) < 2 ^ 128"
  using issued_le_total [OF assms] unat_less [of "total_shares p"] by simp

lemma excess_cong:
  "bp_cid p' = bp_cid p \<Longrightarrow> nft_delta env own (bp_cid p) K k s s' \<Longrightarrow>
   uint (total_shares p') = uint (total_shares p) + k \<Longrightarrow> excess env own p' s' = excess env own p s"
  by (simp add: excess_def nft_deltaD(5))

section \<open>Removing stake\<close>

lemma extract_dust_split: "fst (extract_dust n) + snd (extract_dust n) = n"
  by (simp add: extract_dust_def)

lemma unat_sub_le: "(y :: 'a::len word) \<le> x \<Longrightarrow> unat (x - y) = unat x - unat y"
  by (simp add: unat_sub)

lemma remove_stake_effect:
  assumes laws: "item_laws env own"
    and "remove_stake_from_nft env p sh nft user s = Some (Inr (amount, removed, p', nft', s'))"
  shows "unat (attr_shares nft) = unat removed + unat (attr_shares nft')"
    and "unat (total_shares p) = unat removed + unat (total_shares p')" and "sh \<le> removed"
    and "same_pool p p'" and "withdraw_queue p' = withdraw_queue p"
    and "ledger_only s s'" and "own (ledger s') = own (ledger s)"
    and "shares_in env (ledger s') = shares_in env (ledger s)"
    and "amount \<le> get_free_stakes env p s"
proof -
  let ?d = "extract_dust (attr_shares nft - sh)"
  from assms(2) obtain x price t where
    le: "sh \<le> attr_shares nft" and r: "removed = sh + snd ?d" "removed \<le> total_shares p"
    and mv: "asset_move env (pool_account_id p) user (min x (get_free_stakes env p s)) s = Some (Inr s')"
    and am: "amount = min x (get_free_stakes env p s)"
    and p': "p' = p\<lparr>total_value := t, total_shares := total_shares p - removed\<rparr>"
    and nft': "nft' = nft\<lparr>attr_shares := fst ?d\<rparr>"
    unfolding remove_stake_from_nft_def Let_def
    by (auto simp: result_simps case_prod_beta)
  have snd_le: "unat (snd ?d) + unat (fst ?d) = unat (attr_shares nft) - unat sh"
    using unat_sub_le [OF le] by (simp add: extract_dust_def)
  have shn: "unat sh \<le> unat (attr_shares nft)" using le by (simp add: word_le_nat_alt)
  have u: "unat removed = unat sh + unat (snd ?d)"
    unfolding r(1) using snd_le shn unat_less [of "attr_shares nft"] by (intro unat_add_bounded) simp
  show "unat (attr_shares nft) = unat removed + unat (attr_shares nft')"
    using u snd_le shn by (simp add: nft')
  show "unat (total_shares p) = unat removed + unat (total_shares p')"
    using unat_sub_le [OF r(2)] r(2) by (simp add: p' word_le_nat_alt)
  show "sh \<le> removed" using u by (simp add: word_le_nat_alt)
  show "same_pool p p'" "withdraw_queue p' = withdraw_queue p" by (simp_all add: p' same_pool_def)
  show "ledger_only s s'" "own (ledger s') = own (ledger s)"
    "shares_in env (ledger s') = shares_in env (ledger s)"
    using asset_move_effect [OF laws mv] by simp_all
  show "amount \<le> get_free_stakes env p s" by (simp add: am)
qed

lemma maybe_remove_dust_effect:
  assumes "maybe_remove_dust env p nft s = Some (Inr (is_dust, p'))"
  shows "p' = (if is_dust then p\<lparr>total_shares := total_shares p - attr_shares nft\<rparr> else p)"
  using assms by (auto simp: maybe_remove_dust_def result_simps split: option.splits if_splits)

section \<open>One iteration of the queue\<close>

lemma finish_front_effect:
  assumes "finish_front env wd nft p s w = Some (Inr (p', s', w'))"
  shows "p' = p \<and> s' = s \<or>
       p' = pop_front (p\<lparr>total_shares := total_shares p - attr_shares nft\<rparr>) \<and>
       burn_nft env (pallet_id env) (bp_cid p') (wd_nft_id wd) s = Some (Inr s')"
proof -
  have z: "p\<lparr>total_shares := total_shares p\<rparr> = p" by simp
  from assms show ?thesis
    by (auto simp: finish_front_def result_simps Let_def split: if_splits dest!: maybe_remove_dust_effect)
qed

text \<open>
  An iteration burns a dust request, pays a request out and burns it, or pays a part of it.
  \<open>nft\<close> is the attribute the guard read, \<open>p1\<close>, \<open>nft1\<close> and \<open>s1\<close> the result of the payment.
\<close>

lemma process_front_cases:
  assumes "process_front env price wd (p, s, w) = Some (Inr (p', s', w'))"
  obtains (dust) nft s1 where
      "get_nft_attr_guard env (bp_cid p) (wd_nft_id wd) s = Some (Inr (nft, s1))"
      "p' = pop_front (p\<lparr>total_shares := total_shares p - attr_shares nft\<rparr>)"
      "burn_nft env (pallet_id env) (bp_cid p) (wd_nft_id wd) (guard_drop (bp_cid p) (wd_nft_id wd) s1) = Some (Inr s')"
  | (paid) nft s1 free reduced removed p1 nft1 s2 s3 where
      "get_nft_attr_guard env (bp_cid p) (wd_nft_id wd) s = Some (Inr (nft, s1))"
      "maybe_remove_dust env p nft s1 = Some (Inr (False, p))"
      "price = fx_decimal (pool_fx env) 0 0 \<and> free = attr_shares nft \<or>
       price \<noteq> fx_decimal (pool_fx env) 0 0 \<and> bdiv (pool_fx env) (get_free_stakes env p s1) price = Some free"
      "remove_stake_from_nft env p (min free (attr_shares nft)) nft (wd_user wd) s1
         = Some (Inr (reduced, removed, p1, nft1, s2))"
      "guard_save env (bp_cid p) (wd_nft_id wd) nft1 s2 = Some (Inr s3)"
      "p' = p1 \<and> s' = s3 \<or>
       p' = pop_front (p1\<lparr>total_shares := total_shares p1 - attr_shares nft1\<rparr>) \<and>
       burn_nft env (pallet_id env) (bp_cid p') (wd_nft_id wd) s3 = Some (Inr s')"
proof -
  from assms obtain nft s1 is_dust p0 where
    g: "get_nft_attr_guard env (bp_cid p) (wd_nft_id wd) s = Some (Inr (nft, s1))"
    and m: "maybe_remove_dust env p nft s1 = Some (Inr (is_dust, p0))"
    unfolding process_front.simps by (auto simp: result_simps)
  note p0 = maybe_remove_dust_effect [OF m]
  show thesis
  proof (cases is_dust)
    case True
    then show thesis
      using assms g m p0 by (intro dust) (auto simp: process_front.simps result_simps Let_def pop_front_def)
  next
    case False
    with p0 have [simp]: "p0 = p" by simp
    from assms g m False obtain free reduced removed p1 nft1 s2 s3 where
      f: "price = fx_decimal (pool_fx env) 0 0 \<and> free = attr_shares nft \<or>
       price \<noteq> fx_decimal (pool_fx env) 0 0 \<and> bdiv (pool_fx env) (get_free_stakes env p s1) price = Some free"
      and r: "remove_stake_from_nft env p (min free (attr_shares nft)) nft (wd_user wd) s1
         = Some (Inr (reduced, removed, p1, nft1, s2))"
      and sv: "guard_save env (bp_cid p) (wd_nft_id wd) nft1 s2 = Some (Inr s3)"
      and rest: "finish_front env wd nft1 p1 s3 (update_stats (wd_user wd)
         (\<lambda>e. e\<lparr>we_amount := we_amount e + reduced, we_shares := we_shares e + removed\<rparr>) w) = Some (Inr (p', s', w'))"
      by (auto simp: process_front.simps result_simps Let_def split: if_splits)
    note finish_front_effect [OF rest]
    with g m False f r sv show thesis by (intro paid) simp_all
  qed
qed

lemma queue_ok_delta:
  assumes "queue_ok env own p s" and "nft_delta env own (bp_cid p) K k s s'" and "same_pool p p'"
    and "distinct (map wd_nft_id (withdraw_queue p'))"
    and "set (withdraw_queue p') \<subseteq> set (withdraw_queue p)" and "wd_nft_id ` set (withdraw_queue p') \<subseteq> K"
  shows "queue_ok env own p' s'"
proof -
  have "own (ledger s') (bp_cid p) (wd_nft_id wd) = Some (pallet_id env)" if "wd \<in> set (withdraw_queue p')" for wd
  proof -
    have o: "own (ledger s) (bp_cid p) (wd_nft_id wd) = Some (pallet_id env)"
      using assms(1,5) that by (auto simp: queue_ok_def)
    moreover have "wd_nft_id wd \<in> K" using assms(6) that by blast
    ultimately show ?thesis using nft_deltaD(3) [OF assms(2)] by simp
  qed
  moreover have "fresh_items own s'" using assms(1) nft_deltaD(6) [OF assms(2)] by (simp add: queue_ok_def)
  ultimately show ?thesis using assms(4) same_poolD(4) [OF assms(3)] by (simp add: queue_ok_def)
qed

lemma queue_front:
  assumes "queue_ok env own p s" and "withdraw_queue p = wd # q"
  shows "own (ledger s) (bp_cid p) (wd_nft_id wd) = Some (pallet_id env)"
    and "distinct (map wd_nft_id q)" and "wd_nft_id ` set q \<subseteq> - {wd_nft_id wd}"
  using assms by (auto simp: queue_ok_def)

text \<open>Burning the request at the front and its shares.\<close>

lemma burn_front:
  assumes laws: "item_laws env own" and b: "queue_ok env own p s" and q: "withdraw_queue p = wd # q"
    and sh: "shares_in env (ledger s) (bp_cid p) (wd_nft_id wd) = unat sh"
    and burn: "burn_nft env a (bp_cid p) (wd_nft_id wd) s = Some (Inr s')"
    and p': "p' = pop_front (p\<lparr>total_shares := total_shares p - sh\<rparr>)"
  shows "queue_ok env own p' s'" and "same_pool p p'"
    and "nft_delta env own (bp_cid p) (- {wd_nft_id wd}) (- uint sh) s s'" and "ledger_only s s'"
    and "withdraw_queue p' = q"
    and "0 \<le> excess env own p s \<Longrightarrow> unat (total_shares p) = unat sh + unat (total_shares p')"
    and "0 \<le> excess env own p s \<Longrightarrow> excess env own p' s' = excess env own p s"
proof -
  note qk = queue_front [OF b q]
  have live: "own (ledger s) (bp_cid p) (wd_nft_id wd) \<noteq> None" using qk(1) by simp
  note d = burn_nft_delta(1) [OF laws live burn]
  show same: "same_pool p p'" "withdraw_queue p' = q" by (simp_all add: p' pop_front_def same_pool_def q)
  show d': "nft_delta env own (bp_cid p) (- {wd_nft_id wd}) (- uint sh) s s'"
    using d sh by simp
  show "ledger_only s s'" by (rule burn_nft_effect(1) [OF laws burn])
  show "queue_ok env own p' s'"
    by (rule queue_ok_delta [OF b d' same(1)]) (use q qk same in auto)
  assume e: "0 \<le> excess env own p s"
  then have "unat sh \<le> unat (total_shares p)"
    using shares_le_issued [of own, OF live, of env] issued_le_total [of env own p s] b sh by (simp add: backed_def)
  then have le: "sh \<le> total_shares p" by (simp add: word_le_nat_alt)
  show u: "unat (total_shares p) = unat sh + unat (total_shares p')"
    using unat_sub_le [OF le] \<open>unat sh \<le> _\<close> by (simp add: p' pop_front_def)
  show "excess env own p' s' = excess env own p s"
    by (rule excess_cong [OF same_poolD(4) [OF same(1)] d']) (use arg_cong [OF u, of int] in simp)
qed

text \<open>Paying a part of the request at the front.\<close>

lemma guard_round:
  assumes "get_nft_attr_guard env c n s = Some (Inr (attr, s1))" and "ledger_only s1 t"
  shows "guard_drop c n t = s\<lparr>ledger := ledger t\<rparr>"
proof -
  have "t = s\<lparr>nft_locks := insert (c, n) (nft_locks s), ledger := ledger t\<rparr>"
    using get_nft_attr_guard_effect(1) [OF assms(1)] assms(2) by (simp add: ledger_only_def)
  then show ?thesis
    using get_nft_attr_guard_effect(2) [OF assms(1)] by (cases s, cases t) (simp add: guard_drop_def)
qed

lemma pay_front:
  assumes laws: "item_laws env own" and b: "queue_ok env own p s" and q: "withdraw_queue p = wd # q"
    and g: "get_nft_attr_guard env (bp_cid p) (wd_nft_id wd) s = Some (Inr (nft, s1))"
    and r: "remove_stake_from_nft env p x nft (wd_user wd) s1 = Some (Inr (reduced, removed, p1, nft1, s2))"
    and sv: "guard_save env (bp_cid p) (wd_nft_id wd) nft1 s2 = Some (Inr s3)"
  shows "queue_ok env own p1 s3" and "excess env own p1 s3 = excess env own p s"
    and "nft_delta env own (bp_cid p) (- {wd_nft_id wd}) (- uint removed) s s3" and "ledger_only s s3"
    and "shares_in env (ledger s3) (bp_cid p) (wd_nft_id wd) = unat (attr_shares nft1)"
proof -
  let ?c = "bp_cid p" and ?n = "wd_nft_id wd"
  note ge = get_nft_attr_guard_effect [OF g] and re = remove_stake_effect [OF laws r] 
    and qk = queue_front [OF b q]
  from sv obtain t where t: "set_nft_attr env ?c ?n nft1 s2 = Some (Inr t)" and s3: "s3 = guard_drop ?c ?n t"
    by (auto simp: guard_save_def result_simps)
  note te = set_nft_attr_effect [OF laws t]
  have s3': "s3 = s\<lparr>ledger := ledger t\<rparr>"
    unfolding s3 using g ledger_only_trans [OF re(6) te(1)] by (rule guard_round)
  then show "ledger_only s s3" by simp
  have eq: "own (ledger s2) = own (ledger s)" "shares_in env (ledger s2) = shares_in env (ledger s)"
    using re(7,8) ge(1) by simp_all
  have live: "own (ledger s2) ?c ?n \<noteq> None" using qk(1) eq by simp
  have d2: "nft_delta env own ?c UNIV 0 s s2"
    by (rule nft_delta_same [OF eq]) (use ledger_onlyD(1) [OF re(6)] ge(1) in simp)
  have d3: "nft_delta env own ?c UNIV 0 t s3"
    by (rule nft_delta_same) (simp_all add: s3 guard_drop_def)
  have k: "0 + (uint (attr_shares nft1) - int (shares_in env (ledger s2) ?c ?n)) + 0 = - uint removed"
    using arg_cong [OF re(1), of int] ge(3) eq by simp
  show d: "nft_delta env own ?c (- {?n}) (- uint removed) s s3"
    by (rule nft_delta_mono [OF nft_delta_trans [OF nft_delta_trans [OF d2 set_nft_attr_delta [OF laws live t]] d3] _ k]) simp
  show ex: "excess env own p1 s3 = excess env own p s"
    by (rule excess_cong [OF same_poolD(4) [OF re(4)] d]) (use arg_cong [OF re(2), of int] in simp)
  have "own (ledger s3) ?c m = own (ledger s) ?c m" for m using te(2) eq s3' by simp
  then show "queue_ok env own p1 s3"
    using b nft_deltaD(6) [OF d] re(5) same_poolD(4) [OF re(4)] by (simp add: queue_ok_def)
  show "shares_in env (ledger s3) ?c ?n = unat (attr_shares nft1)" using te(3) s3' by simp
qed

text \<open>
  \<open>pool_step env own K p s p' s'\<close>: the books still balance, and the NFTs in \<open>K\<close> and those of
  other collections are untouched.
\<close>

definition pool_step ::
    "('acc, 'led, 'y) pool_env_scheme \<Rightarrow> ('acc, 'led) owner_map \<Rightarrow> u32 set \<Rightarrow> 'acc base_pool \<Rightarrow>
     ('acc, 'led, 'z) base_pool_state_scheme \<Rightarrow> 'acc base_pool \<Rightarrow> ('acc, 'led, 'z) base_pool_state_scheme \<Rightarrow> bool" where
  "pool_step env own K p s p' s' \<longleftrightarrow>
     same_pool p p' \<and> queue_ok env own p' s' \<and>
     (0 \<le> excess env own p s \<longrightarrow> excess env own p' s' = excess env own p s) \<and> nft_only s s' \<and>
     (\<exists>k. nft_delta env own (bp_cid p) K k s s')"

lemma pool_stepD:
  assumes "pool_step env own K p s p' s'"
  shows "same_pool p p'" "queue_ok env own p' s'" "nft_only s s'"
    "0 \<le> excess env own p s \<Longrightarrow> excess env own p' s' = excess env own p s"
    "\<exists>k. nft_delta env own (bp_cid p) K k s s'"
  using assms by (auto simp: pool_step_def)

lemma pool_step_backed: "pool_step env own K p s p' s' \<Longrightarrow> backed env own p s \<Longrightarrow> backed env own p' s'"
  by (simp add: pool_step_def backed_def)

lemma pool_step_refl: "queue_ok env own p s \<Longrightarrow> pool_step env own K p s p s"
  using nft_delta_mono [OF nft_delta_refl [of env own "bp_cid p" s], of K] by (auto simp: pool_step_def)

lemma pool_step_trans:
  assumes "pool_step env own K p s p1 s1" and "pool_step env own K' p1 s1 p2 s2"
  shows "pool_step env own (K \<inter> K') p s p2 s2"
proof -
  obtain k k' where "nft_delta env own (bp_cid p) K k s s1" "nft_delta env own (bp_cid p) K' k' s1 s2"
    using assms same_poolD(4) by (fastforce simp: pool_step_def)
  then have "nft_delta env own (bp_cid p) (K \<inter> K') (k + k') s s2" by (rule nft_delta_trans)
  then show ?thesis
    using assms by (auto simp: pool_step_def intro: same_pool_trans nft_only_trans)
qed

lemma pool_step_mono: "pool_step env own K p s p' s' \<Longrightarrow> K' \<subseteq> K \<Longrightarrow> pool_step env own K' p s p' s'"
  by (auto simp: pool_step_def intro: nft_delta_mono)

lemma pool_step_burn_front:
  assumes "item_laws env own" and "queue_ok env own p s" and "withdraw_queue p = wd # q"
    and "shares_in env (ledger s) (bp_cid p) (wd_nft_id wd) = unat sh"
    and "burn_nft env a (bp_cid p) (wd_nft_id wd) s = Some (Inr s')"
    and "p' = pop_front (p\<lparr>total_shares := total_shares p - sh\<rparr>)"
  shows "pool_step env own (- {wd_nft_id wd}) p s p' s'"
  using burn_front [OF assms] ledger_only_nft by (auto simp: pool_step_def)

text \<open>
  An iteration in terms of the steps: the front is burnt, or paid in part, or paid and burnt.
\<close>

lemma process_front_steps:
  assumes laws: "item_laws env own" and b: "queue_ok env own p s" and q: "withdraw_queue p = wd # q"
    and pr: "process_front env price wd (p, s, w) = Some (Inr (p', s', w'))"
  shows "pool_step env own (- {wd_nft_id wd}) p s p' s'"
    and "withdraw_queue p' = q \<or> withdraw_queue p' = wd # q"
    and "0 \<le> excess env own p s \<Longrightarrow> unat (total_shares p') \<le> unat (total_shares p)"
proof -
  have "pool_step env own (- {wd_nft_id wd}) p s p' s' \<and> (withdraw_queue p' = q \<or> withdraw_queue p' = wd # q) \<and>
     (0 \<le> excess env own p s \<longrightarrow> unat (total_shares p') \<le> unat (total_shares p))"
    using pr
  proof (cases rule: process_front_cases)
    case (dust nft s1)
    have s1: "guard_drop (bp_cid p) (wd_nft_id wd) s1 = s"
      using guard_round [OF dust(1), of s1] get_nft_attr_guard_effect(1) [OF dust(1)] by (simp add: ledger_only_def)
    have "shares_in env (ledger s) (bp_cid p) (wd_nft_id wd) = unat (attr_shares nft)"
      using get_nft_attr_guard_effect(3) [OF dust(1)] .
    note facts = laws b q this dust(3) [unfolded s1] dust(2)
    show ?thesis using pool_step_burn_front [OF facts] burn_front(5,6) [OF facts] by auto
  next
    case (paid nft s1 free reduced removed p1 nft1 s2 s3)
    note re = remove_stake_effect [OF laws paid(4)] and pf = pay_front [OF laws b q paid(1,4,5)]
    have step: "pool_step env own (- {wd_nft_id wd}) p s p1 s3"
      using pf re(4) ledger_only_nft by (auto simp: pool_step_def)
    have q1: "withdraw_queue p1 = wd # q" and c1: "bp_cid p1 = bp_cid p" using re(5) q same_poolD(4) [OF re(4)] by simp_all
    from paid(6) show ?thesis
    proof
      assume "p' = p1 \<and> s' = s3"
      then show ?thesis using step q1 re(2) by simp
    next
      assume *: "p' = pop_front (p1\<lparr>total_shares := total_shares p1 - attr_shares nft1\<rparr>) \<and>
         burn_nft env (pallet_id env) (bp_cid p') (wd_nft_id wd) s3 = Some (Inr s')"
      then have "burn_nft env (pallet_id env) (bp_cid p1) (wd_nft_id wd) s3 = Some (Inr s')"
        by (auto simp: pop_front_def)
      note facts = laws pf(1) q1 pf(5) [folded c1] this conjunct1 [OF *]
      show ?thesis
        using pool_step_trans [OF step pool_step_burn_front [OF facts]] burn_front(5,6) [OF facts] pf(2) re(2) by auto
    qed
  qed
  then show "pool_step env own (- {wd_nft_id wd}) p s p' s'" "withdraw_queue p' = q \<or> withdraw_queue p' = wd # q"
    "0 \<le> excess env own p s \<Longrightarrow> unat (total_shares p') \<le> unat (total_shares p)" by simp_all
qed

section \<open>The loop\<close>

lemma withdraw_loop_step:
  assumes laws: "item_laws env own"
    and "queue_ok env own p s" and "withdraw_loop env price wmin fuel (p, s, w) = Ran (p', s', w')"
    and "wd_nft_id ` set (withdraw_queue p) \<inter> K = {}"
  shows "pool_step env own K p s p' s'"
  using assms(2-)
proof (induction fuel arbitrary: p s w)
  case 0
  then have "p' = p" "s' = s" by (auto simp: withdraw_loop.simps split: if_splits list.splits)
  then show ?case using pool_step_refl [OF 0(1)] by simp
next
  case (Suc fuel)
  consider "p' = p" "s' = s" | wd q p1 s1 w1 where "withdraw_queue p = wd # q"
    "process_front env price wd (p, s, w) = Some (Inr (p1, s1, w1))"
    "withdraw_loop env price wmin fuel (p1, s1, w1) = Ran (p', s', w')"
    using Suc.prems(2) by (subst (asm) withdraw_loop.simps)
      (auto split: if_splits list.splits option.splits sum.splits)
  then show ?case
  proof cases
    case 1
    then show ?thesis using pool_step_refl [OF Suc.prems(1)] by simp
  next
    case 2
    note st = process_front_steps [OF laws Suc.prems(1) 2(1,2)]
    have "set (withdraw_queue p1) \<subseteq> set (withdraw_queue p)" using st 2(1) by auto
    then have "wd_nft_id ` set (withdraw_queue p1) \<inter> K = {}" using Suc.prems(3) by blast
    from pool_step_trans [OF st(1) Suc.IH [OF pool_stepD(2) [OF st(1)] 2(3) this]]
    show ?thesis by (rule pool_step_mono) (use Suc.prems(3) 2(1) in auto)
  qed
qed

lemma fold_deposit: "\<exists>ev. fold (\<lambda>(u, e). bp_deposit (f u e)) w s = s\<lparr>bp_events := ev\<rparr>"
proof (induction w arbitrary: s)
  case Nil
  then show ?case by (intro exI [of _ "bp_events s"]) simp
next
  case (Cons x w)
  have "(bp_deposit e s)\<lparr>bp_events := ev\<rparr> = s\<lparr>bp_events := ev\<rparr>" for e ev by (simp add: bp_deposit_def)
  moreover obtain u e where "x = (u, e)" by (cases x)
  ultimately show ?case using Cons.IH [of "bp_deposit (f u e) s"] by simp
qed

lemma pool_step_emit: "pool_step env own K p s p' s' \<Longrightarrow> pool_step env own K p s p' (emit_withdrawals i w s')"
proof -
  assume st: "pool_step env own K p s p' s'"
  have "\<exists>ev. emit_withdrawals i w s' = s'\<lparr>bp_events := ev\<rparr>"
    unfolding emit_withdrawals_def by (rule fold_deposit)
  then obtain ev where ev: "emit_withdrawals i w s' = s'\<lparr>bp_events := ev\<rparr>" by blast
  have n: "nft_only s s'" using pool_stepD(3) [OF st] .
  have "nft_only s (s'\<lparr>bp_events := ev\<rparr>)"
    by (rule nft_only_trans [OF n]) (simp add: nft_only_def)
  with st show ?thesis
    by (simp add: ev pool_step_def backed_def queue_ok_def excess_def nft_delta_def fresh_items_def)
qed

lemma try_process_cases:
  assumes "try_process_withdraw_queue env p s = Some (Inr (p', s'))"
  obtains (frozen) "p' = p" "s' = s"
  | (loop) price wmin s1 w where "share_price (pool_fx env) p = Some (Some price)"
      "asset_minimum env (ledger s) = Some wmin"
      "withdraw_loop env price wmin (loop_fuel p) (p, s, []) = Ran (p', s1, w)" "s' = emit_withdrawals (bp_pid p') w s1"
proof -
  from assms obtain mp where mp: "share_price (pool_fx env) p = Some mp"
    by (auto simp: try_process_withdraw_queue_def result_simps)
  show thesis
  proof (cases mp)
    case None
    with assms mp show thesis by (intro frozen) (simp_all add: try_process_withdraw_queue_def expect_call_def result_simps)
  next
    case (Some price)
    with assms mp obtain wmin where wmin: "asset_minimum env (ledger s) = Some wmin"
      by (auto simp: try_process_withdraw_queue_def result_simps)
    with assms mp Some have run: "(case withdraw_loop env price wmin (loop_fuel p) (p, s, []) of
           Ran (p1, s1, w) \<Rightarrow> ok_call (p1, emit_withdrawals (bp_pid p1) w s1) | _ \<Rightarrow> None)
         = (Some (Inr (p', s')) :: _ pool_call)"
      by (simp add: try_process_withdraw_queue_def expect_call_def)
    show thesis
    proof (cases "withdraw_loop env price wmin (loop_fuel p) (p, s, [])")
      case (Ran x)
      obtain p1 s1 w where "x = (p1, s1, w)" by (cases x)
      with run Ran mp Some wmin show thesis by (intro loop) (simp_all add: result_simps)
    qed (use run in simp_all)
  qed
qed

lemma try_process_step:
  assumes laws: "item_laws env own" and b: "queue_ok env own p s"
    and t: "try_process_withdraw_queue env p s = Some (Inr (p', s'))"
    and K: "wd_nft_id ` set (withdraw_queue p) \<inter> K = {}"
  shows "pool_step env own K p s p' s'"
  using t
proof (cases rule: try_process_cases)
  case frozen
  then show ?thesis using pool_step_refl [OF b] by simp
next
  case (loop price wmin s1 w)
  show ?thesis unfolding loop(4) by (rule pool_step_emit [OF withdraw_loop_step [OF laws b loop(3) K]])
qed

section \<open>The loop ends\<close>

text \<open>
  A price is workable for the loop when it is zero or lies between two to the minus 23 and half
  the minimal balance of the asset: then the free stake of every iteration buys at least one
  unit of shares.
\<close>

definition workable_price :: "balance \<Rightarrow> u64f64_bits \<Rightarrow> bool" where
  "workable_price wmin price \<longleftrightarrow> price = 0 \<or> 2 ^ 41 \<le> unat price \<and> unat price \<le> unat wmin * 2 ^ 63"

lemma process_front_progress:
  assumes laws: "item_laws env own" and fx: "fixed_laws (pool_fx env)"
    and b: "queue_ok env own p s" and e: "0 \<le> excess env own p s" and q: "withdraw_queue p = wd # q"
    and pr: "process_front env price wd (p, s, w) = Some (Inr (p', s', w'))"
    and free: "wmin < get_free_stakes env p s" and price: "workable_price wmin price"
  shows "loop_fuel p' < loop_fuel p"
  using pr
proof (cases rule: process_front_cases)
  case (dust nft s1)
  then have "withdraw_queue p' = q" using q by (simp add: pop_front_def)
  with process_front_steps(3) [OF laws b q pr e] show ?thesis by (simp add: loop_fuel_def q)
next
  case (paid nft s1 fr reduced removed p1 nft1 s2 s3)
  note re = remove_stake_effect [OF laws paid(4)]
  obtain pc where pc: "share_price (pool_fx env) p = Some (Some pc)"
    using paid(4) by (auto simp: remove_stake_from_nft_def result_simps)
  have "attr_shares nft \<noteq> 0"
  proof
    assume "attr_shares nft = 0"
    with paid(2) pc obtain cb wm where "bmul (pool_fx env) 0 pc = Some cb" "wm < cb"
      by (auto simp: maybe_remove_dust_def result_simps split: if_splits)
    then show False using bmul_0 [OF fx, of pc cb] by simp
  qed
  moreover have "fr \<noteq> 0"
    using paid(3)
  proof
    assume "price = fx_decimal (pool_fx env) 0 0 \<and> fr = attr_shares nft"
    then show ?thesis using \<open>attr_shares nft \<noteq> 0\<close> by simp
  next
    assume *: "price \<noteq> fx_decimal (pool_fx env) 0 0 \<and> bdiv (pool_fx env) (get_free_stakes env p s1) price = Some fr"
    have "get_free_stakes env p s1 = get_free_stakes env p s"
      using get_nft_attr_guard_effect(1) [OF paid(1)] by (simp add: get_free_stakes_def)
    with * free price fixed_lawsD(10) [OF fx] show ?thesis
      by (intro bdiv_positive [OF fx]) (auto simp: workable_price_def)
  qed
  ultimately have "min fr (attr_shares nft) \<noteq> 0" by (simp add: min_def)
  then have "0 < unat removed" using re(3) by (metis unat_eq_zero word_le_0_iff gr0I)
  then have lt: "unat (total_shares p1) < unat (total_shares p)" using re(2) by simp
  from paid(6) show ?thesis
  proof
    assume "p' = p1 \<and> s' = s3"
    then show ?thesis using lt re(5) by (simp add: loop_fuel_def)
  next
    assume "p' = pop_front (p1\<lparr>total_shares := total_shares p1 - attr_shares nft1\<rparr>) \<and>
       burn_nft env (pallet_id env) (bp_cid p') (wd_nft_id wd) s3 = Some (Inr s')"
    then have "withdraw_queue p' = q" using re(5) q by (simp add: pop_front_def)
    with process_front_steps(3) [OF laws b q pr e] show ?thesis by (simp add: loop_fuel_def q)
  qed
qed

lemma withdraw_loop_enough_fuel:
  assumes laws: "item_laws env own" and fx: "fixed_laws (pool_fx env)" and price: "workable_price wmin price"
  shows "queue_ok env own p s \<Longrightarrow> 0 \<le> excess env own p s \<Longrightarrow> loop_fuel p \<le> fuel \<Longrightarrow>
    withdraw_loop env price wmin fuel (p, s, w) = withdraw_loop env price wmin (loop_fuel p) (p, s, w) \<and>
    withdraw_loop env price wmin fuel (p, s, w) \<noteq> OutOfFuel"
proof (induction "loop_fuel p" arbitrary: p s w fuel rule: less_induct)
  case less
  show ?case
  proof (cases "wmin < get_free_stakes env p s \<and> withdraw_queue p \<noteq> []")
    case False
    then show ?thesis
      by (subst (1 2 3) withdraw_loop.simps) (auto split: list.splits)
  next
    case True
    then obtain wd q where q: "withdraw_queue p = wd # q" by (cases "withdraw_queue p") auto
    then obtain f where f: "loop_fuel p = Suc f" by (simp add: loop_fuel_def)
    with less.prems(3) obtain g where g: "fuel = Suc g" "f \<le> g" by (cases fuel) auto
    have unfold: "withdraw_loop env price wmin (Suc h) (p, s, w) =
        (case process_front env price wd (p, s, w) of
           Some (Inr x) \<Rightarrow> withdraw_loop env price wmin h x | _ \<Rightarrow> Panicked)" for h
      using True q by (subst withdraw_loop.simps) simp
    show ?thesis
    proof (cases "\<exists>p1 s1 w1. process_front env price wd (p, s, w) = Some (Inr (p1, s1, w1))")
      case False
      then show ?thesis unfolding f g(1) unfold by (auto split: option.splits sum.splits)
    next
      case step: True
      then obtain p1 s1 w1 where p1: "process_front env price wd (p, s, w) = Some (Inr (p1, s1, w1))" by blast
      note st = process_front_steps [OF laws less.prems(1) q p1]
      have dec: "loop_fuel p1 < loop_fuel p"
        using process_front_progress [OF laws fx less.prems(1,2) q p1 _ price] True by simp
      have ok: "queue_ok env own p1 s1" "0 \<le> excess env own p1 s1"
        using pool_stepD [OF st(1)] less.prems(2) by simp_all
      have "loop_fuel p1 \<le> f" using dec f by simp
      from less.hyps [OF dec ok this, of w1] less.hyps [OF dec ok le_trans [OF this g(2)], of w1]
      show ?thesis unfolding f g(1) unfold p1 by auto
    qed
  qed
qed

section \<open>Contributions\<close>

lemma merge_step:
  assumes laws: "ledger_laws env own" and b: "backed env own p s" and a: "a \<noteq> pallet_id env"
    and m: "merge_nft_for_staker env (bp_cid p) a i s = Some (Inr (r, s'))"
  shows "pool_step env own {n. own (ledger s) (bp_cid p) n \<noteq> Some a} p s p s'"
proof -
  have fresh: "fresh_items own s" using b by (simp add: backed_def queue_ok_def)
  note e = merge_nft_effect [OF laws fresh issued_bound [OF b] m]
  have "queue_ok env own p s'"
    by (rule queue_ok_delta [OF _ e(2) same_pool_refl]) (use b a in \<open>auto simp: backed_def queue_ok_def\<close>)
  moreover have "excess env own p s' = excess env own p s"
    by (rule excess_cong [OF _ e(2)]) simp_all
  ultimately show ?thesis using e(1,2) by (auto simp: pool_step_def)
qed

lemma to_fixed_bound: "fixed_laws fx \<Longrightarrow> to_fixed fx b = Some f \<Longrightarrow> unat b < 2 ^ 80"
  by (auto simp: to_fixed_eq split: if_splits)

lemma from_fixed_bound:
  assumes "fixed_laws fx" and "from_fixed fx v = Some r"
  shows "unat r < 2 ^ 80"
proof -
  have v: "unat v div 2 ^ 16 * 10 ^ 12 < 2 ^ 128" and r: "r = of_nat (balance_of (unat v))"
    using assms by (auto simp: from_fixed_eq split: if_splits)
  have "balance_of (unat v) < 2 ^ 80" unfolding balance_of_def using v by (simp add: div_less_iff_less_mult)
  then show ?thesis unfolding r by (simp add: unat_of_nat_small)
qed

lemma bdiv_bound: "fixed_laws fx \<Longrightarrow> bdiv fx b x = Some r \<Longrightarrow> unat r < 2 ^ 80"
  by (auto simp: bdiv_def split: option.splits dest: from_fixed_bound)

lemma share_price_bound:
  assumes "fixed_laws fx" and "share_price fx p = Some x"
  shows "unat (total_shares p) < 2 ^ 80" and "unat (total_value p) < 2 ^ 80"
  using assms to_fixed_bound by (auto simp: share_price_def split: option.splits)

text \<open>Below 2 to the 80 the totals do not wrap around.\<close>

lemma add_stake_effect:
  assumes laws: "ledger_laws env own" and fx: "fixed_laws (pool_fx env)" and b: "backed env own p s"
    and small: "unat amount < 2 ^ 80"
    and c: "add_stake_to_new_nft env p a amount s = Some (Inr (sh, p', s'))"
  shows "pool_step env own UNIV p s p' s'" and "withdraw_queue p' = withdraw_queue p"
    and "unat (total_shares p') = unat (total_shares p) + unat sh"
    and "unat (total_value p') = unat (total_value p) + unat amount"
proof -
  from c obtain price n s1 where price: "share_price (pool_fx env) p = Some price"
    and sh: "sh = amount \<or> (\<exists>x. price = Some x \<and> x \<noteq> fx_decimal (pool_fx env) 0 0 \<and> bdiv (pool_fx env) amount x = Some sh)"
    and mi: "mint_nft env (bp_cid p) a sh (bp_pid p) s = Some (Inr (n, s1))"
    and mv: "asset_move env a (pool_account_id p) amount s1 = Some (Inr s')"
    and p': "p' = p\<lparr>total_shares := total_shares p + sh, total_value := total_value p + amount\<rparr>"
    unfolding add_stake_to_new_nft_def Let_def
    by (auto simp: result_simps split: option.split_asm if_split_asm)
  have fresh: "fresh_items own s" using b by (simp add: backed_def queue_ok_def)
  note items = ledger_items [OF laws]
  note d = mint_nft_delta [OF laws fresh mi] and e = asset_move_effect [OF items mv]
  note bounds = share_price_bound [OF fx price]
  have shb: "unat sh < 2 ^ 80" using sh small bdiv_bound [OF fx] by auto
  show ts: "unat (total_shares p') = unat (total_shares p) + unat sh"
    unfolding p' using shb bounds by (simp, intro unat_add_bounded) simp
  show "unat (total_value p') = unat (total_value p) + unat amount"
    unfolding p' using small bounds by (simp, intro unat_add_bounded) simp
  show q: "withdraw_queue p' = withdraw_queue p" by (simp add: p')
  have same: "same_pool p p'" by (simp add: p' same_pool_def)
  have d': "nft_delta env own (bp_cid p) UNIV (uint sh) s s'"
    by (rule nft_delta_mono [OF nft_delta_trans [OF d(1) e(2)]]) simp_all
  have "excess env own p' s' = excess env own p s"
    by (rule excess_cong [OF same_poolD(4) [OF same] d']) (use arg_cong [OF ts, of int] in simp)
  moreover have "queue_ok env own p' s'"
    by (rule queue_ok_delta [OF _ d' same]) (use b q in \<open>auto simp: backed_def queue_ok_def\<close>)
  moreover have "nft_only s s'"
    using mint_nft_effect(1) [OF laws mi] ledger_only_nft [OF e(1)] by (rule nft_only_trans)
  ultimately show "pool_step env own UNIV p s p' s'" using same d' by (auto simp: pool_step_def)
qed

lemma contribute_effect:
  assumes laws: "ledger_laws env own" and fx: "fixed_laws (pool_fx env)" and b: "backed env own p s"
    and small: "unat amount < 2 ^ 80" and a: "a \<noteq> pallet_id env"
    and c: "base_contribute env p a amount s = Some (Inr (sh, p', s'))"
  shows "pool_step env own {n. own (ledger s) (bp_cid p) n \<noteq> Some a} p s p' s'"
    and "withdraw_queue p' = withdraw_queue p"
    and "unat (total_shares p') = unat (total_shares p) + unat sh"
    and "unat (total_value p') = unat (total_value p) + unat amount"
proof -
  from c obtain r s1 where m: "merge_nft_for_staker env (bp_cid p) a (bp_pid p) s = Some (Inr (r, s1))"
    and ad: "add_stake_to_new_nft env p a amount s1 = Some (Inr (sh, p', s'))"
    unfolding base_contribute_def by (auto simp: result_simps)
  note st = merge_step [OF laws b a m]
  note ef = add_stake_effect [OF laws fx pool_step_backed [OF st b] small ad]
  show "pool_step env own {n. own (ledger s) (bp_cid p) n \<noteq> Some a} p s p' s'"
    by (rule pool_step_mono [OF pool_step_trans [OF st ef(1)]]) simp
  show "withdraw_queue p' = withdraw_queue p"
    "unat (total_shares p') = unat (total_shares p) + unat sh"
    "unat (total_value p') = unat (total_value p) + unat amount" using ef(2-4) by simp_all
qed

section \<open>Withdrawals\<close>

lemma requeue_fold_effect:
  assumes laws: "item_laws env own"
    and "fold_call (requeue_one env c) xs (nft, s) = Some (Inr (nft', s'))"
    and "distinct (map wd_nft_id xs)" and "\<forall>wd\<in>set xs. own (ledger s) c (wd_nft_id wd) \<noteq> None"
    and "n0 \<notin> wd_nft_id ` set xs" and "own (ledger s) c n0 \<noteq> None"
    and "unat (attr_shares nft) + issued env own (ledger s) c < 2 ^ 128 + shares_in env (ledger s) c n0"
  shows "ledger_only s s' \<and>
    nft_delta env own c (- wd_nft_id ` set xs) (uint (attr_shares nft) - uint (attr_shares nft')) s s'"
  using assms(2-)
proof (induction xs arbitrary: nft s)
  case Nil
  then show ?case by (simp add: result_simps ledger_only_def)
next
  case (Cons wd xs)
  let ?n = "wd_nft_id wd"
  from Cons.prems(1) obtain attr s1 s2 where pk: "peek_nft env c ?n s = Some (Inr (attr, s1))"
    and b: "burn_nft env (pallet_id env) c ?n s1 = Some (Inr s2)"
    and rest: "fold_call (requeue_one env c) xs
      (nft\<lparr>attr_shares := attr_shares nft + attr_shares attr\<rparr>, s2) = Some (Inr (nft', s'))"
    by (auto simp: result_simps)
  have s1: "s1 = s" and sh: "shares_in env (ledger s) c ?n = unat (attr_shares attr)"
    using peek_nft_effect [OF pk] by simp_all
  have live: "own (ledger s) c ?n \<noteq> None" using Cons.prems(3) by simp
  note d = burn_nft_delta [OF laws live b [unfolded s1]] and e = burn_nft_effect [OF laws b [unfolded s1]]
  have n0: "n0 \<noteq> ?n" using Cons.prems(4) by auto
  have n0': "shares_in env (ledger s2) c n0 = shares_in env (ledger s) c n0" using e(3) n0 by simp
  have "int (issued env own (ledger s2) c + unat (attr_shares attr)) = int (issued env own (ledger s) c)"
    using nft_deltaD(5) [OF d(1)] sh by simp
  then have sum: "issued env own (ledger s2) c + unat (attr_shares attr) = issued env own (ledger s) c"
    by (simp only: of_nat_eq_iff)
  have "own (ledger s2) c n0 \<noteq> None" using e(2) n0 Cons.prems(5) by simp
  then have le: "shares_in env (ledger s2) c n0 \<le> issued env own (ledger s2) c" by (rule shares_le_issued)
  have t: "unat (attr_shares nft + attr_shares attr) = unat (attr_shares nft) + unat (attr_shares attr)"
    using Cons.prems(6) sum le n0' by (intro unat_add_bounded) simp
  have owns: "\<forall>x\<in>set xs. own (ledger s2) c (wd_nft_id x) \<noteq> None"
    using Cons.prems(2,3) e(2) by (auto simp: image_iff)
  have "unat (attr_shares (nft\<lparr>attr_shares := attr_shares nft + attr_shares attr\<rparr>)) + issued env own (ledger s2) c
      < 2 ^ 128 + shares_in env (ledger s2) c n0"
    using Cons.prems(6) sum t n0' by simp
  with Cons.IH [OF rest _ owns] Cons.prems(2,4) \<open>own (ledger s2) c n0 \<noteq> None\<close>
  have ih: "ledger_only s2 s'" "nft_delta env own c (- wd_nft_id ` set xs)
      (uint (attr_shares nft + attr_shares attr) - uint (attr_shares nft')) s2 s'" by simp_all
  have "nft_delta env own c (- wd_nft_id ` set (wd # xs)) (uint (attr_shares nft) - uint (attr_shares nft')) s s'"
    by (rule nft_delta_mono [OF nft_delta_trans [OF d(1) ih(2)]]) (use arg_cong [OF t, of int] sh in auto)
  with ih(1) e(1) show ?case by (blast intro: ledger_only_trans)
qed

lemma push_withdraw_cases:
  assumes "push_withdraw_in_queue env p nft a sh s = Some (Inr (r, p', nft', s'))"
  obtains (frozen) "share_price (pool_fx env) p = Some None" "r = None" "p' = p" "s' = s"
  | (queued) price n nft1 s1 where "share_price (pool_fx env) p = Some (Some price)" "r = Some n"
      "fold_call (requeue_one env (bp_cid p)) (filter (\<lambda>wd. wd_user wd = a) (withdraw_queue p)) (nft, s)
         = Some (Inr (nft1, s1))"
      "mint_nft env (bp_cid p) (pallet_id env) sh (bp_pid p) s1 = Some (Inr (n, s'))"
      "sh \<le> attr_shares nft1" "nft' = nft1\<lparr>attr_shares := attr_shares nft1 - sh\<rparr>"
      "p' = p\<lparr>withdraw_queue := filter (\<lambda>wd. wd_user wd \<noteq> a) (withdraw_queue p) @
         [\<lparr>wd_user = a, wd_start_time = pool_now_sec env, wd_nft_id = n\<rparr>]\<rparr>"
proof -
  from assms obtain pr where pr: "share_price (pool_fx env) p = Some pr"
    by (auto simp: push_withdraw_in_queue_def result_simps)
  show thesis
  proof (cases pr)
    case None
    with assms pr show thesis
      by (intro frozen) (auto simp: push_withdraw_in_queue_def expect_call_def result_simps)
  next
    case (Some price)
    with assms pr show thesis
      by (auto simp: push_withdraw_in_queue_def expect_call_def result_simps Let_def intro!: queued)
  qed
qed

lemma push_withdraw_effect:
  assumes laws: "ledger_laws env own" and b: "backed env own p s" and a: "a \<noteq> pallet_id env"
    and n0: "own (ledger s) (bp_cid p) n0 = Some a"
    and sh0: "shares_in env (ledger s) (bp_cid p) n0 = unat (attr_shares nft)"
    and push: "push_withdraw_in_queue env p nft a sh s = Some (Inr (Some n, p', nft', s'))"
  shows "same_pool p p'" and "queue_ok env own p' s'" and "total_shares p' = total_shares p" and "nft_only s s'"
    and "\<exists>K. n0 \<in> K \<and> nft_delta env own (bp_cid p) K (uint (attr_shares nft) - uint (attr_shares nft')) s s'"
    and "n0 \<notin> wd_nft_id ` set (withdraw_queue p')"
proof -
  let ?c = "bp_cid p" and ?xs = "filter (\<lambda>wd. wd_user wd = a) (withdraw_queue p)"
  note items = ledger_items [OF laws]
  have qk: "fresh_items own s" "distinct (map wd_nft_id (withdraw_queue p))"
    "\<And>wd. wd \<in> set (withdraw_queue p) \<Longrightarrow> own (ledger s) ?c (wd_nft_id wd) = Some (pallet_id env)"
    using b by (simp_all add: backed_def queue_ok_def)
  obtain nft1 s1 where f: "fold_call (requeue_one env ?c) ?xs (nft, s) = Some (Inr (nft1, s1))"
    and mi: "mint_nft env ?c (pallet_id env) sh (bp_pid p) s1 = Some (Inr (n, s'))"
    and le: "sh \<le> attr_shares nft1" and nft': "nft' = nft1\<lparr>attr_shares := attr_shares nft1 - sh\<rparr>"
    and p': "p' = p\<lparr>withdraw_queue := filter (\<lambda>wd. wd_user wd \<noteq> a) (withdraw_queue p) @
         [\<lparr>wd_user = a, wd_start_time = pool_now_sec env, wd_nft_id = n\<rparr>]\<rparr>"
    using push by (cases rule: push_withdraw_cases) auto
  have n0q: "n0 \<notin> wd_nft_id ` set (withdraw_queue p)" using qk(3) n0 a by (auto simp: image_iff)
  have d1: "distinct (map wd_nft_id ?xs)" using qk(2) by (simp add: distinct_map_filter)
  have owns: "\<forall>wd\<in>set ?xs. own (ledger s) ?c (wd_nft_id wd) \<noteq> None" using qk(3) by simp
  have n0x: "n0 \<notin> wd_nft_id ` set ?xs" using n0q by auto
  have live: "own (ledger s) ?c n0 \<noteq> None" using n0 by simp
  have "unat (attr_shares nft) + issued env own (ledger s) ?c < 2 ^ 128 + shares_in env (ledger s) ?c n0"
    using issued_bound [OF b] unfolding sh0 by linarith
  from requeue_fold_effect [OF items f d1 owns n0x live this]
  have fold: "ledger_only s s1" "nft_delta env own ?c (- wd_nft_id ` set ?xs)
      (uint (attr_shares nft) - uint (attr_shares nft1)) s s1" by simp_all
  note mint = mint_nft_delta [OF laws nft_deltaD(6) [OF fold(2) qk(1)] mi]
  have k: "uint (attr_shares nft) - uint (attr_shares nft1) + uint sh = uint (attr_shares nft) - uint (attr_shares nft')"
    using arg_cong [OF unat_sub_le [OF le], of int] le by (simp add: nft' of_nat_diff word_le_nat_alt)
  have d: "nft_delta env own ?c (- wd_nft_id ` set ?xs) (uint (attr_shares nft) - uint (attr_shares nft')) s s'"
    by (rule nft_delta_mono [OF nft_delta_trans [OF fold(2) mint(1)] _ k]) simp
  show "\<exists>K. n0 \<in> K \<and> nft_delta env own ?c K (uint (attr_shares nft) - uint (attr_shares nft')) s s'"
    by (rule exI [of _ "- wd_nft_id ` set ?xs"], rule conjI [OF _ d]) (use n0x in simp)
  show "same_pool p p'" "total_shares p' = total_shares p" by (simp_all add: p' same_pool_def)
  show "nft_only s s'" using ledger_only_nft [OF fold(1)] mint_nft_effect(1) [OF laws mi] by (rule nft_only_trans)
  have kept: "own (ledger s1) ?c (wd_nft_id wd) = Some (pallet_id env) \<and> own (ledger s') ?c (wd_nft_id wd) = Some (pallet_id env)"
    if "wd \<in> set (withdraw_queue p)" "wd_user wd \<noteq> a" for wd
  proof -
    have "wd_nft_id wd \<notin> wd_nft_id ` set ?xs"
      using qk(2) that by (auto simp: distinct_map dest: inj_onD)
    then show ?thesis
      using nft_deltaD(3) [OF fold(2), of "wd_nft_id wd"] nft_deltaD(3) [OF d, of "wd_nft_id wd"] qk(3) [OF that(1)] by simp
  qed
  have new: "n \<notin> wd_nft_id ` set (filter (\<lambda>wd. wd_user wd \<noteq> a) (withdraw_queue p))"
    using kept mint(3) by auto
  show "queue_ok env own p' s'"
    using kept new mint(2) qk(2) nft_deltaD(6) [OF d qk(1)]
    by (auto simp: queue_ok_def p' distinct_map_filter)
  have "own (ledger s1) ?c n0 = Some a" using nft_deltaD(3) [OF fold(2), of n0] n0 n0q by auto
  then have "n0 \<noteq> n" using mint(3) by auto
  then show "n0 \<notin> wd_nft_id ` set (withdraw_queue p')" using n0q by (auto simp: p')
qed

lemma excess_mask:
  assumes "own (ledger s) (bp_cid p) n \<noteq> None"
  shows "excess env (mask (bp_cid p) n own) p s
    = excess env own p s + int (shares_in env (ledger s) (bp_cid p) n)"
  using issued_mask [of own "ledger s" "bp_cid p" n env, OF assms] by (simp add: excess_def)

lemma queue_ok_mask:
  assumes "queue_ok env own p s" and "n \<notin> wd_nft_id ` set (withdraw_queue p)"
  shows "queue_ok env (mask (bp_cid p) n own) p s"
  using assms fresh_items_mask [of own s] by (auto simp: queue_ok_def mask_def image_iff)

text \<open>
  A withdrawal with the item \<open>n0\<close> of the withdrawer held in memory: over the other items the
  books balance once the shares in memory are counted.
\<close>

lemma try_withdraw_effect:
  assumes laws: "ledger_laws env own" and b: "backed env own p s" and a: "a \<noteq> pallet_id env"
    and n0: "own (ledger s) (bp_cid p) n0 = Some a"
    and sh0: "shares_in env (ledger s) (bp_cid p) n0 = unat (attr_shares nft)"
    and price: "share_price (pool_fx env) p \<noteq> Some None"
    and w: "try_withdraw env p nft a sh i v s = Some (Inr (p', nft', s'))"
  shows "same_pool p p'" and "queue_ok env own p' s'" and "nft_only s s'"
    and "own (ledger s') (bp_cid p) n0 = Some a"
    and "excess env (mask (bp_cid p) n0 own) p' s' = excess env own p s + uint (attr_shares nft')"
    and "\<exists>k. nft_delta env own (bp_cid p) {n0} k s s'"
proof -
  let ?c = "bp_cid p"
  from w price obtain n p1 s1 where
    push: "push_withdraw_in_queue env p nft a sh s = Some (Inr (Some n, p1, nft', s1))"
    and proc: "try_process_withdraw_queue env p1 (bp_deposit (WithdrawalQueued (bp_pid p1) a sh i v n) s1) = Some (Inr (p', s'))"
    by (auto simp: try_withdraw_def result_simps Let_def split: option.splits elim: push_withdraw_cases)
  let ?s1 = "bp_deposit (WithdrawalQueued (bp_pid p1) a sh i v n) s1"
  note items = ledger_items [OF laws]
  note pe = push_withdraw_effect [OF laws b a n0 sh0 push]
  obtain K where K: "n0 \<in> K" "nft_delta env own ?c K (uint (attr_shares nft) - uint (attr_shares nft')) s s1"
    using pe(5) by blast
  have l: "ledger ?s1 = ledger s1" "next_nft_id ?s1 = next_nft_id s1" by (simp_all add: bp_deposit_def)
  have c1: "bp_cid p1 = ?c" using same_poolD(4) [OF pe(1)] .
  have q1: "queue_ok env own p1 ?s1" using pe(2) l by (simp add: queue_ok_def fresh_items_def)
  have live1: "own (ledger ?s1) ?c n0 = Some a" "shares_in env (ledger ?s1) ?c n0 = unat (attr_shares nft)"
    using nft_deltaD(3,4) [OF K(2) K(1)] n0 sh0 l by simp_all
  have ex1: "excess env (mask ?c n0 own) p1 ?s1 = excess env own p s + uint (attr_shares nft')"
    using excess_mask [of own ?s1 p1 n0 env] live1 c1 nft_deltaD(5) [OF K(2)] pe(3) by (simp add: excess_def l)
  have "0 \<le> excess env own p s" using b by (simp add: backed_def)
  then have nonneg: "0 \<le> excess env (mask ?c n0 own) p1 ?s1" using ex1 by simp
  have step: "pool_step env own {n0} p1 ?s1 p' s'"
    by (rule try_process_step [OF items q1 proc]) (use pe(6) in auto)
  have mstep: "pool_step env (mask ?c n0 own) {} p1 ?s1 p' s'"
    using queue_ok_mask [OF q1 pe(6)] c1 by (intro try_process_step [OF item_laws_mask [OF items] _ proc]) simp_all
  show "same_pool p p'" using pe(1) pool_stepD(1) [OF step] by (rule same_pool_trans)
  show "queue_ok env own p' s'" by (rule pool_stepD(2) [OF step])
  have "nft_only s ?s1" using pe(4) nft_only_deposit by (rule nft_only_trans)
  then show "nft_only s s'" using pool_stepD(3) [OF step] by (rule nft_only_trans)
  obtain k where k: "nft_delta env own ?c {n0} k ?s1 s'" using pool_stepD(5) [OF step] c1 by auto
  show "own (ledger s') ?c n0 = Some a" using nft_deltaD(3) [OF k, of n0] live1 by simp
  show "excess env (mask ?c n0 own) p' s' = excess env own p s + uint (attr_shares nft')"
    using pool_stepD(4) [OF mstep nonneg] ex1 by simp
  have "nft_delta env own ?c K (uint (attr_shares nft) - uint (attr_shares nft')) s ?s1"
    using K(2) by (simp add: nft_delta_def l fresh_items_def)
  from nft_delta_trans [OF this k] show "\<exists>k. nft_delta env own ?c {n0} k s s'"
    using K(1) by (auto intro: nft_delta_mono)
qed

lemma save_settles:
  assumes laws: "item_laws env own" and live: "own (ledger s) (bp_cid p) n \<noteq> None"
    and q: "queue_ok env own p s" and sv: "guard_save env (bp_cid p) n nft s = Some (Inr s')"
    and ex: "excess env (mask (bp_cid p) n own) p s = E + uint (attr_shares nft)"
  shows "excess env own p s' = E" and "queue_ok env own p s'" and "own (ledger s') = own (ledger s)"
    and "\<exists>k. nft_delta env own (bp_cid p) (- {n}) k s s'"
    and "s' = s\<lparr>ledger := ledger s', nft_locks := nft_locks s - {(bp_cid p, n)}\<rparr>"
proof -
  let ?c = "bp_cid p"
  from sv obtain t where t: "set_nft_attr env ?c n nft s = Some (Inr t)" and s': "s' = guard_drop ?c n t"
    by (auto simp: guard_save_def result_simps)
  note te = set_nft_attr_effect [OF laws t]
  have l: "ledger s' = ledger t" "next_nft_id s' = next_nft_id s"
    using ledger_onlyD(1) [OF te(1)] by (simp_all add: s' guard_drop_def)
  have live': "own (ledger s') ?c n \<noteq> None" using live te(2) l by simp
  have "issued env (mask ?c n own) (ledger s') ?c = issued env (mask ?c n own) (ledger s) ?c"
    unfolding issued_def items_def l using te(2,3) by (intro sum.cong) (auto simp: mask_def split: if_splits)
  then have "excess env (mask ?c n own) p s' = E + uint (attr_shares nft)"
    using ex by (simp add: excess_def)
  with excess_mask [of own s' p n env, OF live'] te(3) l show "excess env own p s' = E" by simp
  show "own (ledger s') = own (ledger s)" using te(2) l by simp
  then show "queue_ok env own p s'" using q l by (simp add: queue_ok_def fresh_items_def)
  have "nft_delta env own ?c (- {n}) (uint (attr_shares nft) - int (shares_in env (ledger s) ?c n)) s s'"
    using set_nft_attr_delta [OF laws live t] l ledger_onlyD(1) [OF te(1)] by (simp add: nft_delta_def fresh_items_def)
  then show "\<exists>k. nft_delta env own ?c (- {n}) k s s'" by blast
  show "s' = s\<lparr>ledger := ledger s', nft_locks := nft_locks s - {(?c, n)}\<rparr>"
    using te(1) unfolding s' guard_drop_def ledger_only_def by (cases s, cases t) simp
qed

end
