(* ===== verification/Wrapped_Balances.thy ===== *)
theory Wrapped_Balances
  imports Base_Pool "HOL-Library.AList"
begin

text \<open>
  The wrapped balances pallet, \<^verbatim>\<open>pallets/cyrux/src/compute/wrapped_balances.rs\<close>: PHA is
  wrapped into the asset W-PHA that pools accept, W-PHA votes in referenda without leaving the
  pools, and what votes stays locked. The currency and \<^verbatim>\<open>pallet_democracy\<close> are parameters.
  Storage maps with a prefix iterate in the order of hashed keys; the model keeps the order of
  insertion.
\<close>

section \<open>State\<close>

record finance_account =
  fa_invest_pools :: "(u64 \<times> u32) list"
  fa_locked :: balance

definition finance_default :: finance_account where
  "finance_default = \<lparr>fa_invest_pools = [], fa_locked = 0\<rparr>"

datatype 'acc wb_event =
    DustRemoved 'acc balance
  | Wrapped 'acc balance
  | Unwrapped 'acc balance
  | Voted 'acc u32 balance balance

record ('acc, 'led, 'bank) wrapped_state = "('acc, 'led) base_pool_state" +
  vote_account_map :: "u32 \<Rightarrow> ('acc \<times> balance \<times> balance) list"
  account_vote_map :: "'acc \<Rightarrow> u32 list"
  staker_accounts :: "'acc \<rightharpoonup> finance_account"
  unmintable_dust :: balance
  wb_events :: "'acc wb_event list"
  comp :: "('acc, 'bank) computation"

text \<open>
  \<open>pha_transfer\<close> moves the native currency; its flag is \<open>KeepAlive\<close>. \<open>pha_slash\<close> slashes an
  account and hands the imbalance to \<open>OnSlashed\<close>.
\<close>

record ('acc, 'led, 'bank) wrapped_env = "('acc, 'led) pool_env" +
  wrapped_account :: 'acc
  pha_transfer :: "bool \<Rightarrow> 'acc \<Rightarrow> 'acc \<Rightarrow> balance \<Rightarrow> 'bank \<Rightarrow> 'bank option"
  pha_slash :: "'acc \<Rightarrow> balance \<Rightarrow> 'bank \<Rightarrow> 'bank"
  referendum_ongoing :: "u32 \<Rightarrow> 'led \<Rightarrow> bool"
  democracy_vote :: "'acc \<Rightarrow> u32 \<Rightarrow> balance \<Rightarrow> balance \<Rightarrow> 'led \<Rightarrow> 'led option"
  pool_comp_env :: "('acc, 'bank) comp_env"

definition wb_deposit ::
    "'acc wb_event \<Rightarrow> ('acc, 'led, 'bank, 'z) wrapped_state_scheme \<Rightarrow> ('acc, 'led, 'bank, 'z) wrapped_state_scheme" where
  "wb_deposit e s = s\<lparr>wb_events := wb_events s @ [e]\<rparr>"

definition move_pha ::
    "('acc, 'led, 'bank, 'y) wrapped_env_scheme \<Rightarrow> bool \<Rightarrow> 'acc \<Rightarrow> 'acc \<Rightarrow> balance \<Rightarrow>
     ('acc, 'led, 'bank, 'z) wrapped_state_scheme \<Rightarrow> ('acc, 'led, 'bank, 'z) wrapped_state_scheme pool_call" where
  "move_pha env keep_alive src dst amount s =
     (case pha_transfer env keep_alive src dst amount (bank (comp s)) of
        None \<Rightarrow> Some (Inl (Module Foreign))
      | Some b \<Rightarrow> ok_call (s\<lparr>comp := (comp s)\<lparr>bank := b\<rparr>\<rparr>))"

section \<open>Minting, burning and subscriptions\<close>

definition remove_dust ::
    "('acc, 'led, 'bank, 'y) wrapped_env_scheme \<Rightarrow> 'acc \<Rightarrow> balance \<Rightarrow>
     ('acc, 'led, 'bank, 'z) wrapped_state_scheme \<Rightarrow> ('acc, 'led, 'bank, 'z) wrapped_state_scheme pool_call" where
  "remove_dust env who dust s =
     (if dust = 0 then ok_call s
      else
        (case asset_burn_from env who dust (ledger s) of
           None \<Rightarrow> None
         | Some (actual_removed, l) \<Rightarrow>
             let c = comp s; acct = computing_account (pool_comp_env env);
                 s1 = s\<lparr>ledger := l, comp := c\<lparr>bank := pha_slash env acct dust (bank c)\<rparr>\<rparr>
             in ok_call (wb_deposit (DustRemoved who actual_removed) s1)))"

definition mint_into ::
    "('acc, 'led, 'bank, 'y) wrapped_env_scheme \<Rightarrow> 'acc \<Rightarrow> balance \<Rightarrow>
     ('acc, 'led, 'bank, 'z) wrapped_state_scheme \<Rightarrow> (bool \<times> ('acc, 'led, 'bank, 'z) wrapped_state_scheme) pool_call" where
  "mint_into env target amount s =
     (case asset_mint_into env target amount (ledger s) of
        BelowMinimum \<Rightarrow> ok_call (False, s\<lparr>unmintable_dust := unmintable_dust s + amount\<rparr>)
      | Minted l \<Rightarrow> ok_call (True, s\<lparr>ledger := l\<rparr>)
      | MintFailed \<Rightarrow> Some (Inl (Module Foreign)))"

definition burn_from ::
    "('acc, 'led, 'bank, 'y) wrapped_env_scheme \<Rightarrow> 'acc \<Rightarrow> balance \<Rightarrow>
     ('acc, 'led, 'bank, 'z) wrapped_state_scheme \<Rightarrow> ('acc, 'led, 'bank, 'z) wrapped_state_scheme pool_call" where
  "burn_from env target amount s =
     (case asset_burn_from env target amount (ledger s) of
        None \<Rightarrow> Some (Inl (Module Foreign))
      | Some (_, l) \<Rightarrow> ok_call (s\<lparr>ledger := l\<rparr>))"

definition maybe_subscribe_to_pool ::
    "'acc \<Rightarrow> u64 \<Rightarrow> u32 \<Rightarrow> ('acc, 'led, 'bank, 'z) wrapped_state_scheme \<Rightarrow>
     ('acc, 'led, 'bank, 'z) wrapped_state_scheme" where
  "maybe_subscribe_to_pool who p c s =
     (let status = (case staker_accounts s who of None \<Rightarrow> finance_default | Some x \<Rightarrow> x);
          status1 = (if (p, c) \<in> set (fa_invest_pools status) then status
                     else status\<lparr>fa_invest_pools := fa_invest_pools status @ [(p, c)]\<rparr>)
      in s\<lparr>staker_accounts := (staker_accounts s)(who \<mapsto> status1)\<rparr>)"

section \<open>Net value and votes\<close>

fun value_of_nfts ::
    "('acc, 'led, 'bank, 'y) wrapped_env_scheme \<Rightarrow> u64 \<Rightarrow> u32 \<Rightarrow> u32 list \<Rightarrow>
     balance \<times> ('acc, 'led, 'bank, 'z) wrapped_state_scheme \<Rightarrow>
     (balance \<times> ('acc, 'led, 'bank, 'z) wrapped_state_scheme) pool_call" where
  "value_of_nfts env p c [] (v, s) = ok_call (v, s)"
| "value_of_nfts env p c (n # ns) (v, s) =
     bind_call (unwrap_call (get_nft_attr_guard env c n s)) (\<lambda>(attr, s1).
     bind_call (expect_call (pools s1 p)) (\<lambda>proxy.
     bind_call (expect_call (share_price (pool_fx env) (proxy_basepool proxy))) (\<lambda>maybe_price.
     bind_call (case maybe_price of
         None \<Rightarrow> ok_call v
       | Some price \<Rightarrow> bind_call (expect_call (bmul (pool_fx env) (attr_shares attr) price)) (\<lambda>x. ok_call (v + x))) (\<lambda>v1.
     value_of_nfts env p c ns (v1, guard_drop c n s1)))))"

definition get_net_value ::
    "('acc, 'led, 'bank, 'y) wrapped_env_scheme \<Rightarrow> 'acc \<Rightarrow> ('acc, 'led, 'bank, 'z) wrapped_state_scheme \<Rightarrow>
     (balance \<times> ('acc, 'led, 'bank, 'z) wrapped_state_scheme) pool_call" where
  "get_net_value env who s =
     (let total_active_stakes = asset_balance env who (ledger s) in
      case staker_accounts s who of
        None \<Rightarrow> ok_call (total_active_stakes, s)
      | Some status \<Rightarrow>
          fold_call (\<lambda>(p, c) (v, s). value_of_nfts env p c (owned_in_collection env c who (ledger s)) (v, s))
            (fa_invest_pools status) (total_active_stakes, s))"

definition accumulate_account_vote ::
    "u32 \<Rightarrow> ('acc, 'led, 'bank, 'z) wrapped_state_scheme \<Rightarrow> balance \<times> balance" where
  "accumulate_account_vote vote_id s =
     fold (\<lambda>(_, aye, nay) (total_aye, total_nay). (total_aye + aye, total_nay + nay))
       (vote_account_map s vote_id) (0, 0)"

fun max_locked ::
    "'acc \<Rightarrow> (u32 \<Rightarrow> ('acc \<times> balance \<times> balance) list) \<Rightarrow> u32 list \<Rightarrow> balance \<Rightarrow> balance option" where
  "max_locked user votes [] m = Some m"
| "max_locked user votes (vote_id # ids) m =
     (case map_of (votes vote_id) user of
        None \<Rightarrow> None
      | Some (aye, nay) \<Rightarrow> max_locked user votes ids (max m (aye + nay)))"

definition update_user_locked ::
    "'acc \<Rightarrow> ('acc, 'led, 'bank, 'z) wrapped_state_scheme \<Rightarrow> ('acc, 'led, 'bank, 'z) wrapped_state_scheme pool_call" where
  "update_user_locked user s =
     bind_call (expect_call (max_locked user (vote_account_map s) (account_vote_map s user) 0)) (\<lambda>max_lock.
     bind_call (Some (ok_or (staker_accounts s user) (Module (Wb WbStakerAccountNotFound)))) (\<lambda>status.
     ok_call (s\<lparr>staker_accounts := (staker_accounts s)(user \<mapsto> status\<lparr>fa_locked := max_lock\<rparr>)\<rparr>)))"

section \<open>Extrinsics\<close>

definition wrap ::
    "('acc, 'led, 'bank, 'y) wrapped_env_scheme \<Rightarrow> 'acc raw_origin \<Rightarrow> balance \<Rightarrow>
     ('acc, 'led, 'bank, 'z) wrapped_state_scheme \<Rightarrow> ('acc, 'led, 'bank, 'z) wrapped_state_scheme pool_call" where
  "wrap env orig amount s =
     bind_call (Some (ensure_signed orig)) (\<lambda>user.
     bind_call (move_pha env True user (wrapped_account env) amount s) (\<lambda>s1.
     bind_call (mint_into env user amount s1) (\<lambda>(_, s2).
     let s3 = (if staker_accounts s2 user \<noteq> None then s2
               else s2\<lparr>staker_accounts := (staker_accounts s2)(user \<mapsto> finance_default)\<rparr>)
     in ok_call (wb_deposit (Wrapped user amount) s3))))"

definition locked_of :: "'acc \<Rightarrow> ('acc, 'led, 'bank, 'z) wrapped_state_scheme \<Rightarrow> balance" where
  "locked_of user s = (case staker_accounts s user of None \<Rightarrow> 0 | Some status \<Rightarrow> fa_locked status)"

definition unwrap_all ::
    "('acc, 'led, 'bank, 'y) wrapped_env_scheme \<Rightarrow> 'acc raw_origin \<Rightarrow>
     ('acc, 'led, 'bank, 'z) wrapped_state_scheme \<Rightarrow> ('acc, 'led, 'bank, 'z) wrapped_state_scheme pool_call" where
  "unwrap_all env orig s =
     bind_call (Some (ensure_signed orig)) (\<lambda>user.
     bind_call (get_net_value env user s) (\<lambda>(active_stakes, s1).
     let free_stakes = asset_balance env user (ledger s1);
         withdraw_amount = min (active_stakes - locked_of user s1) free_stakes
     in
     bind_call (move_pha env False (wrapped_account env) user withdraw_amount s1) (\<lambda>s2.
     burn_from env user withdraw_amount s2)))"

definition unwrap ::
    "('acc, 'led, 'bank, 'y) wrapped_env_scheme \<Rightarrow> 'acc raw_origin \<Rightarrow> balance \<Rightarrow>
     ('acc, 'led, 'bank, 'z) wrapped_state_scheme \<Rightarrow> ('acc, 'led, 'bank, 'z) wrapped_state_scheme pool_call" where
  "unwrap env orig amount s =
     bind_call (Some (ensure_signed orig)) (\<lambda>user.
     let free_stakes = asset_balance env user (ledger s) in
     bind_call (Some (ensure (amount \<le> free_stakes) (Module (Wb WbUnwrapAmountExceedsAvaliableStake)))) (\<lambda>_.
     bind_call (get_net_value env user s) (\<lambda>(active_stakes, s1).
     bind_call (Some (ensure (amount + locked_of user s1 \<le> active_stakes)
                  (Module (Wb WbUnwrapAmountExceedsAvaliableStake)))) (\<lambda>_.
     bind_call (move_pha env False (wrapped_account env) user amount s1) (\<lambda>s2.
     bind_call (burn_from env user amount s2) (\<lambda>s3.
     ok_call (wb_deposit (Unwrapped user amount) s3)))))))"

definition record_vote ::
    "'acc \<Rightarrow> u32 \<Rightarrow> balance \<Rightarrow> balance \<Rightarrow> ('acc, 'led, 'bank, 'z) wrapped_state_scheme \<Rightarrow>
     ('acc, 'led, 'bank, 'z) wrapped_state_scheme" where
  "record_vote user vote_id aye nay s =
     s\<lparr>vote_account_map := (vote_account_map s)(vote_id := AList.update user (aye, nay) (vote_account_map s vote_id)),
       account_vote_map := (account_vote_map s)(user := List.insert vote_id (account_vote_map s user))\<rparr>"

definition wb_vote ::
    "('acc, 'led, 'bank, 'y) wrapped_env_scheme \<Rightarrow> 'acc raw_origin \<Rightarrow> balance \<Rightarrow> balance \<Rightarrow> u32 \<Rightarrow>
     ('acc, 'led, 'bank, 'z) wrapped_state_scheme \<Rightarrow> ('acc, 'led, 'bank, 'z) wrapped_state_scheme pool_call" where
  "wb_vote env orig aye_amount nay_amount vote_id s =
     bind_call (Some (ensure_signed orig)) (\<lambda>user.
     bind_call (Some (ensure (referendum_ongoing env vote_id (ledger s)) (Module (Wb WbReferendumInvalid)))) (\<lambda>_.
     bind_call (get_net_value env user s) (\<lambda>(active_stakes, s1).
     bind_call (Some (ensure (active_stakes \<ge> aye_amount + nay_amount)
                  (Module (Wb WbVoteAmountLargerThanTotalStakes)))) (\<lambda>_.
     let s2 = record_vote user vote_id aye_amount nay_amount s1;
         (total_aye, total_nay) = accumulate_account_vote vote_id s2
     in
     bind_call (on_ledger (democracy_vote env (wrapped_account env) vote_id total_aye total_nay) s2) (\<lambda>s3.
     bind_call (update_user_locked user s3) (\<lambda>s4.
     ok_call (wb_deposit (Voted user vote_id aye_amount nay_amount) s4)))))))"

definition MAX_ITERRATIONS :: u32 where
  "MAX_ITERRATIONS = 100"

definition unlock_one ::
    "u32 \<Rightarrow> 'acc \<Rightarrow> ('acc, 'led, 'bank, 'z) wrapped_state_scheme \<Rightarrow> ('acc, 'led, 'bank, 'z) wrapped_state_scheme pool_call" where
  "unlock_one vote_id user s =
     (let s1 = s\<lparr>vote_account_map := (vote_account_map s)(vote_id := AList.delete user (vote_account_map s vote_id)),
                account_vote_map := (account_vote_map s)(user := removeAll vote_id (account_vote_map s user))\<rparr>
      in unwrap_call (update_user_locked user s1))"

definition wb_unlock ::
    "('acc, 'led, 'bank, 'y) wrapped_env_scheme \<Rightarrow> 'acc raw_origin \<Rightarrow> u32 \<Rightarrow> u32 \<Rightarrow>
     ('acc, 'led, 'bank, 'z) wrapped_state_scheme \<Rightarrow> ('acc, 'led, 'bank, 'z) wrapped_state_scheme pool_call" where
  "wb_unlock env orig vote_id max_iterations s =
     bind_call (Some (ensure_signed orig)) (\<lambda>_.
     bind_call (Some (ensure (\<not> referendum_ongoing env vote_id (ledger s)) (Module (Wb WbReferendumOngoing)))) (\<lambda>_.
     bind_call (Some (ensure (0 < max_iterations \<and> max_iterations \<le> MAX_ITERRATIONS)
                  (Module (Wb WbIterationsIsNotVaild)))) (\<lambda>_.
     fold_call (unlock_one vote_id) (take (unat max_iterations) (map fst (vote_account_map s vote_id))) s)))"

text \<open>The hooks of NFT transfers: the NFTs of pools do not move.\<close>

definition transfer_pre_check :: "u32 \<Rightarrow> ('acc, 'led, 'z) base_pool_state_scheme \<Rightarrow> bool" where
  "transfer_pre_check c s \<longleftrightarrow> pool_collections s c = None"

definition post_transfer ::
    "('acc, 'led, 'y) pool_env_scheme \<Rightarrow> 'acc \<Rightarrow> u32 \<Rightarrow> ('acc, 'led, 'z) base_pool_state_scheme \<Rightarrow>
     (bool \<times> ('acc, 'led, 'z) base_pool_state_scheme) pool_call" where
  "post_transfer env recipient c s =
     (case pool_collections s c of
        None \<Rightarrow> ok_call (True, s)
      | Some p \<Rightarrow>
          bind_call (unwrap_call (merge_nft_for_staker env c recipient p s)) (\<lambda>(_, s1). ok_call (True, s1)))"

definition min_balance :: "('acc, 'led, 'y) pool_env_scheme \<Rightarrow> ('acc, 'led, 'z) base_pool_state_scheme \<Rightarrow> balance pool_call" where
  "min_balance env s = expect_call (asset_minimum env (ledger s))"

end
