(* ===== verification/Stake_Pool.thy ===== *)
theory Stake_Pool
  imports Wrapped_Balances
begin

text \<open>
  The stake pool pallet, \<^verbatim>\<open>pallets/cyrux/src/compute/stake_pool_v2.rs\<close>: pools of workers that
  compute with the stake contributed to the pool. It drives the sessions of the computation
  pallet and listens to its rewards and unbindings. A call that fails leaves the state as it
  was, so errors carry no state.
\<close>

section \<open>State\<close>

datatype 'acc sp_event =
    PoolCreated 'acc u64 u32 'acc
  | PoolCommissionSet u64 u32
  | PoolCapacitySet u64 balance
  | PoolWorkerAdded u64 worker_public_key 'acc
  | Contribution u64 'acc balance balance "u64 option"
  | OwnerRewardsWithdrawn u64 'acc balance
  | PoolSlashed u64 balance
  | RewardDismissedNotInPool worker_public_key balance
  | RewardDismissedNoShare u64 balance
  | RewardDismissedDust u64 balance
  | PoolWorkerRemoved u64 worker_public_key
  | PoolWorkerReclaimed u64 worker_public_key
  | RewardReceived u64 balance balance
  | WorkingStarted u64 worker_public_key balance
  | RewardToOwnerDismissedDust u64 balance
  | RewardToDistributionDismissedDust u64 balance

datatype force_shutdown_reason = NoEnoughReleasingStake | Waiting3xGracePeriod

datatype 'acc vault_event =
    VaultCreated 'acc u64 u32 'acc
  | VaultCommissionSet u64 u32
  | OwnerSharesClaimed u64 'acc balance
  | OwnerSharesGained u64 balance balance
  | VaultContribution u64 'acc balance balance
  | ForceShutdown u64 force_shutdown_reason

record ('acc, 'led, 'bank) pools_state = "('acc, 'led, 'bank) wrapped_state" +
  legacy_rewards :: "'acc \<times> u64 \<rightharpoonup> balance"
  worker_assignments :: "worker_public_key \<rightharpoonup> u64"
  sub_account_preimages :: "'acc \<rightharpoonup> u64 \<times> worker_public_key"
  sp_events :: "'acc sp_event list"
  vault_locks :: "u64 set"
  vault_events :: "'acc vault_event list"

record ('acc, 'led, 'bank) pools_env = "('acc, 'led, 'bank) wrapped_env" +
  min_contribution :: balance
  grace_period :: u64
  max_pool_workers :: u32
  initial_price_check_point :: balance
  vault_queue_period :: u64

type_synonym ('acc, 'led, 'bank) pools_call = "('acc, 'led, 'bank) pools_state pool_call"

definition sp_deposit ::
    "'acc sp_event \<Rightarrow> ('acc, 'led, 'bank) pools_state \<Rightarrow> ('acc, 'led, 'bank) pools_state" where
  "sp_deposit e s = s\<lparr>sp_events := sp_events s @ [e]\<rparr>"

text \<open>A call into the computation pallet.\<close>

definition lift_comp ::
    "('acc, 'bank) computation comp_call \<Rightarrow> ('acc, 'led, 'bank) pools_state \<Rightarrow> ('acc, 'led, 'bank) pools_call" where
  "lift_comp r s =
     (case r of
        None \<Rightarrow> None
      | Some (Inl e) \<Rightarrow> Some (Inl (Module (Comp e)))
      | Some (Inr c) \<Rightarrow> ok_call (s\<lparr>comp := c\<rparr>))"

section \<open>Accounts\<close>

definition pool_sub_account :: "('acc, 'led, 'y) pool_env_scheme \<Rightarrow> u64 \<Rightarrow> worker_public_key \<Rightarrow> 'acc" where
  "pool_sub_account env p pk =
     (let h = pool_blake2_256 env (le_bytes 8 p @ pk) in decode_account env (ascii ''spm/'' @ h))"

definition generate_owner_and_lock_account :: "('acc, 'led, 'y) pool_env_scheme \<Rightarrow> u64 \<Rightarrow> 'acc \<Rightarrow> 'acc \<times> 'acc" where
  "generate_owner_and_lock_account env p own =
     (let h = pool_blake2_256 env (le_bytes 8 p @ encode_account env own)
      in (decode_account env (ascii ''so/'' @ h), decode_account env (ascii ''sl/'' @ h)))"

section \<open>Pools and workers\<close>

definition sp_create ::
    "('acc, 'led, 'bank) pools_env \<Rightarrow> 'acc raw_origin \<Rightarrow> ('acc, 'led, 'bank) pools_state \<Rightarrow> ('acc, 'led, 'bank) pools_call" where
  "sp_create env orig s =
     bind_call (Some (ensure_signed orig)) (\<lambda>own.
     let (p, s1) = consume_new_pid s; (c, s2) = consume_new_cid s1 in
     bind_call (expect_call (bounded (symbol_limit env) (ascii ''STAKEPOOL-'' @ decimal (unat p)))) (\<lambda>symbol.
     bind_call (on_ledger (create_collection env (pallet_id env) c symbol) s2) (\<lambda>s3.
     let account = generate_staker_account env p own;
         (reward_acc, lock_acc) = generate_owner_and_lock_account env p own;
         bp = \<lparr>bp_pid = p, bp_owner = own, total_shares = 0, total_value = 0, withdraw_queue = [],
               value_subscribers = [], bp_cid = c, pool_account_id = account\<rparr>;
         sp = \<lparr>sp_basepool = bp, payout_commission = None, sp_cap = None, sp_workers = [], cd_workers = [],
               lock_account = lock_acc, owner_reward_account = reward_acc\<rparr>;
         s4 = insert_pool p (ProxyStakePool sp) s3;
         s5 = s4\<lparr>pool_collections := (pool_collections s4)(c \<mapsto> p)\<rparr>
     in ok_call (sp_deposit (PoolCreated own p c account) s5))))"

definition add_worker ::
    "('acc, 'led, 'bank) pools_env \<Rightarrow> 'acc raw_origin \<Rightarrow> u64 \<Rightarrow> worker_public_key \<Rightarrow>
     ('acc, 'led, 'bank) pools_state \<Rightarrow> ('acc, 'led, 'bank) pools_call" where
  "add_worker env orig p pk s =
     bind_call (Some (ensure_signed orig)) (\<lambda>own.
     bind_call (Some (ok_or (workers (comp_registry (pool_comp_env env)) pk) (Module (Sp SpWorkerNotRegistered)))) (\<lambda>winfo.
     bind_call (Some (ensure (operator winfo = Some own) (Module (Sp SpUnauthorizedOperator)))) (\<lambda>_.
     bind_call (Some (ensure (initial_score winfo \<noteq> None) (Module (Sp SpBenchmarkMissing)))) (\<lambda>_.
     bind_call (Some (ensure_stake_pool p s)) (\<lambda>pool.
     bind_call (Some (ensure (bp_owner (sp_basepool pool) = own) (Module (Sp SpUnauthorizedPoolOwner)))) (\<lambda>_.
     bind_call (Some (ensure (pk \<notin> set (sp_workers pool)) (Module (Sp SpWorkerExists)))) (\<lambda>_.
     bind_call (Some (ensure (length (sp_workers pool) < unat (max_pool_workers env)) (Module (Sp SpWorkersExceedLimit)))) (\<lambda>_.
     let session = pool_sub_account env p pk in
     (case bind (pool_comp_env env) session pk (comp s) of
        Inl _ \<Rightarrow> Some (Inl (Module (Sp SpFailedToBindSessionAndWorker)))
      | Inr c \<Rightarrow>
          let s1 = s\<lparr>comp := c, sub_account_preimages := (sub_account_preimages s)(session \<mapsto> (p, pk))\<rparr>;
              s2 = insert_pool p (ProxyStakePool (pool\<lparr>sp_workers := sp_workers pool @ [pk]\<rparr>)) s1;
              s3 = s2\<lparr>worker_assignments := (worker_assignments s2)(pk \<mapsto> p)\<rparr>
          in ok_call (sp_deposit (PoolWorkerAdded p pk session) s3))))))))))"

definition remove_worker_from_pool ::
    "worker_public_key \<Rightarrow> ('acc, 'led, 'bank) pools_state \<Rightarrow> ('acc, 'led, 'bank) pools_call" where
  "remove_worker_from_pool worker s =
     bind_call (expect_call (worker_assignments s worker)) (\<lambda>p.
     let s1 = s\<lparr>worker_assignments := (worker_assignments s)(worker := None)\<rparr> in
     (case pools s1 p of
        Some (ProxyStakePool pool) \<Rightarrow>
          ok_call (sp_deposit (PoolWorkerRemoved p worker)
            (insert_pool p (ProxyStakePool (pool_remove_worker worker pool)) s1))
      | _ \<Rightarrow> ok_call s1))"

definition sp_remove_worker ::
    "('acc, 'led, 'bank) pools_env \<Rightarrow> 'acc raw_origin \<Rightarrow> u64 \<Rightarrow> worker_public_key \<Rightarrow>
     ('acc, 'led, 'bank) pools_state \<Rightarrow> ('acc, 'led, 'bank) pools_call" where
  "sp_remove_worker env orig p worker s =
     bind_call (Some (ensure_signed orig)) (\<lambda>who.
     bind_call (Some (ensure_stake_pool p s)) (\<lambda>pool.
     bind_call (Some (ensure (bp_owner (sp_basepool pool) = who) (Module (Sp SpUnauthorizedPoolOwner)))) (\<lambda>_.
     bind_call (Some (ok_or (worker_assignments s worker) (Module (Sp SpWorkerDoesNotExist)))) (\<lambda>lookup_pid.
     bind_call (Some (ensure (p = lookup_pid) (Module (Sp SpWorkerInAnotherPool)))) (\<lambda>_.
     let sub_account = pool_sub_account env p worker in
     bind_call (Some (ok_or (sessions (comp s) sub_account) (Module (Sp SpSessionDoesNotExist)))) (\<lambda>session.
     bind_call (Some (ensure (ss_state session = Ready) (Module (Sp SpWorkerIsNotReady)))) (\<lambda>_.
     bind_call (lift_comp (unbind_session (pool_comp_env env) sub_account False (comp s)) s) (\<lambda>s1.
     remove_worker_from_pool worker s1))))))))"

definition set_cap ::
    "'acc raw_origin \<Rightarrow> u64 \<Rightarrow> balance \<Rightarrow> ('acc, 'led, 'bank) pools_state \<Rightarrow> ('acc, 'led, 'bank) pools_call" where
  "set_cap orig p cap s =
     bind_call (Some (ensure_signed orig)) (\<lambda>own.
     bind_call (Some (ensure_stake_pool p s)) (\<lambda>pool.
     bind_call (Some (ensure (bp_owner (sp_basepool pool) = own) (Module (Sp SpUnauthorizedPoolOwner)))) (\<lambda>_.
     bind_call (Some (ensure (total_value (sp_basepool pool) \<le> cap) (Module (Sp SpInadequateCapacity)))) (\<lambda>_.
     ok_call (sp_deposit (PoolCapacitySet p cap)
       (insert_pool p (ProxyStakePool (pool\<lparr>sp_cap := Some cap\<rparr>)) s))))))"

definition sp_set_payout_pref ::
    "'acc raw_origin \<Rightarrow> u64 \<Rightarrow> u32 option \<Rightarrow> ('acc, 'led, 'bank) pools_state \<Rightarrow> ('acc, 'led, 'bank) pools_call" where
  "sp_set_payout_pref orig p commission s =
     bind_call (Some (ensure_signed orig)) (\<lambda>own.
     bind_call (Some (ensure_stake_pool p s)) (\<lambda>pool.
     bind_call (Some (ensure (bp_owner (sp_basepool pool) = own) (Module (Sp SpUnauthorizedPoolOwner)))) (\<lambda>_.
     let s1 = insert_pool p (ProxyStakePool (pool\<lparr>payout_commission := commission\<rparr>)) s
     in ok_call (sp_deposit (PoolCommissionSet p (case commission of None \<Rightarrow> 0 | Some r \<Rightarrow> r)) s1))))"

definition claim_legacy_rewards ::
    "('acc, 'led, 'bank) pools_env \<Rightarrow> 'acc raw_origin \<Rightarrow> u64 \<Rightarrow> 'acc \<Rightarrow>
     ('acc, 'led, 'bank) pools_state \<Rightarrow> ('acc, 'led, 'bank) pools_call" where
  "claim_legacy_rewards env orig p target s =
     bind_call (Some (ensure_signed orig)) (\<lambda>who.
     bind_call (Some (ok_or (legacy_rewards s (who, p)) (Module (Sp SpNoLegacyRewardToClaim)))) (\<lambda>rewards.
     let s1 = s\<lparr>legacy_rewards := (legacy_rewards s)((who, p) := None)\<rparr> in
     (case withdraw_subsidy_pool (pool_comp_env env) target rewards (comp s1) of
        Inl _ \<Rightarrow> Some (Inl (Module (Sp SpInternalSubsidyPoolCannotWithdraw)))
      | Inr c \<Rightarrow> ok_call (s1\<lparr>comp := c\<rparr>))))"

definition claim_owner_rewards ::
    "('acc, 'led, 'bank) pools_env \<Rightarrow> 'acc raw_origin \<Rightarrow> u64 \<Rightarrow> 'acc \<Rightarrow>
     ('acc, 'led, 'bank) pools_state \<Rightarrow> ('acc, 'led, 'bank) pools_call" where
  "claim_owner_rewards env orig p target s =
     bind_call (Some (ensure_signed orig)) (\<lambda>who.
     bind_call (Some (ensure_stake_pool p s)) (\<lambda>pool.
     bind_call (Some (ensure (who = bp_owner (sp_basepool pool)) (Module (Sp SpUnauthorizedPoolOwner)))) (\<lambda>_.
     let rewards = asset_balance env (owner_reward_account pool) (ledger s) in
     bind_call (Some (ensure (rewards > 0) (Module (Sp SpNoRewardToClaim)))) (\<lambda>_.
     bind_call (asset_move env (owner_reward_account pool) target rewards s) (\<lambda>s1.
     ok_call (sp_deposit (OwnerRewardsWithdrawn p who rewards) s1))))))"

section \<open>Computing\<close>

definition do_start_computing ::
    "('acc, 'led, 'bank) pools_env \<Rightarrow> 'acc \<Rightarrow> u64 \<Rightarrow> worker_public_key \<Rightarrow> balance \<Rightarrow>
     ('acc, 'led, 'bank) pools_state \<Rightarrow> ('acc, 'led, 'bank) pools_call" where
  "do_start_computing env own p worker stake s =
     bind_call (Some (ensure_stake_pool p s)) (\<lambda>pool.
     bind_call (Some (ensure (bp_owner (sp_basepool pool) = own) (Module (Sp SpUnauthorizedPoolOwner)))) (\<lambda>_.
     bind_call (Some (ensure (get_free_stakes env (sp_basepool pool) s \<ge> stake) (Module (Sp SpInsufficientFreeStake)))) (\<lambda>_.
     bind_call (Some (ensure (worker \<in> set (sp_workers pool)) (Module (Sp SpWorkerDoesNotExist)))) (\<lambda>_.
     let session = pool_sub_account env p worker in
     bind_call (lift_comp (start_computing (pool_comp_env env) session stake (comp s)) s) (\<lambda>s1.
     bind_call (asset_move env (pool_account_id (sp_basepool pool)) (lock_account pool) stake s1) (\<lambda>s2.
     ok_call (sp_deposit (WorkingStarted p worker stake) (insert_pool p (ProxyStakePool pool) s2))))))))"

definition do_stop_computing ::
    "('acc, 'led, 'bank) pools_env \<Rightarrow> 'acc \<Rightarrow> u64 \<Rightarrow> worker_public_key \<Rightarrow>
     ('acc, 'led, 'bank) pools_state \<Rightarrow> ('acc, 'led, 'bank) pools_call" where
  "do_stop_computing env own p worker s =
     bind_call (Some (ensure_stake_pool p s)) (\<lambda>pool.
     bind_call (Some (ensure (bp_owner (sp_basepool pool) = own) (Module (Sp SpUnauthorizedPoolOwner)))) (\<lambda>_.
     bind_call (Some (ensure (worker \<in> set (sp_workers pool)) (Module (Sp SpWorkerDoesNotExist)))) (\<lambda>_.
     bind_call (Some (ensure (worker \<notin> set (cd_workers pool)) (Module (Sp SpWorkerAlreadyStopped)))) (\<lambda>_.
     let session = pool_sub_account env p worker in
     bind_call (lift_comp (Some (stop_computing (pool_comp_env env) session (comp s))) s) (\<lambda>s1.
     ok_call (insert_pool p (ProxyStakePool (pool\<lparr>cd_workers := cd_workers pool @ [worker]\<rparr>)) s1))))))"

definition handle_reclaim ::
    "('acc::linorder, 'led, 'bank) pools_env \<Rightarrow> u64 \<Rightarrow> balance \<Rightarrow> balance \<Rightarrow>
     ('acc, 'led, 'bank) pools_state \<Rightarrow> ('acc, 'led, 'bank) pools_call" where
  "handle_reclaim env p orig_stake slashed s =
     bind_call (unwrap_call (Some (ensure_stake_pool p s))) (\<lambda>pool.
     let returned = orig_stake - slashed;
         (pool1, s1) = (if slashed \<noteq> 0
            then (pool\<lparr>sp_basepool := slash slashed (sp_basepool pool)\<rparr>, sp_deposit (PoolSlashed p slashed) s)
            else (pool, s))
     in
     bind_call (unwrap_call (asset_move env (lock_account pool1) (pool_account_id (sp_basepool pool1)) returned s1)) (\<lambda>s2.
     bind_call (try_process_withdraw_queue env (sp_basepool pool1) s2) (\<lambda>(bp, s3).
     ok_call (insert_pool p (ProxyStakePool (pool1\<lparr>sp_basepool := bp\<rparr>)) s3))))"

definition do_reclaim ::
    "('acc::linorder, 'led, 'bank) pools_env \<Rightarrow> u64 \<Rightarrow> 'acc \<Rightarrow> worker_public_key \<Rightarrow> bool \<Rightarrow>
     ('acc, 'led, 'bank) pools_state \<Rightarrow> ((balance \<times> balance) \<times> ('acc, 'led, 'bank) pools_state) pool_call" where
  "do_reclaim env p sub_account worker check_cooldown s =
     (case reclaim (pool_comp_env env) sub_account check_cooldown (comp s) of
        Inl e \<Rightarrow> Some (Inl (Module (Comp e)))
      | Inr (c, orig_stake, slashed) \<Rightarrow>
          bind_call (handle_reclaim env p orig_stake slashed (s\<lparr>comp := c\<rparr>)) (\<lambda>s1.
          let s2 = sp_deposit (PoolWorkerReclaimed p worker) s1 in
          bind_call (Some (ensure_stake_pool p s2)) (\<lambda>pool.
          ok_call ((orig_stake, slashed),
            insert_pool p (ProxyStakePool (pool_remove_cd_worker worker pool)) s2))))"

definition pool_start_computing ::
    "('acc, 'led, 'bank) pools_env \<Rightarrow> 'acc raw_origin \<Rightarrow> u64 \<Rightarrow> worker_public_key \<Rightarrow> balance \<Rightarrow>
     ('acc, 'led, 'bank) pools_state \<Rightarrow> ('acc, 'led, 'bank) pools_call" where
  "pool_start_computing env orig p worker stake s =
     bind_call (Some (ensure_signed orig)) (\<lambda>own. do_start_computing env own p worker stake s)"

definition pool_stop_computing ::
    "('acc, 'led, 'bank) pools_env \<Rightarrow> 'acc raw_origin \<Rightarrow> u64 \<Rightarrow> worker_public_key \<Rightarrow>
     ('acc, 'led, 'bank) pools_state \<Rightarrow> ('acc, 'led, 'bank) pools_call" where
  "pool_stop_computing env orig p worker s =
     bind_call (Some (ensure_signed orig)) (\<lambda>own. do_stop_computing env own p worker s)"

definition reclaim_pool_worker ::
    "('acc::linorder, 'led, 'bank) pools_env \<Rightarrow> 'acc raw_origin \<Rightarrow> u64 \<Rightarrow> worker_public_key \<Rightarrow>
     ('acc, 'led, 'bank) pools_state \<Rightarrow> ('acc, 'led, 'bank) pools_call" where
  "reclaim_pool_worker env orig p worker s =
     bind_call (Some (ensure_signed orig)) (\<lambda>_.
     bind_call (Some (ensure_stake_pool p s)) (\<lambda>_.
     bind_call (do_reclaim env p (pool_sub_account env p worker) worker True s) (\<lambda>(_, s1). ok_call s1)))"

definition restart_computing ::
    "('acc::linorder, 'led, 'bank) pools_env \<Rightarrow> 'acc raw_origin \<Rightarrow> u64 \<Rightarrow> worker_public_key \<Rightarrow> balance \<Rightarrow>
     ('acc, 'led, 'bank) pools_state \<Rightarrow> ('acc, 'led, 'bank) pools_call" where
  "restart_computing env orig p worker stake s =
     bind_call (Some (ensure_signed orig)) (\<lambda>own.
     bind_call (Some (ensure_stake_pool p s)) (\<lambda>pool.
     bind_call (Some (ensure ((of_nat (length (withdraw_queue (sp_basepool pool))) :: u32) \<le> 0) (Module (Sp SpWithdrawQueueNotEmpty)))) (\<lambda>_.
     bind_call (do_stop_computing env own p worker s) (\<lambda>s1.
     bind_call (do_reclaim env p (pool_sub_account env p worker) worker False s1) (\<lambda>((orig_stake, slashed), s2).
     let released = orig_stake - slashed in
     bind_call (Some (ensure (stake > released) (Module (Sp SpCannotRestartWithLessStake)))) (\<lambda>_.
     do_start_computing env own p worker stake s2))))))"

section \<open>Contributions and withdrawals\<close>

definition ensure_vault_owner ::
    "u64 \<Rightarrow> 'acc \<Rightarrow> ('acc, 'led, 'bank) pools_state \<Rightarrow> pool_error dispatch_error + 'acc vault" where
  "ensure_vault_owner vault_pid who s =
     bind_result (ensure_vault vault_pid s) (\<lambda>vault_info.
     bind_result (ensure (vault_pid \<notin> vault_locks s) (Module (Sp SpVaultIsLocked))) (\<lambda>_.
     bind_result (ensure (who = bp_owner (v_basepool vault_info)) (Module (Sp SpUnauthorizedPoolOwner))) (\<lambda>_.
     Inr vault_info)))"

definition subscribe_vault ::
    "u64 \<Rightarrow> (u64 \<times> 'acc vault) option \<Rightarrow> 'acc base_pool \<Rightarrow> ('acc, 'led, 'bank) pools_state \<Rightarrow>
     'acc base_pool \<times> ('acc, 'led, 'bank) pools_state" where
  "subscribe_vault p maybe_vault bp s =
     (case maybe_vault of
        None \<Rightarrow> (bp, s)
      | Some (vault_pid, v) \<Rightarrow>
          let v1 = (if p \<in> set (invest_pools v) then v else v\<lparr>invest_pools := invest_pools v @ [p]\<rparr>);
              s1 = insert_pool vault_pid (ProxyVault v1) s;
              bp1 = (if vault_pid \<in> set (value_subscribers bp) then bp
                     else bp\<lparr>value_subscribers := value_subscribers bp @ [vault_pid]\<rparr>)
          in (bp1, s1))"

definition sp_contribute ::
    "('acc::linorder, 'led, 'bank) pools_env \<Rightarrow> 'acc raw_origin \<Rightarrow> u64 \<Rightarrow> balance \<Rightarrow> u64 option \<Rightarrow>
     ('acc, 'led, 'bank) pools_state \<Rightarrow> ('acc, 'led, 'bank) pools_call" where
  "sp_contribute env orig p amount as_vault s =
     bind_call (Some (ensure_signed orig)) (\<lambda>signer.
     bind_call (case as_vault of
         None \<Rightarrow> ok_call (signer, None)
       | Some vault_pid \<Rightarrow>
           bind_call (Some (ensure_vault_owner vault_pid signer s)) (\<lambda>v.
           ok_call (pool_account_id (v_basepool v), Some (vault_pid, v)))) (\<lambda>(who, maybe_vault).
     bind_call (Some (ensure_stake_pool p s)) (\<lambda>pool.
     bind_call (Some (ensure (amount \<ge> min_contribution env) (Module (Sp SpInsufficientContribution)))) (\<lambda>_.
     let free = (case maybe_vault of
                   Some (_, v) \<Rightarrow> get_free_stakes env (v_basepool v) s
                 | None \<Rightarrow> asset_balance env who (ledger s)) in
     bind_call (Some (ensure (free \<ge> amount) (Module (Sp SpInsufficientBalance)))) (\<lambda>_.
     bind_call (base_contribute env (sp_basepool pool) who amount s) (\<lambda>(shares, bp, s1).
     let (bp1, s2) = subscribe_vault p maybe_vault bp s1 in
     bind_call (try_process_withdraw_queue env bp1 s2) (\<lambda>(bp2, s3).
     bind_call (Some (case sp_cap pool of
         None \<Rightarrow> Inr ()
       | Some cap \<Rightarrow> ensure (total_value bp2 \<le> cap) (Module (Sp SpStakeExceedsCapacity)))) (\<lambda>_.
     let s4 = insert_pool p (ProxyStakePool (pool\<lparr>sp_basepool := bp2\<rparr>)) s3 in
     bind_call (merge_nft_for_staker env (bp_cid bp2) who (bp_pid bp2) s4) (\<lambda>(_, s5).
     let s6 = (if as_vault = None then maybe_subscribe_to_pool who p (bp_cid bp2) s5 else s5)
     in ok_call (sp_deposit (Contribution p who amount shares as_vault) s6))))))))))"

text \<open>
  The part of \<open>withdraw\<close> that stake pools and vaults share, from the first merge to the last;
  they differ in the two errors.
\<close>

definition withdraw_shares ::
    "('acc::linorder, 'led, 'y) pool_env_scheme \<Rightarrow> pool_error \<Rightarrow> pool_error \<Rightarrow> 'acc base_pool \<Rightarrow> 'acc \<Rightarrow> balance \<Rightarrow>
     u64 option \<Rightarrow> ('acc, 'led, 'z) base_pool_state_scheme \<Rightarrow>
     ('acc base_pool \<times> ('acc, 'led, 'z) base_pool_state_scheme) pool_call" where
  "withdraw_shares env no_nft bad_amount bp who shares as_vault s =
     bind_call (merge_nft_for_staker env (bp_cid bp) who (bp_pid bp) s) (\<lambda>(maybe_nft_id, s1).
     bind_call (Some (ok_or maybe_nft_id (Module no_nft))) (\<lambda>nft_id.
     bind_call (get_nft_attr_guard env (bp_cid bp) nft_id s1) (\<lambda>(nft, s2).
     bind_call (case find (\<lambda>wd. wd_user wd = who) (withdraw_queue bp) of
         Some wd \<Rightarrow>
           bind_call (unwrap_call (peek_nft env (bp_cid bp) (wd_nft_id wd) s2)) (\<lambda>(a, s3). ok_call (attr_shares a, s3))
       | None \<Rightarrow> ok_call (0, s2)) (\<lambda>(in_queue_shares, s3).
     bind_call (Some (ensure (is_nondust_balance shares \<and> shares \<le> attr_shares nft + in_queue_shares)
                  (Module bad_amount))) (\<lambda>_.
     bind_call (try_withdraw env bp nft who shares nft_id as_vault s3) (\<lambda>(bp1, nft1, s4).
     bind_call (guard_save env (bp_cid bp) nft_id nft1 s4) (\<lambda>s5.
     bind_call (merge_nft_for_staker env (bp_cid bp1) who (bp_pid bp1) s5) (\<lambda>(_, s6).
     ok_call (bp1, s6)))))))))"

definition sp_withdraw ::
    "('acc::linorder, 'led, 'bank) pools_env \<Rightarrow> 'acc raw_origin \<Rightarrow> u64 \<Rightarrow> balance \<Rightarrow> u64 option \<Rightarrow>
     ('acc, 'led, 'bank) pools_state \<Rightarrow> ('acc, 'led, 'bank) pools_call" where
  "sp_withdraw env orig p shares as_vault s =
     bind_call (Some (ensure_signed orig)) (\<lambda>signer.
     bind_call (case as_vault of
         None \<Rightarrow> ok_call signer
       | Some vault_pid \<Rightarrow>
           bind_call (Some (ensure_vault_owner vault_pid signer s)) (\<lambda>v.
           ok_call (pool_account_id (v_basepool v)))) (\<lambda>who.
     bind_call (Some (ensure_stake_pool p s)) (\<lambda>pool.
     bind_call (withdraw_shares env (Sp SpNoNftToWithdraw) (Sp SpInvalidWithdrawalAmount)
                  (sp_basepool pool) who shares as_vault s) (\<lambda>(bp, s1).
     ok_call (insert_pool p (ProxyStakePool (pool\<lparr>sp_basepool := bp\<rparr>)) s1)))))"

fun releasing_stake_of ::
    "('acc, 'led, 'bank) pools_env \<Rightarrow> u64 \<Rightarrow> worker_public_key list \<Rightarrow> ('acc, 'bank) computation \<Rightarrow> balance \<Rightarrow> balance option" where
  "releasing_stake_of env p [] c acc = Some acc"
| "releasing_stake_of env p (w # ws) c acc =
     (case stakes c (pool_sub_account env p w) of
        None \<Rightarrow> None
      | Some x \<Rightarrow> releasing_stake_of env p ws c (acc + x))"

definition force_stop_one ::
    "('acc, 'led, 'bank) pools_env \<Rightarrow> 'acc stake_pool \<Rightarrow> u64 \<Rightarrow> worker_public_key \<Rightarrow>
     ('acc, 'led, 'bank) pools_state \<Rightarrow> ('acc, 'led, 'bank) pools_call" where
  "force_stop_one env pool p worker s =
     (case sessions (comp s) (pool_sub_account env p worker) of
        None \<Rightarrow> ok_call s
      | Some i \<Rightarrow>
          if \<not> is_computing (ss_state i) then ok_call s
          else if worker \<notin> set (cd_workers pool)
          then do_stop_computing env (bp_owner (sp_basepool pool)) p worker s
          else ok_call s)"

definition sp_check_and_maybe_force_withdraw ::
    "('acc::linorder, 'led, 'bank) pools_env \<Rightarrow> 'acc raw_origin \<Rightarrow> u64 \<Rightarrow>
     ('acc, 'led, 'bank) pools_state \<Rightarrow> ('acc, 'led, 'bank) pools_call" where
  "sp_check_and_maybe_force_withdraw env orig p s =
     bind_call (Some (ensure_signed orig)) (\<lambda>_.
     let now = pool_now_sec env in
     bind_call (Some (ensure_stake_pool p s)) (\<lambda>pool0.
     bind_call (try_process_withdraw_queue env (sp_basepool pool0) s) (\<lambda>(bp, s1).
     let pool = pool0\<lparr>sp_basepool := bp\<rparr> in
     bind_call (expect_call (releasing_stake_of env p (cd_workers pool) (comp s1) 0)) (\<lambda>releasing_stake.
     let s2 = insert_pool p (ProxyStakePool pool) s1 in
     bind_call (has_expired_withdrawal env (sp_basepool pool) now (grace_period env) None releasing_stake s2) (\<lambda>(expired, s3).
     if expired then fold_call (force_stop_one env pool p) (sp_workers pool) s3 else ok_call s3)))))"

section \<open>Rewards and callbacks\<close>

definition handle_pool_new_reward ::
    "('acc, 'led, 'bank) pools_env \<Rightarrow> 'acc stake_pool \<Rightarrow> balance \<Rightarrow> ('acc, 'led, 'bank) pools_state \<Rightarrow>
     ('acc stake_pool \<times> ('acc, 'led, 'bank) pools_state) pool_call" where
  "handle_pool_new_reward env pool rewards s =
     (let p = bp_pid (sp_basepool pool) in
      if rewards = 0 then ok_call (pool, s)
      else if balance_close_to_zero rewards then ok_call (pool, sp_deposit (RewardDismissedDust p rewards) s)
      else if balance_close_to_zero (total_shares (sp_basepool pool))
      then ok_call (pool, sp_deposit (RewardDismissedNoShare p rewards) s)
      else
        bind_call (unwrap_call (lift_comp (Some (withdraw_subsidy_pool (pool_comp_env env) (wrapped_account env) rewards (comp s))) s)) (\<lambda>s1.
        let commission = permill_mul env (case payout_commission pool of None \<Rightarrow> 0 | Some r \<Rightarrow> r) rewards in
        bind_call (unwrap_call (mint_into env (owner_reward_account pool) commission s1)) (\<lambda>(owner_minted, s2).
        let s3 = (if owner_minted then s2 else sp_deposit (RewardToOwnerDismissedDust p commission) s2);
            to_distribute = rewards - commission
        in
        bind_call (unwrap_call (mint_into env (pool_account_id (sp_basepool pool)) to_distribute s3)) (\<lambda>(minted, s4).
        bind_call
          (if minted \<and> is_nondust_balance to_distribute then
             bind_call (distribute_reward env (Suc (unat (pool_count s4))) to_distribute (sp_basepool pool) s4) (\<lambda>(bp, s5).
             ok_call (True, pool\<lparr>sp_basepool := bp\<rparr>, s5))
           else if to_distribute > 0 then
             ok_call (False, pool, sp_deposit (RewardToDistributionDismissedDust p to_distribute) s4)
           else ok_call (False, pool, s4)) (\<lambda>(distributed, pool1, s5).
        ok_call (pool1,
          if distributed \<or> owner_minted then sp_deposit (RewardReceived p commission to_distribute) s5 else s5))))))"

definition reward_one ::
    "('acc, 'led, 'bank) pools_env \<Rightarrow> settle_info \<Rightarrow> ('acc, 'led, 'bank) pools_state \<Rightarrow> ('acc, 'led, 'bank) pools_call" where
  "reward_one env info s =
     bind_call (expect_call (from_fixed (pool_fx env) (si_payout info))) (\<lambda>reward.
     (case worker_assignments s (si_pubkey info) of
        None \<Rightarrow> ok_call (sp_deposit (RewardDismissedNotInPool (si_pubkey info) reward) s)
      | Some p \<Rightarrow>
          bind_call (unwrap_call (Some (ensure_stake_pool p s))) (\<lambda>pool.
          bind_call (handle_pool_new_reward env pool reward s) (\<lambda>(pool1, s1).
          ok_call (insert_pool p (ProxyStakePool pool1) s1)))))"

definition on_reward ::
    "('acc, 'led, 'bank) pools_env \<Rightarrow> settle_info list \<Rightarrow> ('acc, 'led, 'bank) pools_state \<Rightarrow> ('acc, 'led, 'bank) pools_call" where
  "on_reward env settle s = fold_call (reward_one env) settle s"

definition on_unbound :: "worker_public_key \<Rightarrow> bool \<Rightarrow> ('acc, 'led, 'bank) pools_state \<Rightarrow> ('acc, 'led, 'bank) pools_call" where
  "on_unbound worker force s = remove_worker_from_pool worker s"

definition on_stopped ::
    "worker_public_key \<Rightarrow> balance \<Rightarrow> balance \<Rightarrow> ('acc, 'led, 'bank) pools_state \<Rightarrow> ('acc, 'led, 'bank) pools_call" where
  "on_stopped worker orig_stake slashed s = ok_call s"

end
