(* ===== verification/Vault.thy ===== *)
theory Vault
  imports Stake_Pool
begin

text \<open>
  The vault pallet, \<^verbatim>\<open>pallets/cyrux/src/compute/vault.rs\<close>: a vault pools contributions and
  invests them in stake pools; its owner earns a commission in new shares when the price of a
  share has risen.
\<close>

definition v_deposit ::
    "'acc vault_event \<Rightarrow> ('acc, 'led, 'bank) pools_state \<Rightarrow> ('acc, 'led, 'bank) pools_state" where
  "v_deposit e s = s\<lparr>vault_events := vault_events s @ [e]\<rparr>"

definition v_create ::
    "('acc, 'led, 'bank) pools_env \<Rightarrow> 'acc raw_origin \<Rightarrow> ('acc, 'led, 'bank) pools_state \<Rightarrow> ('acc, 'led, 'bank) pools_call" where
  "v_create env orig s =
     bind_call (Some (ensure_signed orig)) (\<lambda>own.
     let (p, s1) = consume_new_pid s; (c, s2) = consume_new_cid s1 in
     bind_call (expect_call (bounded (symbol_limit env) (ascii ''VAULT-'' @ decimal (unat p)))) (\<lambda>symbol.
     bind_call (on_ledger (create_collection env (pallet_id env) c symbol) s2) (\<lambda>s3.
     let account = generate_staker_account env p own;
         bp = \<lparr>bp_pid = p, bp_owner = own, total_shares = 0, total_value = 0, withdraw_queue = [],
               value_subscribers = [], bp_cid = c, pool_account_id = account\<rparr>;
         v = \<lparr>v_basepool = bp, last_share_price_checkpoint = initial_price_check_point env,
              v_commission = None, owner_shares = 0, invest_pools = []\<rparr>;
         s4 = insert_pool p (ProxyVault v) s3;
         s5 = s4\<lparr>pool_collections := (pool_collections s4)(c \<mapsto> p)\<rparr>
     in ok_call (v_deposit (VaultCreated own p c account) s5))))"

definition do_gain_owner_share ::
    "('acc, 'led, 'bank) pools_env \<Rightarrow> u64 \<Rightarrow> ('acc, 'led, 'bank) pools_state \<Rightarrow> ('acc, 'led, 'bank) pools_call" where
  "do_gain_owner_share env p s =
     bind_call (Some (ensure_vault p s)) (\<lambda>v.
     bind_call (expect_call (share_price (pool_fx env) (v_basepool v))) (\<lambda>maybe_price.
     (case maybe_price of
        None \<Rightarrow> ok_call s
      | Some price \<Rightarrow>
          bind_call (expect_call (from_fixed (pool_fx env) price)) (\<lambda>current_price.
          if last_share_price_checkpoint v = 0 then
            ok_call (insert_pool p (ProxyVault (v\<lparr>last_share_price_checkpoint := current_price\<rparr>)) s)
          else if current_price \<le> last_share_price_checkpoint v then ok_call s
          else
            let delta_price = permill_mul env (case v_commission v of None \<Rightarrow> 0 | Some r \<Rightarrow> r)
                                (current_price - last_share_price_checkpoint v);
                new_price = current_price - delta_price;
                bp = v_basepool v
            in
            bind_call (expect_call (to_fixed (pool_fx env) new_price)) (\<lambda>new_price_fixed.
            bind_call (expect_call (bdiv (pool_fx env) (total_value bp) new_price_fixed)) (\<lambda>all_shares.
            let adjust_shares = (if total_shares bp \<le> all_shares then all_shares - total_shares bp else 0);
                v1 = v\<lparr>v_basepool := bp\<lparr>total_shares := total_shares bp + adjust_shares\<rparr>,
                       owner_shares := owner_shares v + adjust_shares,
                       last_share_price_checkpoint := new_price\<rparr>
            in ok_call (v_deposit (OwnerSharesGained p adjust_shares new_price)
                 (insert_pool p (ProxyVault v1) s))))))))"

definition maybe_gain_owner_shares ::
    "('acc, 'led, 'bank) pools_env \<Rightarrow> 'acc raw_origin \<Rightarrow> u64 \<Rightarrow> ('acc, 'led, 'bank) pools_state \<Rightarrow> ('acc, 'led, 'bank) pools_call" where
  "maybe_gain_owner_shares env orig p s =
     bind_call (Some (ensure_signed orig)) (\<lambda>who.
     bind_call (Some (ensure_vault p s)) (\<lambda>v.
     bind_call (Some (ensure (who = bp_owner (v_basepool v)) (Module (Vlt VUnauthorizedPoolOwner)))) (\<lambda>_.
     do_gain_owner_share env p s)))"

definition v_set_payout_pref ::
    "('acc, 'led, 'bank) pools_env \<Rightarrow> 'acc raw_origin \<Rightarrow> u64 \<Rightarrow> u32 option \<Rightarrow>
     ('acc, 'led, 'bank) pools_state \<Rightarrow> ('acc, 'led, 'bank) pools_call" where
  "v_set_payout_pref env orig p commission s =
     bind_call (Some (ensure_signed orig)) (\<lambda>own.
     bind_call (Some (ensure_vault p s)) (\<lambda>v0.
     bind_call (Some (ensure (bp_owner (v_basepool v0) = own) (Module (Vlt VUnauthorizedPoolOwner)))) (\<lambda>_.
     bind_call (Some (ensure (v_commission v0 \<noteq> commission) (Module (Vlt VCommissionNotChanged)))) (\<lambda>_.
     bind_call (maybe_gain_owner_shares env orig p s) (\<lambda>s1.
     bind_call (unwrap_call (Some (ensure_vault p s1))) (\<lambda>v.
     let s2 = insert_pool p (ProxyVault (v\<lparr>v_commission := commission\<rparr>)) s1
     in ok_call (v_deposit (VaultCommissionSet p (case commission of None \<Rightarrow> 0 | Some r \<Rightarrow> r)) s2)))))))"

definition claim_owner_shares ::
    "('acc, 'led, 'bank) pools_env \<Rightarrow> 'acc raw_origin \<Rightarrow> u64 \<Rightarrow> 'acc \<Rightarrow> balance \<Rightarrow>
     ('acc, 'led, 'bank) pools_state \<Rightarrow> ('acc, 'led, 'bank) pools_call" where
  "claim_owner_shares env orig p target shares s =
     bind_call (Some (ensure_signed orig)) (\<lambda>who.
     bind_call (Some (ensure_vault p s)) (\<lambda>v.
     let bp = v_basepool v in
     bind_call (Some (ensure (who = bp_owner bp) (Module (Vlt VUnauthorizedPoolOwner)))) (\<lambda>_.
     bind_call (Some (ensure (owner_shares v \<ge> shares) (Module (Vlt VNoEnoughShareToClaim)))) (\<lambda>_.
     bind_call (Some (ensure (shares > 0) (Module (Vlt VNoRewardToClaim)))) (\<lambda>_.
     bind_call (mint_nft env (bp_cid bp) target shares p s) (\<lambda>(_, s1).
     bind_call (merge_nft_for_staker env (bp_cid bp) target (bp_pid bp) s1) (\<lambda>(_, s2).
     let v1 = v\<lparr>owner_shares := owner_shares v - shares\<rparr>;
         s3 = maybe_subscribe_to_pool who p (bp_cid bp) s2;
         s4 = insert_pool p (ProxyVault v1) s3
     in ok_call (v_deposit (OwnerSharesClaimed p who shares) s4))))))))"

definition v_contribute ::
    "('acc::linorder, 'led, 'bank) pools_env \<Rightarrow> 'acc raw_origin \<Rightarrow> u64 \<Rightarrow> balance \<Rightarrow>
     ('acc, 'led, 'bank) pools_state \<Rightarrow> ('acc, 'led, 'bank) pools_call" where
  "v_contribute env orig p amount s =
     bind_call (Some (ensure_signed orig)) (\<lambda>who.
     bind_call (Some (ensure (amount \<ge> min_contribution env) (Module (Vlt VInsufficientContribution)))) (\<lambda>_.
     bind_call (Some (ok_or (asset_maybe_balance env who (ledger s)) (Module (Vlt VAssetAccountNotExist)))) (\<lambda>free.
     bind_call (Some (ensure (free \<ge> amount) (Module (Vlt VInsufficientBalance)))) (\<lambda>_.
     bind_call (do_gain_owner_share env p s) (\<lambda>s1.
     bind_call (Some (ensure_vault p s1)) (\<lambda>v.
     bind_call (base_contribute env (v_basepool v) who amount s1) (\<lambda>(shares, bp, s2).
     bind_call (try_process_withdraw_queue env bp s2) (\<lambda>(bp1, s3).
     let s4 = insert_pool p (ProxyVault (v\<lparr>v_basepool := bp1\<rparr>)) s3 in
     bind_call (merge_nft_for_staker env (bp_cid bp1) who (bp_pid bp1) s4) (\<lambda>(_, s5).
     let s6 = maybe_subscribe_to_pool who p (bp_cid bp1) s5
     in ok_call (v_deposit (VaultContribution p who amount shares) s6))))))))))"

definition v_withdraw ::
    "('acc::linorder, 'led, 'bank) pools_env \<Rightarrow> 'acc raw_origin \<Rightarrow> u64 \<Rightarrow> balance \<Rightarrow>
     ('acc, 'led, 'bank) pools_state \<Rightarrow> ('acc, 'led, 'bank) pools_call" where
  "v_withdraw env orig p shares s =
     bind_call (Some (ensure_signed orig)) (\<lambda>who.
     bind_call (do_gain_owner_share env p s) (\<lambda>s1.
     bind_call (Some (ensure_vault p s1)) (\<lambda>v.
     bind_call (withdraw_shares env (Vlt VNoNftToWithdraw) (Vlt VNoEnoughShareToClaim)
                  (v_basepool v) who shares None s1) (\<lambda>(bp, s2).
     ok_call (insert_pool p (ProxyVault (v\<lparr>v_basepool := bp\<rparr>)) s2)))))"

section \<open>Forced withdrawal\<close>

text \<open>The stake that the requests of the vault in its stake pools will release.\<close>

definition releasing_request ::
    "('acc, 'led, 'bank) pools_env \<Rightarrow> 'acc base_pool \<Rightarrow> 'acc withdraw_info \<Rightarrow>
     balance \<times> ('acc, 'led, 'bank) pools_state \<Rightarrow> (balance \<times> ('acc, 'led, 'bank) pools_state) pool_call" where
  "releasing_request env bp wd st =
     bind_call (get_nft_attr_guard env (bp_cid bp) (wd_nft_id wd) (snd st)) (\<lambda>(attr, s1).
     bind_call (expect_call (share_price (pool_fx env) bp)) (\<lambda>maybe_price.
     bind_call (Some (ok_or maybe_price (Module (Vlt VVaultBankrupt)))) (\<lambda>price.
     bind_call (expect_call (bmul (pool_fx env) (attr_shares attr) price)) (\<lambda>x.
     ok_call (fst st + x, guard_drop (bp_cid bp) (wd_nft_id wd) s1)))))"

definition releasing_in_pool ::
    "('acc, 'led, 'bank) pools_env \<Rightarrow> 'acc \<Rightarrow> u64 \<Rightarrow>
     balance \<times> ('acc, 'led, 'bank) pools_state \<Rightarrow> (balance \<times> ('acc, 'led, 'bank) pools_state) pool_call" where
  "releasing_in_pool env acct p st =
     bind_call (Some (ensure_stake_pool p (snd st))) (\<lambda>pool.
     let bp = sp_basepool pool in
     fold_call (releasing_request env bp) (filter (\<lambda>wd. wd_user wd = acct) (withdraw_queue bp)) st)"

text \<open>What the vault still has in a stake pool, in the queue and in its NFT.\<close>

definition invested_request ::
    "('acc, 'led, 'bank) pools_env \<Rightarrow> u32 \<Rightarrow> 'acc withdraw_info \<Rightarrow>
     balance \<times> ('acc, 'led, 'bank) pools_state \<Rightarrow> (balance \<times> ('acc, 'led, 'bank) pools_state) pool_call" where
  "invested_request env c wd st =
     bind_call (unwrap_call (peek_nft env c (wd_nft_id wd) (snd st))) (\<lambda>(attr, s1).
     ok_call (fst st + attr_shares attr, s1))"

text \<open>Whether to withdraw from a stake pool, and how many shares.\<close>

definition should_withdraw ::
    "('acc, 'led, 'bank) pools_env \<Rightarrow> u32 \<Rightarrow> balance \<Rightarrow> u32 option \<Rightarrow> ('acc, 'led, 'bank) pools_state \<Rightarrow>
     (bool \<times> balance \<times> ('acc, 'led, 'bank) pools_state) pool_call" where
  "should_withdraw env c queued maybe_nft_id s =
     (case maybe_nft_id of
        None \<Rightarrow> ok_call (False, queued, s)
      | Some nft_id \<Rightarrow>
          bind_call (unwrap_call (get_nft_attr_guard env c nft_id s)) (\<lambda>(attr, s1).
          if \<not> is_nondust_balance (attr_shares attr) then
            (case burn_nft env (pallet_id env) c nft_id s1 of
               None \<Rightarrow> None
             | Some (Inl _) \<Rightarrow> ok_call (False, queued, guard_drop c nft_id s1)
             | Some (Inr s2) \<Rightarrow> ok_call (False, queued, guard_drop c nft_id s2))
          else
            let all = queued + attr_shares attr
            in ok_call (is_nondust_balance all, all, guard_drop c nft_id s1)))"

fun force_withdraw_from ::
    "('acc::linorder, 'led, 'bank) pools_env \<Rightarrow> u64 \<Rightarrow> 'acc vault \<Rightarrow> u64 \<Rightarrow>
     u64 list \<times> ('acc, 'led, 'bank) pools_state \<Rightarrow> (u64 list \<times> ('acc, 'led, 'bank) pools_state) pool_call" where
  "force_withdraw_from env vault_pid vault p (pools_to_remove, s) =
     (let acct = pool_account_id (v_basepool vault) in
      bind_call (Some (ensure_stake_pool p s)) (\<lambda>pool.
      let bp = sp_basepool pool; c = bp_cid bp in
      bind_call (fold_call (invested_request env c) (filter (\<lambda>wd. wd_user wd = acct) (withdraw_queue bp)) (0, s)) (\<lambda>(queued, s1).
      bind_call (merge_nft_for_staker env c acct (bp_pid bp) s1) (\<lambda>(maybe_nft_id, s2).
      bind_call (should_withdraw env c queued maybe_nft_id s2) (\<lambda>(withdrawing, all_shares, s3).
      if \<not> withdrawing then ok_call (pools_to_remove @ [p], s3)
      else
        bind_call (sp_withdraw env (Signed (bp_owner (v_basepool vault))) (bp_pid bp) all_shares (Some vault_pid) s3) (\<lambda>s4.
        ok_call (pools_to_remove, s4)))))))"

definition shutdown_reason_of ::
    "('acc, 'led, 'bank) pools_env \<Rightarrow> 'acc vault \<Rightarrow> ('acc, 'led, 'bank) pools_state \<Rightarrow>
     (force_shutdown_reason option \<times> ('acc, 'led, 'bank) pools_state) pool_call" where
  "shutdown_reason_of env vault s =
     (let now = pool_now_sec env; bp = v_basepool vault in
      if (case withdraw_queue bp of [] \<Rightarrow> False | wd # _ \<Rightarrow> wd_start_time wd + 3 * grace_period env < now)
      then ok_call (Some Waiting3xGracePeriod, s)
      else
        bind_call (fold_call (releasing_in_pool env (pool_account_id bp)) (invest_pools vault) (0, s)) (\<lambda>(releasing_stake, s1).
        bind_call (has_expired_withdrawal env bp now (grace_period env) (Some (vault_queue_period env)) releasing_stake s1) (\<lambda>(expired, s2).
        ok_call (if expired then Some NoEnoughReleasingStake else None, s2))))"

definition v_check_and_maybe_force_withdraw ::
    "('acc::linorder, 'led, 'bank) pools_env \<Rightarrow> 'acc raw_origin \<Rightarrow> u64 \<Rightarrow>
     ('acc, 'led, 'bank) pools_state \<Rightarrow> ('acc, 'led, 'bank) pools_call" where
  "v_check_and_maybe_force_withdraw env orig p s =
     bind_call (Some (ensure_signed orig)) (\<lambda>_.
     bind_call (Some (ensure_vault p s)) (\<lambda>v0.
     bind_call (try_process_withdraw_queue env (v_basepool v0) s) (\<lambda>(bp, s1).
     let vault = v0\<lparr>v_basepool := bp\<rparr>;
         s2 = (if withdraw_queue bp = [] then s1\<lparr>vault_locks := vault_locks s1 - {p}\<rparr> else s1);
         s3 = insert_pool p (ProxyVault vault) s2
     in
     if p \<in> vault_locks s3 then ok_call s3
     else
       bind_call (shutdown_reason_of env vault s3) (\<lambda>(maybe_reason, s4).
       (case maybe_reason of
          None \<Rightarrow> ok_call s4
        | Some reason \<Rightarrow>
            bind_call (fold_call (force_withdraw_from env p vault) (invest_pools vault) ([], s4)) (\<lambda>(pools_to_remove, s5).
            let s6 = (if pools_to_remove = [] then s5
                      else insert_pool p (ProxyVault (vault\<lparr>invest_pools :=
                             filter (\<lambda>x. x \<notin> set pools_to_remove) (invest_pools vault)\<rparr>)) s5);
                s7 = s6\<lparr>vault_locks := insert p (vault_locks s6)\<rparr>
            in ok_call (v_deposit (ForceShutdown p reason) s7)))))))"

end
