(* ===== verification/Pools_Invariant.thy ===== *)
theory Pools_Invariant
  imports Pool_Safety Vault
begin

text \<open>
  The books of all pools together: whatever sequence of calls of the pool pallets the chain
  executes, every pool counts at least the shares that the NFTs of its collection hold, plus
  the unclaimed shares of the owner for a vault, and every request in a withdraw queue has its
  NFT.
\<close>

section \<open>Steps that may destroy shares\<close>

text \<open>Like \<open>pool_step\<close>, but the pool may end up counting more than the NFTs hold.\<close>

definition pool_step_le ::
    "('acc, 'led, 'y) pool_env_scheme \<Rightarrow> ('acc, 'led) owner_map \<Rightarrow> 'acc base_pool \<Rightarrow>
     ('acc, 'led, 'z) base_pool_state_scheme \<Rightarrow> 'acc base_pool \<Rightarrow> ('acc, 'led, 'z) base_pool_state_scheme \<Rightarrow> bool" where
  "pool_step_le env own p s p' s' \<longleftrightarrow>
     same_pool p p' \<and> queue_ok env own p' s' \<and> excess env own p s \<le> excess env own p' s' \<and> nft_only s s' \<and>
     (\<exists>k. nft_delta env own (bp_cid p) {} k s s')"

lemma pool_step_leD:
  assumes "pool_step_le env own p s p' s'"
  shows "same_pool p p'" "queue_ok env own p' s'" "excess env own p s \<le> excess env own p' s'" "nft_only s s'"
    "\<exists>k. nft_delta env own (bp_cid p) {} k s s'"
  using assms by (auto simp: pool_step_le_def)

lemma pool_step_imp_le: "pool_step env own K p s p' s' \<Longrightarrow> backed env own p s \<Longrightarrow> pool_step_le env own p s p' s'"
  by (auto simp: pool_step_def pool_step_le_def backed_def intro: nft_delta_mono)

lemma pool_step_le_refl: "queue_ok env own p s \<Longrightarrow> pool_step_le env own p s p s"
  using nft_delta_mono [OF nft_delta_refl [of env own "bp_cid p" s], of "{}"] by (auto simp: pool_step_le_def)

lemma pool_step_le_trans:
  assumes "pool_step_le env own p s p1 s1" and "pool_step_le env own p1 s1 p2 s2"
  shows "pool_step_le env own p s p2 s2"
proof -
  obtain k k' where "nft_delta env own (bp_cid p) {} k s s1" "nft_delta env own (bp_cid p) {} k' s1 s2"
    using assms same_poolD(4) by (fastforce simp: pool_step_le_def)
  from nft_delta_trans [OF this] show ?thesis
    using assms by (auto simp: pool_step_le_def intro: same_pool_trans nft_only_trans)
qed

lemma pool_step_le_backed: "pool_step_le env own p s p' s' \<Longrightarrow> backed env own p s \<Longrightarrow> backed env own p' s'"
  by (auto simp: pool_step_le_def backed_def)

section \<open>A withdrawal from request to settlement\<close>

lemma try_withdraw_masked:
  assumes laws: "ledger_laws env own" and b: "backed env own p s" and a: "a \<noteq> pallet_id env"
    and n0: "own (ledger s) (bp_cid p) n0 = Some a"
    and sh0: "shares_in env (ledger s) (bp_cid p) n0 = unat (attr_shares nft)"
    and w: "try_withdraw env p nft a sh i v s = Some (Inr (p', nft', s'))"
  obtains E where "excess env own p s \<le> E" "share_price (pool_fx env) p \<noteq> Some None \<Longrightarrow> E = excess env own p s"
    "excess env (mask (bp_cid p) n0 own) p' s' = E + uint (attr_shares nft')"
    "same_pool p p'" "queue_ok env own p' s'" "nft_only s s'" "own (ledger s') (bp_cid p) n0 = Some a"
    "\<exists>k. nft_delta env own (bp_cid p) {n0} k s s'"
proof (cases "share_price (pool_fx env) p = Some None")
  case False
  from try_withdraw_effect [OF laws b a n0 sh0 False w] show thesis
    by (intro that [of "excess env own p s"]) simp_all
next
  case True
  with w have f: "p' = p" "s' = s" "nft' = nft\<lparr>attr_shares := attr_shares nft - sh\<rparr>" "sh \<le> attr_shares nft"
    by (auto simp: try_withdraw_def push_withdraw_in_queue_def expect_call_def result_simps)
  have "excess env (mask (bp_cid p) n0 own) p s = excess env own p s + uint (attr_shares nft)"
    using excess_mask [of own s p n0 env] n0 sh0 by simp
  moreover have "uint (attr_shares nft') \<le> uint (attr_shares nft)"
    using f(3,4) by (simp add: uint_minus_simple_alt word_le_def [symmetric] word_sub_le)
  ultimately show thesis
    using True f b n0 nft_delta_mono [OF nft_delta_refl [of env own "bp_cid p" s], of "{n0}"]
    by (intro that [of "excess env own p s + uint (attr_shares nft) - uint (attr_shares nft')"])
      (auto simp: backed_def)
qed

lemma withdraw_shares_cases:
  assumes "withdraw_shares env e1 e2 p a sh v s = Some (Inr (p', s'))"
  obtains n s1 nft s2 nft1 s4 s5 r where
    "merge_nft_for_staker env (bp_cid p) a (bp_pid p) s = Some (Inr (Some n, s1))"
    "get_nft_attr_guard env (bp_cid p) n s1 = Some (Inr (nft, s2))"
    "is_nondust_balance sh"
    "try_withdraw env p nft a sh n v s2 = Some (Inr (p', nft1, s4))"
    "guard_save env (bp_cid p) n nft1 s4 = Some (Inr s5)"
    "merge_nft_for_staker env (bp_cid p') a (bp_pid p') s5 = Some (Inr (r, s'))"
proof -
  from assms obtain n s1 nft s2 iq s3 nft1 s4 s5 r where
    *: "merge_nft_for_staker env (bp_cid p) a (bp_pid p) s = Some (Inr (Some n, s1))"
    "get_nft_attr_guard env (bp_cid p) n s1 = Some (Inr (nft, s2))"
    "(case find (\<lambda>wd. wd_user wd = a) (withdraw_queue p) of
         Some wd \<Rightarrow>
           bind_call (unwrap_call (peek_nft env (bp_cid p) (wd_nft_id wd) s2)) (\<lambda>(a, s3). ok_call (attr_shares a, s3))
       | None \<Rightarrow> ok_call (0, s2)) = (Some (Inr (iq, s3)) :: _ pool_call)"
    "is_nondust_balance sh"
    "try_withdraw env p nft a sh n v s3 = Some (Inr (p', nft1, s4))"
    "guard_save env (bp_cid p) n nft1 s4 = Some (Inr s5)"
    "merge_nft_for_staker env (bp_cid p') a (bp_pid p') s5 = Some (Inr (r, s'))"
    unfolding withdraw_shares_def by (auto simp: result_simps)
  have "s3 = s2" using *(3) by (auto simp: result_simps split: option.splits dest: peek_nft_effect(1))
  with * show thesis by (intro that) simp_all
qed

lemma withdraw_shares_step:
  assumes laws: "ledger_laws env own" and b: "backed env own p s" and a: "a \<noteq> pallet_id env"
    and w: "withdraw_shares env e1 e2 p a sh v s = Some (Inr (p', s'))"
  shows "pool_step_le env own p s p' s'"
    and "share_price (pool_fx env) p \<noteq> Some None \<Longrightarrow> excess env own p' s' = excess env own p s"
proof -
  let ?c = "bp_cid p"
  note items = ledger_items [OF laws]
  obtain n s1 nft s2 nft1 s4 s5 r where
    m: "merge_nft_for_staker env ?c a (bp_pid p) s = Some (Inr (Some n, s1))"
    and g: "get_nft_attr_guard env ?c n s1 = Some (Inr (nft, s2))"
    and t: "try_withdraw env p nft a sh n v s2 = Some (Inr (p', nft1, s4))"
    and sv: "guard_save env ?c n nft1 s4 = Some (Inr s5)"
    and m2: "merge_nft_for_staker env (bp_cid p') a (bp_pid p') s5 = Some (Inr (r, s'))"
    using w by (rule withdraw_shares_cases)
  have st1: "pool_step env own {x. own (ledger s) ?c x \<noteq> Some a} p s p s1" by (rule merge_step [OF laws b a m])
  have b1: "backed env own p s1" by (rule pool_step_backed [OF st1 b])
  have fresh: "fresh_items own s" using b by (simp add: backed_def queue_ok_def)
  have n: "own (ledger s1) ?c n = Some a" using merge_nft_effect(3) [OF laws fresh issued_bound [OF b] m] by simp
  note ge = get_nft_attr_guard_effect [OF g]
  have l2: "ledger s2 = ledger s1" "next_nft_id s2 = next_nft_id s1" using ge(1) by simp_all
  have b2: "backed env own p s2" using b1 l2 by (simp add: backed_def queue_ok_def excess_def fresh_items_def)
  have x2: "excess env own p s2 = excess env own p s"
    using pool_stepD(4) [OF st1] b l2 by (simp add: excess_def backed_def)
  obtain E where E: "excess env own p s \<le> E" "share_price (pool_fx env) p \<noteq> Some None \<Longrightarrow> E = excess env own p s"
    and ex: "excess env (mask ?c n own) p' s4 = E + uint (attr_shares nft1)"
    and sp: "same_pool p p'" and q4: "queue_ok env own p' s4" and no: "nft_only s2 s4"
    and n4: "own (ledger s4) ?c n = Some a" and d4: "\<exists>k. nft_delta env own ?c {n} k s2 s4"
    using try_withdraw_masked [OF laws b2 a _ _ t] n ge(3) l2 x2 by auto
  note c' = same_poolD(4) [OF sp]
  have sv': "guard_save env (bp_cid p') n nft1 s4 = Some (Inr s5)" using sv c' by simp
  note se = save_settles [OF items _ q4 sv', unfolded c', OF _ ex]
  have s5: "excess env own p' s5 = E" "queue_ok env own p' s5" "own (ledger s5) = own (ledger s4)"
    "\<exists>k. nft_delta env own ?c (- {n}) k s4 s5"
    "s5 = s4\<lparr>ledger := ledger s5, nft_locks := nft_locks s4 - {(?c, n)}\<rparr>" using se n4 by simp_all
  have "nft_only s1 s5"
    using no ge(1,2) s5(5) unfolding nft_only_def by (cases s1, cases s2, cases s4, cases s5) simp
  then have o5: "nft_only s s5" using pool_stepD(3) [OF st1] nft_only_trans by blast
  obtain k1 k2 k3 where "nft_delta env own ?c {x. own (ledger s) ?c x \<noteq> Some a} k1 s s1"
    "nft_delta env own ?c {n} k2 s2 s4" "nft_delta env own ?c (- {n}) k3 s4 s5"
    using pool_stepD(5) [OF st1] d4 s5(4) by blast
  moreover have "nft_delta env own ?c UNIV 0 s1 s2" by (rule nft_delta_same) (simp_all add: l2)
  ultimately have "\<exists>k. nft_delta env own ?c {} k s s5"
    by (blast intro: nft_delta_trans nft_delta_mono)
  then have st5: "pool_step_le env own p s p' s5"
    using sp s5(1,2) o5 E(1) by (simp add: pool_step_le_def)
  have b5: "backed env own p' s5" by (rule pool_step_le_backed [OF st5 b])
  have st6: "pool_step env own {x. own (ledger s5) (bp_cid p') x \<noteq> Some a} p' s5 p' s'"
    by (rule merge_step [OF laws b5 a m2])
  show "pool_step_le env own p s p' s'"
    by (rule pool_step_le_trans [OF st5 pool_step_imp_le [OF st6 b5]])
  show "excess env own p' s' = excess env own p s" if "share_price (pool_fx env) p \<noteq> Some None"
    using pool_stepD(4) [OF st6] b5 s5(1) E(2) [OF that] by (simp add: backed_def)
qed

section \<open>The books of all pools\<close>

fun unclaimed :: "'acc pool_proxy \<Rightarrow> int" where
  "unclaimed (ProxyStakePool p) = 0"
| "unclaimed (ProxyVault v) = uint (owner_shares v)"

fun no_subscribers :: "'acc pool_proxy \<Rightarrow> bool" where
  "no_subscribers (ProxyStakePool p) = True"
| "no_subscribers (ProxyVault v) = (value_subscribers (v_basepool v) = [])"

definition covered ::
    "('acc, 'led, 'y) pool_env_scheme \<Rightarrow> ('acc, 'led) owner_map \<Rightarrow> 'acc pool_proxy \<Rightarrow>
     ('acc, 'led, 'z) base_pool_state_scheme \<Rightarrow> bool" where
  "covered env own x s \<longleftrightarrow>
     queue_ok env own (proxy_basepool x) s \<and> unclaimed x \<le> excess env own (proxy_basepool x) s"

definition next_cid :: "('acc, 'led, 'z) base_pool_state_scheme \<Rightarrow> u32" where
  "next_cid s = max (collection_index s) RESERVE_CID_START"

definition proxy_ok ::
    "('acc, 'led, 'y) pool_env_scheme \<Rightarrow> ('acc, 'led) owner_map \<Rightarrow> u64 \<Rightarrow> 'acc pool_proxy \<Rightarrow>
     ('acc, 'led, 'z) base_pool_state_scheme \<Rightarrow> bool" where
  "proxy_ok env own p x s \<longleftrightarrow>
     covered env own x s \<and> bp_pid (proxy_basepool x) = p \<and> no_subscribers x \<and>
     pool_account_id (proxy_basepool x) \<noteq> pallet_id env \<and> bp_cid (proxy_basepool x) < next_cid s"

definition books_ok ::
    "('acc, 'led, 'y) pool_env_scheme \<Rightarrow> ('acc, 'led) owner_map \<Rightarrow> ('acc, 'led, 'z) base_pool_state_scheme \<Rightarrow> bool" where
  "books_ok env own s \<longleftrightarrow>
     fresh_items own s \<and>
     (\<forall>p x. pools s p = Some x \<longrightarrow> proxy_ok env own p x s) \<and>
     (\<forall>p q x y. pools s p = Some x \<longrightarrow> pools s q = Some y \<longrightarrow>
        bp_cid (proxy_basepool x) = bp_cid (proxy_basepool y) \<longrightarrow> p = q) \<and>
     (\<forall>c n. next_cid s \<le> c \<longrightarrow> own (ledger s) c n = None)"

lemma unclaimed_nonneg [simp]: "0 \<le> unclaimed x"
  by (cases x) simp_all

lemma covered_backed: "covered env own x s \<Longrightarrow> backed env own (proxy_basepool x) s"
  using unclaimed_nonneg [of x] by (auto simp: covered_def backed_def simp del: unclaimed_nonneg)

lemma books_okD:
  assumes "books_ok env own s"
  shows "fresh_items own s" and "pools s p = Some x \<Longrightarrow> proxy_ok env own p x s"
    and "pools s p = Some x \<Longrightarrow> pools s q = Some y \<Longrightarrow>
      bp_cid (proxy_basepool x) = bp_cid (proxy_basepool y) \<Longrightarrow> p = q"
    and "next_cid s \<le> c \<Longrightarrow> own (ledger s) c n = None"
  using assms by (auto simp: books_ok_def)

lemma books_backed:
  assumes "books_ok env own s" and "pools s p = Some x"
  shows "backed env own (proxy_basepool x) s" and "pool_account_id (proxy_basepool x) \<noteq> pallet_id env"
    and "bp_pid (proxy_basepool x) = p"
  using books_okD(2) [OF assms] by (auto simp: proxy_ok_def intro: covered_backed)

text \<open>What the books depend on.\<close>

lemma covered_cong:
  assumes "own (ledger s') (bp_cid (proxy_basepool x)) = own (ledger s) (bp_cid (proxy_basepool x))"
    and "shares_in env (ledger s') (bp_cid (proxy_basepool x)) = shares_in env (ledger s) (bp_cid (proxy_basepool x))"
    and "fresh_items own s'"
  shows "covered env own x s \<Longrightarrow> covered env own x s'"
  using assms issued_cong [of own "ledger s'" _ "ledger s" env]
  by (auto simp: covered_def queue_ok_def excess_def)

text \<open>One pool and its collection change.\<close>

lemma books_update:
  assumes b: "books_ok env own s" and x: "pools s p = Some x"
    and pools: "pools s' = (pools s)(p \<mapsto> x')" and ci: "collection_index s' = collection_index s"
    and d: "nft_delta env own (bp_cid (proxy_basepool x)) K k s s'"
    and x': "covered env own x' s'" "no_subscribers x'"
      "bp_pid (proxy_basepool x') = p" "bp_cid (proxy_basepool x') = bp_cid (proxy_basepool x)"
      "pool_account_id (proxy_basepool x') = pool_account_id (proxy_basepool x)"
  shows "books_ok env own s'"
proof -
  note B = books_okD [OF b]
  have nc: "next_cid s' = next_cid s" by (simp add: next_cid_def ci)
  have fresh: "fresh_items own s'" using nft_deltaD(6) [OF d] B(1) by simp
  have xp: "proxy_ok env own p x s" by (rule B(2) [OF x])
  have "proxy_ok env own q y s'" if "pools s' q = Some y" for q y
  proof (cases "q = p")
    case True
    with that pools xp x' show ?thesis by (simp add: proxy_ok_def nc)
  next
    case False
    with that pools have y: "pools s q = Some y" by simp
    then have ne: "bp_cid (proxy_basepool y) \<noteq> bp_cid (proxy_basepool x)" using B(3) [OF y x] False by auto
    have "covered env own y s \<Longrightarrow> covered env own y s'"
      by (rule covered_cong [OF nft_deltaD(1) [OF d ne] nft_deltaD(2) [OF d ne] fresh])
    with B(2) [OF y] show ?thesis by (simp add: proxy_ok_def nc)
  qed
  moreover have "p1 = q" if "pools s' p1 = Some y" "pools s' q = Some z"
    "bp_cid (proxy_basepool y) = bp_cid (proxy_basepool z)" for p1 q y z
  proof -
    have old: "\<exists>y0. pools s r = Some y0 \<and> bp_cid (proxy_basepool y0) = bp_cid (proxy_basepool w)"
      if "pools s' r = Some w" for r w
      using that x x'(4) pools by (cases "r = p") auto
    from old [OF that(1)] old [OF that(2)] that(3) B(3) show ?thesis by metis
  qed
  moreover have "own (ledger s') c n = None" if "next_cid s' \<le> c" for c n
  proof -
    have "bp_cid (proxy_basepool x) < next_cid s" using xp by (simp add: proxy_ok_def)
    with that nc have "c \<noteq> bp_cid (proxy_basepool x)" by auto
    from nft_deltaD(1) [OF d this] B(4) [of c n] that nc show ?thesis by simp
  qed
  ultimately show ?thesis using fresh unfolding books_ok_def by blast
qed

text \<open>Changes that touch neither the pools nor their items.\<close>

lemma books_frame:
  assumes b: "books_ok env own s" and "pools s' = pools s" and "collection_index s' = collection_index s"
    and "next_nft_id s' = next_nft_id s" and "own (ledger s') = own (ledger s)"
    and "shares_in env (ledger s') = shares_in env (ledger s)"
  shows "books_ok env own s'"
proof -
  have fresh: "fresh_items own s'" using assms by (simp add: fresh_items_def books_ok_def)
  have "covered env own x s \<Longrightarrow> covered env own x s'" for x
    by (rule covered_cong [OF _ _ fresh]) (simp_all add: assms)
  with fresh assms show ?thesis
    by (auto simp: books_ok_def proxy_ok_def next_cid_def)
qed

text \<open>A pool record that counts the same shares.\<close>

definition same_books :: "'acc pool_proxy \<Rightarrow> 'acc pool_proxy \<Rightarrow> bool" where
  "same_books x x' \<longleftrightarrow>
     (let p = proxy_basepool x; p' = proxy_basepool x' in
      total_shares p' = total_shares p \<and> withdraw_queue p' = withdraw_queue p \<and> bp_cid p' = bp_cid p \<and>
      bp_pid p' = bp_pid p \<and> pool_account_id p' = pool_account_id p) \<and>
     unclaimed x' = unclaimed x \<and> no_subscribers x' = no_subscribers x"

lemma same_books_covered: "same_books x x' \<Longrightarrow> covered env own x s \<Longrightarrow> covered env own x' s"
  by (auto simp: same_books_def covered_def queue_ok_def excess_def Let_def)

lemma books_insert_same:
  assumes "books_ok env own s" and "pools s p = Some x" and "same_books x x'"
  shows "books_ok env own (insert_pool p x' s)"
proof (rule books_update [OF assms(1,2), where x' = x' and k = 0 and K = UNIV])
  have px: "proxy_ok env own p x s" by (rule books_okD(2) [OF assms(1,2)])
  show "nft_delta env own (bp_cid (proxy_basepool x)) UNIV 0 s (insert_pool p x' s)"
    by (rule nft_delta_same) (simp_all add: insert_pool_def)
  have "covered env own x' s" using px assms(3) by (auto simp: proxy_ok_def intro: same_books_covered)
  then show "covered env own x' (insert_pool p x' s)"
    by (simp add: covered_def queue_ok_def excess_def insert_pool_def fresh_items_def)
qed (use assms books_okD(2) [OF assms(1,2)] in \<open>auto simp: insert_pool_def same_books_def Let_def proxy_ok_def\<close>)

text \<open>
  A pool that an operation holds in memory: the books balance once it is stored.
\<close>

lemma insert_pool_simps [simp]:
  "pools (insert_pool p x s) = (pools s)(p \<mapsto> x)" "ledger (insert_pool p x s) = ledger s"
  "next_nft_id (insert_pool p x s) = next_nft_id s" "collection_index (insert_pool p x s) = collection_index s"
  by (simp_all add: insert_pool_def)

lemma insert_pool_same: "pools s p = Some x \<Longrightarrow> insert_pool p x s = s"
  by (simp add: insert_pool_def fun_upd_idem)

lemma insert_pool_twice [simp]: "insert_pool p y (insert_pool p x s) = insert_pool p y s"
  by (simp add: insert_pool_def)

lemma insert_pool_commute: "p \<noteq> q \<Longrightarrow> insert_pool p x (insert_pool q y s) = insert_pool q y (insert_pool p x s)"
  by (simp add: insert_pool_def fun_upd_twist)

lemma excess_insert [simp]: "excess env own p (insert_pool q x s) = excess env own p s"
  by (simp add: excess_def)

lemma queue_ok_insert [simp]: "queue_ok env own p (insert_pool q x s) = queue_ok env own p s"
  by (simp add: queue_ok_def fresh_items_def)

lemma backed_insert [simp]: "backed env own p (insert_pool q x s) = backed env own p s"
  by (simp add: backed_def)

lemma covered_insert [simp]: "covered env own y (insert_pool q x s) = covered env own y s"
  by (simp add: covered_def)

lemma nft_delta_insert:
  "nft_delta env own c K k s s' \<Longrightarrow> nft_delta env own c K k (insert_pool p x s) (insert_pool q y s')"
  by (simp add: nft_delta_def fresh_items_def)

lemma books_step:
  assumes b: "books_ok env own (insert_pool p x s)"
    and st: "pool_step_le env own (proxy_basepool x) s (proxy_basepool x') s'"
    and x': "unclaimed x' = unclaimed x" "no_subscribers x' = no_subscribers x"
  shows "books_ok env own (insert_pool p x' s')"
proof -
  have px: "proxy_ok env own p x (insert_pool p x s)" using books_okD(2) [OF b] by simp
  note sp = same_poolD [OF pool_step_leD(1) [OF st]]
  obtain k where k: "nft_delta env own (bp_cid (proxy_basepool x)) {} k s s'" using pool_step_leD(5) [OF st] by blast
  have only: "pools s' = pools s" "collection_index s' = collection_index s"
    using nft_onlyD(2,7) [OF pool_step_leD(4) [OF st]] .
  show ?thesis
  proof (rule books_update [OF b, where x = x and x' = x'])
    show "nft_delta env own (bp_cid (proxy_basepool x)) {} k (insert_pool p x s) (insert_pool p x' s')"
      by (rule nft_delta_insert [OF k])
    show "covered env own x' (insert_pool p x' s')"
      using px pool_step_leD(2,3) [OF st] x' by (simp add: proxy_ok_def covered_def)
  qed (use px sp x' only in \<open>auto simp: proxy_ok_def\<close>)
qed

section \<open>Operations on one pool\<close>

text \<open>
  The laws of the pallets outside the repository: those of the NFTs and of the numbers, that
  assets, collections and referenda are no business of NFTs, and that the account derived for a
  pool is not the account of the pallet.
\<close>

definition pools_laws :: "('acc, 'led, 'bank, 'y) wrapped_env_scheme \<Rightarrow> ('acc, 'led) owner_map \<Rightarrow> bool" where
  "pools_laws env own \<longleftrightarrow>
     ledger_laws env own \<and> fixed_laws (pool_fx env) \<and>
     (\<forall>a c symb l l'. create_collection env a c symb l = Some l' \<longrightarrow> same_items env own l l') \<and>
     (\<forall>a x l l'. asset_mint_into env a x l = Minted l' \<longrightarrow> same_items env own l l') \<and>
     (\<forall>a x l y l'. asset_burn_from env a x l = Some (y, l') \<longrightarrow> same_items env own l l') \<and>
     (\<forall>a v x y l l'. democracy_vote env a v x y l = Some l' \<longrightarrow> same_items env own l l') \<and>
     (\<forall>p a. generate_staker_account env p a \<noteq> pallet_id env)"

lemma pools_lawsD:
  assumes "pools_laws env own"
  shows "ledger_laws env own" "fixed_laws (pool_fx env)" "item_laws env own"
    "create_collection env a c symb l = Some l' \<Longrightarrow> same_items env own l l'"
    "asset_mint_into env a x l = Minted l' \<Longrightarrow> same_items env own l l'"
    "asset_burn_from env a x l = Some (y, l') \<Longrightarrow> same_items env own l l'"
    "democracy_vote env a v x y l = Some l' \<Longrightarrow> same_items env own l l'"
    "generate_staker_account env p a \<noteq> pallet_id env"
  using assms by (simp_all add: pools_laws_def ledger_laws_def)

lemma books_same_items:
  assumes "books_ok env own s" and "pools s' = pools s" and "collection_index s' = collection_index s"
    and "next_nft_id s' = next_nft_id s" and "same_items env own (ledger s) (ledger s')"
  shows "books_ok env own s'"
  by (rule books_frame [OF assms(1-4)]) (use assms(5) same_items_shares [OF assms(5)] in \<open>simp_all add: same_items_def\<close>)

lemma books_state:
  assumes "books_ok env own s" and "pools s' = pools s" and "collection_index s' = collection_index s"
    and "next_nft_id s' = next_nft_id s" and "ledger s' = ledger s"
  shows "books_ok env own s'"
  by (rule books_frame [OF assms(1-4)]) (simp_all add: assms(5))

lemma books_cong:
  assumes "pools s' = pools s" and "collection_index s' = collection_index s"
    and "next_nft_id s' = next_nft_id s" and "ledger s' = ledger s"
  shows "books_ok env own s' = books_ok env own s"
  using books_state [of env own s s', OF _ assms] books_state [of env own s' s] assms by auto

lemma books_deposit [simp]:
  "books_ok env own (sp_deposit e s) = books_ok env own s" "books_ok env own (v_deposit e' s) = books_ok env own s"
  "books_ok env own (wb_deposit e'' t) = books_ok env own t"
  by (rule books_cong; simp add: sp_deposit_def v_deposit_def wb_deposit_def)+

lemma books_move:
  assumes "pools_laws env own" and "books_ok env own s" and "asset_move env a a' x s = Some (Inr s')"
  shows "books_ok env own s'" and "pools s' = pools s"
proof -
  note e = asset_move_effect [OF pools_lawsD(3) [OF assms(1)] assms(3)]
  show "books_ok env own s'"
    by (rule books_frame [OF assms(2) ledger_onlyD(3) [OF e(1)] ledger_onlyD(9) [OF e(1)] ledger_onlyD(1) [OF e(1)] e(3,4)])
  show "pools s' = pools s" by (rule ledger_onlyD(3) [OF e(1)])
qed

lemma books_pool_step:
  assumes "books_ok env own s" and "pools s p = Some x"
    and "pool_step_le env own (proxy_basepool x) s (proxy_basepool x') s'"
    and "unclaimed x' = unclaimed x" "no_subscribers x' = no_subscribers x"
  shows "books_ok env own (insert_pool p x' s')"
  by (rule books_step [OF _ assms(3-5)]) (simp add: assms(1,2) insert_pool_same)

lemma books_merge:
  assumes laws: "pools_laws env own" and b: "books_ok env own s" and x: "pools s p = Some x"
    and a: "a \<noteq> pallet_id env"
    and m: "merge_nft_for_staker env (bp_cid (proxy_basepool x)) a i s = Some (Inr (r, s'))"
  shows "books_ok env own s'" and "pools s' = pools s" and "nft_only s s'"
proof -
  note bk = books_backed [OF b x]
  have st: "pool_step_le env own (proxy_basepool x) s (proxy_basepool x) s'"
    by (rule pool_step_imp_le [OF merge_step [OF pools_lawsD(1) [OF laws] bk(1) a m] bk(1)])
  show n: "nft_only s s'" by (rule pool_step_leD(4) [OF st])
  show ps: "pools s' = pools s" by (rule nft_onlyD(2) [OF n])
  from books_pool_step [OF b x st refl refl] show "books_ok env own s'"
    using x ps by (simp add: insert_pool_same)
qed

lemma books_process:
  assumes laws: "pools_laws env own" and b: "books_ok env own (insert_pool p x s)"
    and t: "try_process_withdraw_queue env (proxy_basepool x) s = Some (Inr (proxy_basepool x', s'))"
    and x': "unclaimed x' = unclaimed x" "no_subscribers x' = no_subscribers x"
  shows "books_ok env own (insert_pool p x' s')" and "nft_only s s'"
proof -
  have bk: "backed env own (proxy_basepool x) s" using books_backed(1) [OF b, of p x] by simp
  have q: "queue_ok env own (proxy_basepool x) s" using bk by (simp add: backed_def)
  have st: "pool_step_le env own (proxy_basepool x) s (proxy_basepool x') s'"
    using try_process_step [OF pools_lawsD(3) [OF laws] q t, of "{}"] bk by (rule pool_step_imp_le) simp_all
  show "books_ok env own (insert_pool p x' s')" by (rule books_step [OF b st x'])
  show "nft_only s s'" by (rule pool_step_leD(4) [OF st])
qed

text \<open>The pool types.\<close>

lemma ensure_stake_pool_iff [result_simps]:
  "ensure_stake_pool p s = Inr x \<longleftrightarrow> pools s p = Some (ProxyStakePool x)"
  by (cases "pools s p") (auto simp: ensure_stake_pool_def split: pool_proxy.splits)

lemma ensure_vault_iff [result_simps]:
  "ensure_vault p s = Inr v \<longleftrightarrow> pools s p = Some (ProxyVault v)"
  by (cases "pools s p") (auto simp: ensure_vault_def split: pool_proxy.splits)

lemma lift_comp_iff [result_simps]:
  "lift_comp r s = Some (Inr s') \<longleftrightarrow> (\<exists>c. r = Some (Inr c) \<and> s' = s\<lparr>comp := c\<rparr>)"
  by (auto simp: lift_comp_def result_simps split: option.splits sum.splits)

lemma books_stake_pool:
  assumes "books_ok env own s" and "pools s p = Some (ProxyStakePool pool)"
    and "sp_basepool pool' = sp_basepool pool"
  shows "books_ok env own (insert_pool p (ProxyStakePool pool') s)"
  by (rule books_insert_same [OF assms(1,2)]) (simp add: same_books_def assms(3))

end
