(* ===== verification/Stake_Books.thy ===== *)
theory Stake_Books
  imports Pools_Invariant
begin

text \<open>
  The calls of the base pool, the wrapped balances and the stake pools keep the books of all
  pools: one lemma per call, from the effects of the parts it is made of.
\<close>

text \<open>A failing call of another pallet fails the call.\<close>

lemma case_error_iff [result_simps]:
  "(case r of Inl e \<Rightarrow> Inl (f e) | Inr x \<Rightarrow> g x) = Inr z \<longleftrightarrow> (\<exists>x. r = Inr x \<and> g x = Inr z)"
  "(case r of Inl e \<Rightarrow> Some (Inl (f e)) | Inr x \<Rightarrow> h x) = Some (Inr z) \<longleftrightarrow> (\<exists>x. r = Inr x \<and> h x = Some (Inr z))"
  by (cases r; auto)+

lemma case_pair_iff:
  "(case x of (a, b) \<Rightarrow> f a b) = Some (Inr z) \<longleftrightarrow> (\<exists>a b. x = (a, b) \<and> f a b = Some (Inr z))"
  by (cases x) auto

section \<open>Fields the books do not depend on\<close>

lemma books_unrelated [simp]:
  "books_ok env own (bp_deposit e s) = books_ok env own s"
  "books_ok env own (s\<lparr>pool_contribution_whitelists := wl\<rparr>) = books_ok env own s"
  "books_ok env own (s\<lparr>pool_descriptions := ds\<rparr>) = books_ok env own s"
  "books_ok env own (s\<lparr>reimbursements := rb\<rparr>) = books_ok env own s"
  "books_ok env own (s\<lparr>pool_collections := pc\<rparr>) = books_ok env own s"
  "books_ok env own (s\<lparr>pool_count := n\<rparr>) = books_ok env own s"
  "books_ok env own (t\<lparr>comp := c\<rparr>) = books_ok env own t"
  "books_ok env own (t\<lparr>staker_accounts := sa\<rparr>) = books_ok env own t"
  "books_ok env own (t\<lparr>vote_account_map := va\<rparr>) = books_ok env own t"
  "books_ok env own (t\<lparr>account_vote_map := av\<rparr>) = books_ok env own t"
  "books_ok env own (t\<lparr>unmintable_dust := d\<rparr>) = books_ok env own t"
  "books_ok env own (u\<lparr>worker_assignments := wa\<rparr>) = books_ok env own u"
  "books_ok env own (u\<lparr>sub_account_preimages := sap\<rparr>) = books_ok env own u"
  "books_ok env own (u\<lparr>legacy_rewards := lr\<rparr>) = books_ok env own u"
  "books_ok env own (u\<lparr>vault_locks := vl\<rparr>) = books_ok env own u"
  by (rule books_cong; simp add: bp_deposit_def)+

lemma insert_pool_unrelated [simp]:
  "insert_pool p x (t\<lparr>comp := c\<rparr>) = (insert_pool p x t)\<lparr>comp := c\<rparr>"
  "insert_pool p x (u\<lparr>worker_assignments := wa\<rparr>) = (insert_pool p x u)\<lparr>worker_assignments := wa\<rparr>"
  "insert_pool p x (u\<lparr>sub_account_preimages := sap\<rparr>) = (insert_pool p x u)\<lparr>sub_account_preimages := sap\<rparr>"
  "insert_pool p x (u\<lparr>vault_locks := vl\<rparr>) = (insert_pool p x u)\<lparr>vault_locks := vl\<rparr>"
  "insert_pool p x (sp_deposit e u) = sp_deposit e (insert_pool p x u)"
  "insert_pool p x (v_deposit e' u) = v_deposit e' (insert_pool p x u)"
  by (simp_all add: insert_pool_def sp_deposit_def v_deposit_def)

lemma pools_deposit [simp]:
  "pools (sp_deposit e u) = pools u" "pools (v_deposit e' u) = pools u" "pools (wb_deposit e'' t) = pools t"
  "pools (bp_deposit e''' s) = pools s"
  by (simp_all add: sp_deposit_def v_deposit_def wb_deposit_def bp_deposit_def)

lemma books_subscribe [simp]: "books_ok env own (maybe_subscribe_to_pool a p c s) = books_ok env own s"
  by (simp add: maybe_subscribe_to_pool_def Let_def)

section \<open>Reads\<close>

lemma expired_requests_same:
  "expired_requests env c now g v price wds b s = Some (Inr (e, s')) \<Longrightarrow> s' = s"
  by (induction wds arbitrary: b s) (auto simp: result_simps dest!: peek_nft_effect(1) split: if_splits)

lemma has_expired_same: "has_expired_withdrawal env p now g v r s = Some (Inr (e, s')) \<Longrightarrow> s' = s"
  by (auto simp: has_expired_withdrawal_def result_simps dest: expired_requests_same split: option.split_asm if_split_asm)

lemma guard_drop_insert:
  assumes "get_nft_attr_guard env c n s = Some (Inr (attr, s1))"
  shows "guard_drop c n s1 = s"
  using get_nft_attr_guard_effect(1,2) [OF assms] by (simp add: guard_drop_def)

lemma value_of_nfts_same: "value_of_nfts env p c ns (v, s) = Some (Inr (v', s')) \<Longrightarrow> s' = s"
  by (induction ns arbitrary: v s) (auto simp: result_simps guard_drop_insert)

lemma get_net_value_same:
  assumes "get_net_value env who s = Some (Inr (v, s'))"
  shows "s' = s"
proof (cases "staker_accounts s who")
  case None
  with assms show ?thesis by (simp add: get_net_value_def result_simps)
next
  case (Some st)
  with assms have "fold_call (\<lambda>(p, c) (v, s). value_of_nfts env p c (owned_in_collection env c who (ledger s)) (v, s))
    (fa_invest_pools st) (asset_balance env who (ledger s), s) = Some (Inr (v, s'))"
    by (simp add: get_net_value_def Let_def)
  then have "snd (v, s') = s"
    by (rule fold_call_invariant [where P = "\<lambda>x. snd x = s"]) (auto dest: value_of_nfts_same)
  then show ?thesis by simp
qed

section \<open>Base pool and wrapped balances\<close>

lemma books_whitelist_add:
  "books_ok env own s \<Longrightarrow> add_staker_to_whitelist orig p a s = Inr s' \<Longrightarrow> books_ok env own s'"
  by (auto simp: add_staker_to_whitelist_def result_simps split: option.split_asm)

lemma books_whitelist_remove:
  "books_ok env own s \<Longrightarrow> remove_staker_from_whitelist orig p a s = Inr s' \<Longrightarrow> books_ok env own s'"
  by (auto simp: remove_staker_from_whitelist_def Let_def result_simps split: if_splits)

lemma books_description:
  "books_ok env own s \<Longrightarrow> set_pool_description orig p ds s = Inr s' \<Longrightarrow> books_ok env own s'"
  by (auto simp: set_pool_description_def result_simps)

lemma books_claim_reimbursement:
  "books_ok env own s \<Longrightarrow> claim_reimbursement cenv orig p a s c = Inr (s', c') \<Longrightarrow> books_ok env own s'"
  by (auto simp: claim_reimbursement_def Let_def result_simps)

lemma books_fold_reimbursements:
  "books_ok env own (fold (\<lambda>(a, p, b) s. s\<lparr>reimbursements := f a p b s\<rparr>) xs s) = books_ok env own s"
  by (induction xs arbitrary: s) (simp_all add: case_prod_unfold)

lemma books_set_reimbursements:
  "books_ok env own s \<Longrightarrow> set_reimbursements env orig xs add s = Inr s' \<Longrightarrow> books_ok env own s'"
  unfolding set_reimbursements_def Let_def by (auto simp: result_simps books_fold_reimbursements)

lemma books_ledger:
  "books_ok env own s \<Longrightarrow> same_items env own (ledger s) l \<Longrightarrow> books_ok env own (s\<lparr>ledger := l\<rparr>)"
  by (erule books_same_items) simp_all

lemma books_mint_into:
  assumes "pools_laws env own" and "books_ok env own s" and "mint_into env a x s = Some (Inr (m, s'))"
  shows "books_ok env own s'" and "pools s' = pools s"
  using assms
  by (auto simp: mint_into_def result_simps intro!: books_ledger dest: pools_lawsD(5) split: mint_outcome.split_asm)

lemma books_burn_from:
  assumes "pools_laws env own" and "books_ok env own s" and "burn_from env a x s = Some (Inr s')"
  shows "books_ok env own s'"
  using assms
  by (auto simp: burn_from_def result_simps intro!: books_ledger dest: pools_lawsD(6) split: option.split_asm)

lemma books_move_pha: "books_ok env own s \<Longrightarrow> move_pha env k a b x s = Some (Inr s') \<Longrightarrow> books_ok env own s'"
  by (auto simp: move_pha_def result_simps split: option.split_asm)

lemma books_remove_dust:
  assumes "pools_laws env own" and "books_ok env own s" and "remove_dust env a x s = Some (Inr s')"
  shows "books_ok env own s'"
proof (cases "x = 0")
  case True
  with assms show ?thesis by (simp add: remove_dust_def result_simps)
next
  case False
  with assms(3) obtain y l b where l: "asset_burn_from env a x (ledger s) = Some (y, l)"
    and s': "s' = wb_deposit (DustRemoved a y) (s\<lparr>ledger := l, comp := b\<rparr>)"
    by (auto simp: remove_dust_def Let_def result_simps split: option.split_asm)
  have "books_ok env own (s\<lparr>ledger := l\<rparr>)" by (rule books_ledger [OF assms(2) pools_lawsD(6) [OF assms(1) l]])
  then show ?thesis by (simp add: s')
qed

lemma books_wrap:
  assumes "pools_laws env own" and "books_ok env own s" and "wrap env orig x s = Some (Inr s')"
  shows "books_ok env own s'"
  using assms by (auto simp: wrap_def result_simps dest: books_move_pha books_mint_into(1))

lemma books_unwrap:
  assumes "pools_laws env own" and "books_ok env own s" and "unwrap env orig x s = Some (Inr s')"
  shows "books_ok env own s'"
  using assms by (auto simp: unwrap_def result_simps Let_def dest!: get_net_value_same dest: books_move_pha books_burn_from)

lemma books_unwrap_all:
  assumes "pools_laws env own" and "books_ok env own s" and "unwrap_all env orig s = Some (Inr s')"
  shows "books_ok env own s'"
  using assms by (auto simp: unwrap_all_def result_simps Let_def dest!: get_net_value_same dest: books_move_pha books_burn_from)

lemma books_update_locked: "books_ok env own s \<Longrightarrow> update_user_locked a s = Some (Inr s') \<Longrightarrow> books_ok env own s'"
  by (auto simp: update_user_locked_def result_simps)

lemma books_record_vote [simp]: "books_ok env own (record_vote a v x y s) = books_ok env own s"
  by (simp add: record_vote_def)

lemma books_vote:
  assumes laws: "pools_laws env own" and b: "books_ok env own s" and v: "wb_vote env orig x y i s = Some (Inr s')"
  shows "books_ok env own s'"
proof -
  from v obtain a l s1 where
    l: "democracy_vote env (wrapped_account env) i (fst (accumulate_account_vote i (record_vote a i x y s)))
      (snd (accumulate_account_vote i (record_vote a i x y s))) (ledger (record_vote a i x y s)) = Some l"
    and u: "update_user_locked a ((record_vote a i x y s)\<lparr>ledger := l\<rparr>) = Some (Inr s1)"
    and s': "s' = wb_deposit (Voted a i x y) s1"
    unfolding wb_vote_def Let_def case_prod_unfold by (auto simp: result_simps dest!: get_net_value_same)
  have "books_ok env own ((record_vote a i x y s)\<lparr>ledger := l\<rparr>)"
    by (rule books_ledger [OF _ pools_lawsD(7) [OF laws l]]) (simp add: b)
  from books_update_locked [OF this u] show ?thesis by (simp add: s')
qed

lemma books_unlock:
  assumes "books_ok env own s" and "wb_unlock env orig i n s = Some (Inr s')"
  shows "books_ok env own s'"
proof -
  from assms(2) have "fold_call (unlock_one i) (take (unat n) (map fst (vote_account_map s i))) s = Some (Inr s')"
    by (auto simp: wb_unlock_def result_simps)
  then show ?thesis
    by (rule fold_call_invariant [where P = "books_ok env own"])
       (use assms(1) in \<open>auto simp: unlock_one_def result_simps dest: books_update_locked [rotated]\<close>)
qed

section \<open>Stake pools\<close>

text \<open>A new pool has a collection of its own, with no item.\<close>

lemma books_new_pool:
  assumes b: "books_ok env own s" and ex: "next_cid s \<noteq> - 1"
    and it: "same_items env own (ledger s) (ledger s')" and nx: "next_nft_id s' = next_nft_id s"
    and ps: "pools s' = (pools s)(p \<mapsto> x)" and ci: "collection_index s' = next_cid s + 1"
    and x: "bp_pid (proxy_basepool x) = p" "bp_cid (proxy_basepool x) = next_cid s" "no_subscribers x"
      "pool_account_id (proxy_basepool x) \<noteq> pallet_id env" "withdraw_queue (proxy_basepool x) = []"
      "total_shares (proxy_basepool x) = 0" "unclaimed x = 0"
  shows "books_ok env own s'"
proof -
  note B = books_okD [OF b]
  have ow: "own (ledger s') = own (ledger s)" "shares_in env (ledger s') = shares_in env (ledger s)"
    using it same_items_shares [OF it] by (simp_all add: same_items_def)
  have lt: "next_cid s < next_cid s + 1" using unat_inc [OF ex] by (simp add: word_less_nat_alt)
  have ge: "RESERVE_CID_START \<le> next_cid s" by (simp add: next_cid_def)
  have nc: "next_cid s' = next_cid s + 1" using le_less_trans [OF ge lt] by (auto simp: next_cid_def [of s'] ci max_def)
  have fresh: "fresh_items own s'" using B(1) by (simp add: fresh_items_def ow nx)
  have "issued env own (ledger s') (next_cid s) = 0"
    using B(4) [of "next_cid s"] by (simp add: issued_def items_def ow)
  then have new: "proxy_ok env own p x s'"
    using x lt fresh by (simp add: proxy_ok_def covered_def queue_ok_def excess_def nc)
  have old: "proxy_ok env own q y s'" if "pools s q = Some y" for q y
  proof -
    have "covered env own y s \<Longrightarrow> covered env own y s'"
      by (rule covered_cong [OF _ _ fresh]) (simp_all add: ow)
    with B(2) [OF that] lt show ?thesis by (auto simp: proxy_ok_def nc)
  qed
  have ne: "bp_cid (proxy_basepool y) \<noteq> next_cid s" if "pools s q = Some y" for q y
    using B(2) [OF that] by (auto simp: proxy_ok_def)
  have "\<forall>c n. next_cid s' \<le> c \<longrightarrow> own (ledger s') c n = None" using B(4) lt by (auto simp: nc ow)
  then show ?thesis
    using fresh new old ne B(3) x(2) unfolding books_ok_def ps by (auto split: if_split_asm) metis+
qed

lemma consume_cid_next: "consume_new_cid s = (next_cid s, s\<lparr>collection_index := next_cid s + 1\<rparr>)"
  by (auto simp: consume_new_cid_def next_cid_def Let_def max_def)

lemma next_cid_pid [simp]: "next_cid (s\<lparr>pool_count := n\<rparr>) = next_cid s"
  by (simp add: next_cid_def)

lemma books_create:
  assumes laws: "pools_laws env own" and b: "books_ok env own s" and ex: "next_cid s \<noteq> - 1"
    and c: "sp_create env orig s = Some (Inr s')"
  shows "books_ok env own s'"
proof -
  from c obtain a symb l where
    l: "create_collection env (pallet_id env) (next_cid s) symb (ledger s) = Some l"
    and s': "pools s' = (pools s)(pool_count s \<mapsto> ProxyStakePool
       \<lparr>sp_basepool = \<lparr>bp_pid = pool_count s, bp_owner = a, total_shares = 0, total_value = 0, withdraw_queue = [],
          value_subscribers = [], bp_cid = next_cid s, pool_account_id = generate_staker_account env (pool_count s) a\<rparr>,
        payout_commission = None, sp_cap = None, sp_workers = [], cd_workers = [],
        lock_account = snd (generate_owner_and_lock_account env (pool_count s) a),
        owner_reward_account = fst (generate_owner_and_lock_account env (pool_count s) a)\<rparr>)"
      "collection_index s' = next_cid s + 1" "next_nft_id s' = next_nft_id s" "ledger s' = l"
    unfolding sp_create_def Let_def case_prod_unfold
    by (auto simp: result_simps consume_new_pid_def consume_cid_next sp_deposit_def)
  show ?thesis
    by (rule books_new_pool [OF b ex _ s'(3,1,2)])
       (simp_all add: s'(4) pools_lawsD(4) [OF laws l] pools_lawsD(8) [OF laws])
qed

lemma books_add_worker:
  assumes "books_ok env own s" and "add_worker env orig p pk s = Some (Inr s')"
  shows "books_ok env own s'"
  using assms by (auto simp: add_worker_def Let_def result_simps books_stake_pool)

lemma books_remove_worker_from_pool:
  assumes "books_ok env own s" and "remove_worker_from_pool pk s = Some (Inr s')"
  shows "books_ok env own s'"
proof -
  from assms(2) obtain p where "worker_assignments s pk = Some p" by (auto simp: remove_worker_from_pool_def result_simps)
  with assms show ?thesis
    by (cases "pools s p"; cases "the (pools s p)")
       (auto simp: remove_worker_from_pool_def result_simps books_stake_pool pool_remove_worker_def)
qed

lemma books_remove_worker:
  assumes "books_ok env own s" and "sp_remove_worker env orig p pk s = Some (Inr s')"
  shows "books_ok env own s'"
proof -
  from assms(2) obtain c where "remove_worker_from_pool pk (s\<lparr>comp := c\<rparr>) = Some (Inr s')"
    by (auto simp: sp_remove_worker_def Let_def result_simps)
  from books_remove_worker_from_pool [OF _ this] assms(1) show ?thesis by simp
qed

lemma books_set_cap:
  "books_ok env own s \<Longrightarrow> set_cap orig p x s = Some (Inr s') \<Longrightarrow> books_ok env own s'"
  by (auto simp: set_cap_def result_simps books_stake_pool)

lemma books_payout_pref:
  "books_ok env own s \<Longrightarrow> sp_set_payout_pref orig p x s = Some (Inr s') \<Longrightarrow> books_ok env own s'"
  by (auto simp: sp_set_payout_pref_def Let_def result_simps books_stake_pool)

lemma books_claim_legacy:
  "books_ok env own s \<Longrightarrow> claim_legacy_rewards env orig p a s = Some (Inr s') \<Longrightarrow> books_ok env own s'"
  by (auto simp: claim_legacy_rewards_def Let_def result_simps)

lemma books_claim_owner_rewards:
  assumes "pools_laws env own" and "books_ok env own s" and "claim_owner_rewards env orig p a s = Some (Inr s')"
  shows "books_ok env own s'"
  using assms by (auto simp: claim_owner_rewards_def Let_def result_simps dest: books_move(1))

section \<open>Computing\<close>

lemma books_do_start:
  assumes laws: "pools_laws env own" and b: "books_ok env own s"
    and c: "do_start_computing env a p w x s = Some (Inr s')"
  shows "books_ok env own s'"
proof -
  from c obtain pool c1 s2 where x: "pools s p = Some (ProxyStakePool pool)"
    and m: "asset_move env (pool_account_id (sp_basepool pool)) (lock_account pool) x (s\<lparr>comp := c1\<rparr>) = Some (Inr s2)"
    and s': "s' = sp_deposit (WorkingStarted p w x) (insert_pool p (ProxyStakePool pool) s2)"
    by (auto simp: do_start_computing_def Let_def result_simps)
  note mv = books_move [OF laws _ m]
  have "pools s2 p = Some (ProxyStakePool pool)" using mv(2) b x by simp
  then show ?thesis using mv(1) b by (simp add: s' insert_pool_same)
qed

lemma books_do_stop:
  assumes "books_ok env own s" and "do_stop_computing env a p w s = Some (Inr s')"
  shows "books_ok env own s'"
  using assms by (auto simp: do_stop_computing_def Let_def result_simps books_stake_pool)

lemma slash_simps [simp]:
  "total_shares (slash x p) = total_shares p" "withdraw_queue (slash x p) = withdraw_queue p"
  "bp_cid (slash x p) = bp_cid p" "bp_pid (slash x p) = bp_pid p" "pool_account_id (slash x p) = pool_account_id p"
  by (simp_all add: slash_def Let_def)

lemma books_handle_reclaim:
  assumes laws: "pools_laws env own" and b: "books_ok env own s"
    and c: "handle_reclaim env p st sl s = Some (Inr s')"
  shows "books_ok env own s'"
proof -
  let ?s1 = "if sl \<noteq> 0 then sp_deposit (PoolSlashed p sl) s else s"
  obtain pool s2 bp s3 where x: "pools s p = Some (ProxyStakePool pool)"
    and m: "asset_move env (lock_account pool) (pool_account_id (sp_basepool pool)) (st - sl) ?s1 = Some (Inr s2)"
    and t: "try_process_withdraw_queue env (if sl \<noteq> 0 then slash sl (sp_basepool pool) else sp_basepool pool) s2
      = Some (Inr (bp, s3))"
    and s': "s' = insert_pool p (ProxyStakePool (pool\<lparr>sp_basepool := bp\<rparr>)) s3"
    using c by (cases "sl = 0") (auto simp: handle_reclaim_def Let_def result_simps)
  define pool1 where "pool1 = (if sl \<noteq> 0 then pool\<lparr>sp_basepool := slash sl (sp_basepool pool)\<rparr> else pool)"
  have p1: "same_books (ProxyStakePool pool) (ProxyStakePool pool1)" by (simp add: same_books_def pool1_def)
  have s1: "books_ok env own ?s1" "pools ?s1 = pools s" using b by simp_all
  note mv = books_move [OF laws s1(1) m]
  have "books_ok env own (insert_pool p (ProxyStakePool pool1) s2)"
    by (rule books_insert_same [OF mv(1) _ p1]) (simp add: mv(2) s1(2) x)
  from books_process(1) [OF laws this, of "ProxyStakePool (pool\<lparr>sp_basepool := bp\<rparr>)"] t
  show ?thesis by (simp add: s' pool1_def split: if_split_asm)
qed

lemma books_do_reclaim:
  assumes laws: "pools_laws env own" and b: "books_ok env own s"
    and c: "do_reclaim env p a w k s = Some (Inr (r, s'))"
  shows "books_ok env own s'"
proof -
  from c obtain c1 st sl s1 pool where h: "handle_reclaim env p st sl (s\<lparr>comp := c1\<rparr>) = Some (Inr s1)"
    and x: "pools s1 p = Some (ProxyStakePool pool)"
    and s': "s' = insert_pool p (ProxyStakePool (pool_remove_cd_worker w pool)) (sp_deposit (PoolWorkerReclaimed p w) s1)"
    by (auto simp: do_reclaim_def Let_def result_simps)
  have "books_ok env own s1" using books_handle_reclaim [OF laws _ h] b by simp
  from books_stake_pool [OF this x, of "pool_remove_cd_worker w pool"] show ?thesis
    by (simp add: s' pool_remove_cd_worker_def)
qed

lemma books_start:
  assumes "pools_laws env own" and "books_ok env own s" and "pool_start_computing env orig p w x s = Some (Inr s')"
  shows "books_ok env own s'"
  using assms by (auto simp: pool_start_computing_def result_simps dest: books_do_start)

lemma books_stop:
  assumes "books_ok env own s" and "pool_stop_computing env orig p w s = Some (Inr s')"
  shows "books_ok env own s'"
  using assms by (auto simp: pool_stop_computing_def result_simps dest: books_do_stop)

lemma books_reclaim:
  assumes "pools_laws env own" and "books_ok env own s" and "reclaim_pool_worker env orig p w s = Some (Inr s')"
  shows "books_ok env own s'"
  using assms by (auto simp: reclaim_pool_worker_def result_simps dest: books_do_reclaim)

lemma books_restart:
  assumes "pools_laws env own" and "books_ok env own s" and "restart_computing env orig p w x s = Some (Inr s')"
  shows "books_ok env own s'"
  using assms
  by (auto simp: restart_computing_def Let_def result_simps dest: books_do_stop books_do_reclaim books_do_start)

section \<open>Contributions and withdrawals\<close>

lemma ensure_vault_owner_iff [result_simps]:
  "ensure_vault_owner q a s = Inr v \<longleftrightarrow>
     pools s q = Some (ProxyVault v) \<and> q \<notin> vault_locks s \<and> a = bp_owner (v_basepool v)"
  by (auto simp: ensure_vault_owner_def result_simps)

lemma books_subscribe_vault:
  assumes b: "books_ok env own (insert_pool p (ProxyStakePool pool) s)"
    and v: "\<And>q v. mv = Some (q, v) \<Longrightarrow> pools s q = Some (ProxyVault v) \<and> q \<noteq> p"
    and e: "subscribe_vault p mv (sp_basepool pool) s = (bp, s')"
  shows "books_ok env own (insert_pool p (ProxyStakePool (pool\<lparr>sp_basepool := bp\<rparr>)) s')"
proof (cases mv)
  case None
  with b e show ?thesis by (cases pool) (auto simp: subscribe_vault_def)
next
  case (Some qv)
  obtain q v where qv: "mv = Some (q, v)" using Some by (cases qv) auto
  from v [OF qv] have q: "pools s q = Some (ProxyVault v)" "q \<noteq> p" by auto
  let ?V = "ProxyVault (if p \<in> set (invest_pools v) then v else v\<lparr>invest_pools := invest_pools v @ [p]\<rparr>)"
  have s': "s' = insert_pool q ?V s" and
    bp: "bp = (if q \<in> set (value_subscribers (sp_basepool pool)) then sp_basepool pool
       else (sp_basepool pool)\<lparr>value_subscribers := value_subscribers (sp_basepool pool) @ [q]\<rparr>)"
    using e by (simp_all add: qv subscribe_vault_def Let_def)
  have "books_ok env own (insert_pool q ?V (insert_pool p (ProxyStakePool pool) s))"
    by (rule books_insert_same [OF b, where x = "ProxyVault v"]) (use q in \<open>simp_all add: same_books_def\<close>)
  then have "books_ok env own (insert_pool p (ProxyStakePool pool) s')"
    using q(2) by (simp add: s' insert_pool_commute)
  from books_insert_same [OF this, of p "ProxyStakePool pool" "ProxyStakePool (pool\<lparr>sp_basepool := bp\<rparr>)"]
  show ?thesis by (simp add: same_books_def bp)
qed

text \<open>Contributing to a pool, and serving its queue, for a stake pool and for a vault.\<close>

lemma books_contribute:
  assumes laws: "pools_laws env own" and b: "books_ok env own s" and x: "pools s p = Some x"
    and small: "unat amount < 2 ^ 80" and a: "a \<noteq> pallet_id env"
    and c: "base_contribute env (proxy_basepool x) a amount s = Some (Inr (sh, proxy_basepool x', s'))"
    and x': "unclaimed x' = unclaimed x" "no_subscribers x' = no_subscribers x"
  shows "books_ok env own (insert_pool p x' s')" and "nft_only s s'"
proof -
  note bk = books_backed [OF b x]
  note st = contribute_effect(1) [OF pools_lawsD(1) [OF laws] pools_lawsD(2) [OF laws] bk(1) small a c]
  show "books_ok env own (insert_pool p x' s')"
    by (rule books_pool_step [OF b x pool_step_imp_le [OF st bk(1)] x'])
  show "nft_only s s'" by (rule pool_stepD(3) [OF st])
qed


text \<open>The account a call acts for: the signer, or the vault that the signer owns.\<close>

lemma acting_account:
  assumes b: "books_ok env own s" and a: "a \<noteq> pallet_id env"
    and c: "(case as_vault of None \<Rightarrow> ok_call (a, None)
       | Some q \<Rightarrow> bind_call (Some (ensure_vault_owner q a s)) (\<lambda>v. ok_call (pool_account_id (v_basepool v), Some (q, v))))
       = Some (Inr (who, mv))"
    and x: "pools s p = Some (ProxyStakePool pool)"
  shows "who \<noteq> pallet_id env" and "mv = Some (q, v) \<Longrightarrow> pools s q = Some (ProxyVault v) \<and> q \<noteq> p"
proof -
  have "mv = None \<and> who = a \<or>
    (\<exists>q v. mv = Some (q, v) \<and> pools s q = Some (ProxyVault v) \<and> who = pool_account_id (v_basepool v))"
    using c by (cases as_vault) (auto simp: result_simps)
  then show "who \<noteq> pallet_id env" and "mv = Some (q, v) \<Longrightarrow> pools s q = Some (ProxyVault v) \<and> q \<noteq> p"
    using a x books_backed(2) [OF b] by fastforce+
qed

lemma books_sp_contribute:
  assumes laws: "pools_laws env own" and b: "books_ok env own s"
    and small: "unat amount < 2 ^ 80" and a: "orig \<noteq> Signed (pallet_id env)"
    and c: "sp_contribute env orig p amount as_vault s = Some (Inr s')"
  shows "books_ok env own s'"
proof -
  from c obtain a0 who mv pool sh bp s1 bp1 s2 bp2 s3 r s5 where orig: "orig = Signed a0"
    and w: "(case as_vault of None \<Rightarrow> ok_call (a0, None)
       | Some q \<Rightarrow> bind_call (Some (ensure_vault_owner q a0 s)) (\<lambda>v. ok_call (pool_account_id (v_basepool v), Some (q, v))))
       = Some (Inr (who, mv))"
    and x: "pools s p = Some (ProxyStakePool pool)"
    and bc: "base_contribute env (sp_basepool pool) who amount s = Some (Inr (sh, bp, s1))"
    and sv: "subscribe_vault p mv bp s1 = (bp1, s2)"
    and t: "try_process_withdraw_queue env bp1 s2 = Some (Inr (bp2, s3))"
    and m: "merge_nft_for_staker env (bp_cid bp2) who (bp_pid bp2)
       (insert_pool p (ProxyStakePool (pool\<lparr>sp_basepool := bp2\<rparr>)) s3) = Some (Inr (r, s5))"
    and s': "s' = sp_deposit (Contribution p who amount sh as_vault)
       (if as_vault = None then maybe_subscribe_to_pool who p (bp_cid bp2) s5 else s5)"
    unfolding sp_contribute_def Let_def by (auto simp: result_simps case_pair_iff)
  have who: "who \<noteq> pallet_id env" and vq: "\<And>q v. mv = Some (q, v) \<Longrightarrow> pools s q = Some (ProxyVault v) \<and> q \<noteq> p"
    using acting_account [OF b _ w x] a orig by auto
  have b1: "books_ok env own (insert_pool p (ProxyStakePool (pool\<lparr>sp_basepool := bp\<rparr>)) s1)" and n1: "nft_only s s1"
    using books_contribute [OF laws b x small who, of sh "ProxyStakePool (pool\<lparr>sp_basepool := bp\<rparr>)" s1] bc by simp_all
  have b2: "books_ok env own (insert_pool p (ProxyStakePool (pool\<lparr>sp_basepool := bp1\<rparr>)) s2)"
    using books_subscribe_vault [OF b1, of mv bp1 s2] vq sv nft_onlyD(2) [OF n1] by simp
  have b3: "books_ok env own (insert_pool p (ProxyStakePool (pool\<lparr>sp_basepool := bp2\<rparr>)) s3)"
    using books_process(1) [OF laws b2, of "ProxyStakePool (pool\<lparr>sp_basepool := bp2\<rparr>)" s3] t by simp
  have "books_ok env own s5" using books_merge(1) [OF laws b3 _ who, of p "ProxyStakePool (pool\<lparr>sp_basepool := bp2\<rparr>)"] m by simp
  then show ?thesis by (simp add: s')
qed

lemma books_withdraw_shares:
  assumes laws: "pools_laws env own" and b: "books_ok env own s" and x: "pools s p = Some x"
    and a: "a \<noteq> pallet_id env"
    and w: "withdraw_shares env e1 e2 (proxy_basepool x) a sh v s = Some (Inr (proxy_basepool x', s'))"
    and x': "unclaimed x' = unclaimed x" "no_subscribers x' = no_subscribers x"
  shows "books_ok env own (insert_pool p x' s')" and "nft_only s s'"
proof -
  note st = withdraw_shares_step(1) [OF pools_lawsD(1) [OF laws] books_backed(1) [OF b x] a w]
  show "books_ok env own (insert_pool p x' s')" by (rule books_pool_step [OF b x st x'])
  show "nft_only s s'" by (rule pool_step_leD(4) [OF st])
qed

lemma books_sp_withdraw:
  assumes laws: "pools_laws env own" and b: "books_ok env own s" and a: "as_vault = None \<Longrightarrow> orig \<noteq> Signed (pallet_id env)"
    and c: "sp_withdraw env orig p sh as_vault s = Some (Inr s')"
  shows "books_ok env own s'" and "pools s q = Some (ProxyVault v) \<Longrightarrow> pools s' q = Some (ProxyVault v)"
proof -
  from c obtain a0 who pool bp s1 where orig: "orig = Signed a0"
    and w: "(case as_vault of None \<Rightarrow> ok_call a0
       | Some q \<Rightarrow> bind_call (Some (ensure_vault_owner q a0 s)) (\<lambda>v. ok_call (pool_account_id (v_basepool v))))
       = Some (Inr who)"
    and x: "pools s p = Some (ProxyStakePool pool)"
    and ws: "withdraw_shares env (Sp SpNoNftToWithdraw) (Sp SpInvalidWithdrawalAmount)
       (sp_basepool pool) who sh as_vault s = Some (Inr (bp, s1))"
    and s': "s' = insert_pool p (ProxyStakePool (pool\<lparr>sp_basepool := bp\<rparr>)) s1"
    unfolding sp_withdraw_def by (auto simp: result_simps)
  have who: "who \<noteq> pallet_id env"
    using w a orig books_backed(2) [OF b] by (cases as_vault) (fastforce simp: result_simps)+
  note st = books_withdraw_shares [OF laws b x who, of _ _ sh as_vault "ProxyStakePool (pool\<lparr>sp_basepool := bp\<rparr>)" s1]
  show "books_ok env own s'" using st(1) ws by (simp add: s')
  show "pools s' q = Some (ProxyVault v)" if "pools s q = Some (ProxyVault v)"
    using that x nft_onlyD(2) [OF st(2)] ws by (auto simp: s')
qed

lemma books_force_stop:
  assumes "books_ok env own s" and "force_stop_one env pool p w s = Some (Inr s')"
  shows "books_ok env own s'"
proof (cases "sessions (comp s) (pool_sub_account env p w)")
  case None
  with assms show ?thesis by (simp add: force_stop_one_def result_simps)
next
  case (Some i)
  with assms show ?thesis by (auto simp: force_stop_one_def result_simps dest: books_do_stop split: if_split_asm)
qed

lemma books_sp_check:
  assumes laws: "pools_laws env own" and b: "books_ok env own s"
    and c: "sp_check_and_maybe_force_withdraw env orig p s = Some (Inr s')"
  shows "books_ok env own s'"
proof -
  from c obtain pool bp s1 e r s3 where x: "pools s p = Some (ProxyStakePool pool)"
    and t: "try_process_withdraw_queue env (sp_basepool pool) s = Some (Inr (bp, s1))"
    and h: "has_expired_withdrawal env bp (pool_now_sec env) (grace_period env) None r
       (insert_pool p (ProxyStakePool (pool\<lparr>sp_basepool := bp\<rparr>)) s1) = Some (Inr (e, s3))"
    and s': "(if e then fold_call (force_stop_one env (pool\<lparr>sp_basepool := bp\<rparr>) p)
       (sp_workers (pool\<lparr>sp_basepool := bp\<rparr>)) s3 else ok_call s3) = Some (Inr s')"
    unfolding sp_check_and_maybe_force_withdraw_def Let_def by (auto simp: result_simps)
  have "books_ok env own (insert_pool p (ProxyStakePool (pool\<lparr>sp_basepool := bp\<rparr>)) s1)"
    by (rule books_process(1) [OF laws, where x = "ProxyStakePool pool"]) (use b t x in \<open>simp_all add: insert_pool_same\<close>)
  then have b3: "books_ok env own s3" using has_expired_same [OF h] by simp
  show ?thesis
  proof (cases e)
    case True
    with s' have "fold_call (force_stop_one env (pool\<lparr>sp_basepool := bp\<rparr>) p) (sp_workers pool) s3 = Some (Inr s')"
      by simp
    then show ?thesis
      by (rule fold_call_invariant [where P = "books_ok env own"]) (auto simp: b3 intro: books_force_stop)
  next
    case False
    with s' b3 show ?thesis by (simp add: result_simps)
  qed
qed

section \<open>Rewards\<close>

lemma queued_shares_same:
  assumes "fold_call (queued_shares env c) wds (f, s) = Some (Inr (f', s'))"
  shows "s' = s"
proof -
  have "snd (f', s') = s"
    by (rule fold_call_invariant [OF assms, where P = "\<lambda>x. snd x = s"])
       (auto simp: result_simps dest!: peek_nft_effect(1))
  then show ?thesis by simp
qed

lemma distribute_vault:
  assumes "distribute_reward env fuel r p s = Some (Inr (p', s'))" and "value_subscribers p = []"
  shows "p' = p\<lparr>total_value := total_value p + r\<rparr>" and "s' = s"
  using assms by (cases fuel; simp add: Let_def result_simps)+

lemma settled_stake_merge:
  assumes "settled_stake env p r a s = Some (Inr (x, s'))"
  obtains n where "merge_nft_for_staker env (bp_cid p) a (bp_pid p) s = Some (Inr (n, s'))"
proof -
  from assms obtain n s1 where m: "merge_nft_for_staker env (bp_cid p) a (bp_pid p) s = Some (Inr (n, s1))"
    unfolding settled_stake_def Let_def by (auto simp: result_simps)
  have "s' = s1"
  proof (cases n)
    case None
    with assms m show ?thesis by (simp add: settled_stake_def Let_def result_simps)
  next
    case (Some k)
    with assms m obtain f g where "(case fx_checked_div (pool_fx env) f g of None \<Rightarrow> ok_call (None, s1)
       | Some ratio \<Rightarrow>
           bind_call (expect_call (from_fixed (pool_fx env) ratio)) (\<lambda>stake_ratio.
           bind_call (expect_call (to_fixed (pool_fx env) r)) (\<lambda>rewards_fixed.
           bind_call (expect_call (bmul (pool_fx env) stake_ratio rewards_fixed)) (\<lambda>x. ok_call (Some x, s1)))))
       = (Some (Inr (x, s')) :: (balance option \<times> _) pool_call)"
      unfolding settled_stake_def Let_def by (auto simp: result_simps dest!: peek_nft_effect(1) queued_shares_same)
    then show ?thesis by (cases "fx_checked_div (pool_fx env) f g") (auto simp: result_simps)
  qed
  with m show thesis by (auto intro: that)
qed

lemma books_settle:
  assumes laws: "pools_laws env own" and b: "books_ok env own (insert_pool p x s)"
    and x: "pools s p = Some (ProxyStakePool y)" and v: "pools s q = Some (ProxyVault v)"
    and st: "settled_stake env (proxy_basepool x) r (pool_account_id (v_basepool v)) s = Some (Inr (z, s1))"
    and s': "s' = s1 \<or> (\<exists>k fuel bp s2. distribute_reward env fuel k (v_basepool v) s1 = Some (Inr (bp, s2)) \<and>
       s' = insert_pool q (ProxyVault (v\<lparr>v_basepool := bp\<rparr>)) s2)"
  shows "books_ok env own (insert_pool p x s')" and "pools s' p = Some (ProxyStakePool y)"
proof -
  have ne: "q \<noteq> p" using x v by auto
  have vq: "pools (insert_pool p x s) q = Some (ProxyVault v)" using v ne by simp
  have acct: "pool_account_id (v_basepool v) \<noteq> pallet_id env" using books_backed(2) [OF b vq] by simp
  have bk: "backed env own (proxy_basepool x) s" using books_backed(1) [OF b, of p x] by simp
  have sub: "value_subscribers (v_basepool v) = []" using books_okD(2) [OF b vq] by (simp add: proxy_ok_def)
  obtain n where m: "merge_nft_for_staker env (bp_cid (proxy_basepool x)) (pool_account_id (v_basepool v))
      (bp_pid (proxy_basepool x)) s = Some (Inr (n, s1))" using settled_stake_merge [OF st] .
  have st1: "pool_step_le env own (proxy_basepool x) s (proxy_basepool x) s1"
    by (rule pool_step_imp_le [OF merge_step [OF pools_lawsD(1) [OF laws] bk acct m] bk])
  have b1: "books_ok env own (insert_pool p x s1)" by (rule books_step [OF b st1]) simp_all
  have ps: "pools s1 = pools s" by (rule nft_onlyD(2) [OF pool_step_leD(4) [OF st1]])
  show "books_ok env own (insert_pool p x s')"
    using s'
  proof
    assume "\<exists>k fuel bp s2. distribute_reward env fuel k (v_basepool v) s1 = Some (Inr (bp, s2)) \<and>
       s' = insert_pool q (ProxyVault (v\<lparr>v_basepool := bp\<rparr>)) s2"
    then obtain k where s2: "s' = insert_pool q (ProxyVault (v\<lparr>v_basepool :=
        (v_basepool v)\<lparr>total_value := total_value (v_basepool v) + k\<rparr>\<rparr>)) s1"
      using distribute_vault sub by blast
    have "books_ok env own (insert_pool q (ProxyVault (v\<lparr>v_basepool :=
        (v_basepool v)\<lparr>total_value := total_value (v_basepool v) + k\<rparr>\<rparr>)) (insert_pool p x s1))"
      by (rule books_insert_same [OF b1, where x = "ProxyVault v"]) (use v ne ps in \<open>simp_all add: same_books_def\<close>)
    then show ?thesis using ne by (simp add: s2 insert_pool_commute)
  qed (simp add: b1)
  show "pools s' p = Some (ProxyStakePool y)"
    using s' distribute_vault(2) [OF _ sub] x ne ps by fastforce
qed

lemma books_distribute:
  fixes s :: "('acc, 'led, 'z) base_pool_state_scheme"
  assumes laws: "pools_laws env own" and b: "books_ok env own s"
    and x: "pools s p = Some (ProxyStakePool pool)"
    and d: "distribute_reward env fuel r (sp_basepool pool) s = Some (Inr (bp, s'))"
  shows "books_ok env own (insert_pool p (ProxyStakePool (pool\<lparr>sp_basepool := bp\<rparr>)) s')"
proof -
  let ?bp = "(sp_basepool pool)\<lparr>total_value := total_value (sp_basepool pool) + r\<rparr>"
  let ?x = "ProxyStakePool (pool\<lparr>sp_basepool := ?bp\<rparr>)"
  let ?P = "\<lambda>s. books_ok env own (insert_pool p ?x s) \<and> pools s p = Some (ProxyStakePool pool)"
  obtain k where k: "fuel = Suc k" using d by (cases fuel) simp_all
  note d' = d [unfolded k distribute_reward.simps Let_def]
  from d' have bp: "bp = ?bp" by (auto simp: result_simps)
  have "?P s" using books_insert_same [OF b x, of ?x] x by (simp add: same_books_def)
  define f where "f q t =
     bind_call (unwrap_call (Some (ensure_vault q t))) (\<lambda>vault.
     bind_call (settled_stake env ?bp r (pool_account_id (v_basepool vault)) t) (\<lambda>(settled, s1).
     case settled of
       None \<Rightarrow> ok_call s1
     | Some y \<Rightarrow> bind_call (distribute_reward env k y (v_basepool vault) s1) (\<lambda>(bp, s2).
         ok_call (insert_pool q (ProxyVault (vault\<lparr>v_basepool := bp\<rparr>)) s2))))" for q and t :: "('acc, 'led, 'z) base_pool_state_scheme"
  have step: "?P t'" if "?P t" and "f q t = Some (Inr t')" for q t t'
  proof -
    from that(2) obtain v z s1 where v: "pools t q = Some (ProxyVault v)"
      and st: "settled_stake env (proxy_basepool ?x) r (pool_account_id (v_basepool v)) t = Some (Inr (z, s1))"
      and t': "(case z of None \<Rightarrow> ok_call s1
       | Some y \<Rightarrow> bind_call (distribute_reward env k y (v_basepool v) s1) (\<lambda>(bp, s2).
           ok_call (insert_pool q (ProxyVault (v\<lparr>v_basepool := bp\<rparr>)) s2))) = Some (Inr t')"
      by (auto simp: f_def result_simps)
    have "t' = s1 \<or> (\<exists>y j bp s2. distribute_reward env j y (v_basepool v) s1 = Some (Inr (bp, s2)) \<and>
       t' = insert_pool q (ProxyVault (v\<lparr>v_basepool := bp\<rparr>)) s2)"
      using t' by (cases z) (auto simp: result_simps)
    from books_settle [OF laws _ _ v st this] that(1) show ?thesis by blast
  qed
  from d' have "fold_call f (value_subscribers ?bp) s = Some (Inr s')"
    by (auto simp: result_simps f_def [abs_def])
  then have "?P s'" by (rule fold_call_invariant [where P = ?P]) (use \<open>?P s\<close> step in blast)+
  with bp show ?thesis by simp
qed


lemma books_new_reward:
  assumes laws: "pools_laws env own" and b: "books_ok env own s"
    and x: "pools s p = Some (ProxyStakePool pool)"
    and h: "handle_pool_new_reward env pool r s = Some (Inr (pool', s'))"
  shows "books_ok env own (insert_pool p (ProxyStakePool pool') s')"
proof -
  show ?thesis
  proof (cases "r = 0 \<or> balance_close_to_zero r \<or> balance_close_to_zero (total_shares (sp_basepool pool))")
    case True
    then have "pool' = pool" "books_ok env own s'" "pools s' = pools s"
      using h b by (auto simp: handle_pool_new_reward_def Let_def result_simps split: if_split_asm)
    then show ?thesis using x by (simp add: insert_pool_same)
  next
    case False
    with h obtain c1 m1 s2 m2 s4 x1 where
      m1: "mint_into env (owner_reward_account pool) x1 (s\<lparr>comp := c1\<rparr>) = Some (Inr (m1, s2))"
      and m2: "mint_into env (pool_account_id (sp_basepool pool)) (r - x1)
         (if m1 then s2 else sp_deposit (RewardToOwnerDismissedDust (bp_pid (sp_basepool pool)) x1) s2)
         = Some (Inr (m2, s4))"
      and rest: "\<exists>d s5. (if m2 \<and> is_nondust_balance (r - x1) then
             bind_call (distribute_reward env (Suc (unat (pool_count s4))) (r - x1) (sp_basepool pool) s4) (\<lambda>(bp, s5).
             ok_call (True, pool\<lparr>sp_basepool := bp\<rparr>, s5))
           else if r - x1 > 0 then
             ok_call (False, pool, sp_deposit (RewardToDistributionDismissedDust (bp_pid (sp_basepool pool)) (r - x1)) s4)
           else ok_call (False, pool, s4)) = (Some (Inr (d, pool', s5)) :: (bool \<times> _) pool_call) \<and>
           books_ok env own (insert_pool p (ProxyStakePool pool') s') =
           books_ok env own (insert_pool p (ProxyStakePool pool') s5)"
      unfolding handle_pool_new_reward_def Let_def by (auto simp: result_simps)
    note b2 = books_mint_into [OF laws _ m1]
    have b2': "books_ok env own s2" "pools s2 = pools s" using b2 b by simp_all
    note b4 = books_mint_into [OF laws _ m2]
    have b4': "books_ok env own s4" "pools s4 p = Some (ProxyStakePool pool)"
      using b4 b2' x by (simp_all split: if_split_asm)
    from rest show ?thesis
      by (auto simp: result_simps insert_pool_same b4' simp del: distribute_reward.simps dest: books_distribute [OF laws b4'] split: if_split_asm)
  qed
qed

lemma books_reward_one:
  assumes laws: "pools_laws env own" and b: "books_ok env own s" and r: "reward_one env i s = Some (Inr s')"
  shows "books_ok env own s'"
proof (cases "worker_assignments s (si_pubkey i)")
  case None
  with r b show ?thesis by (auto simp: reward_one_def result_simps)
next
  case (Some p)
  with r obtain x pool pool' s1 where "pools s p = Some (ProxyStakePool pool)"
    "handle_pool_new_reward env pool x s = Some (Inr (pool', s1))" "s' = insert_pool p (ProxyStakePool pool') s1"
    by (auto simp: reward_one_def result_simps)
  with books_new_reward [OF laws b] show ?thesis by simp
qed

lemma books_on_reward:
  assumes "pools_laws env own" and "books_ok env own s" and "on_reward env xs s = Some (Inr s')"
  shows "books_ok env own s'"
  by (rule fold_call_invariant [where P = "books_ok env own", OF assms(3) [unfolded on_reward_def] assms(2)])
     (rule books_reward_one [OF assms(1)])

end
