(* ===== verification/Vault_Books.thy ===== *)
theory Vault_Books
  imports Stake_Books
begin

text \<open>The calls of the vaults keep the books of all pools.\<close>

section \<open>Owner shares\<close>

lemma books_vault:
  assumes "books_ok env own s" and "pools s p = Some (ProxyVault v)"
    and "v_basepool v' = v_basepool v" and "owner_shares v' = owner_shares v"
  shows "books_ok env own (insert_pool p (ProxyVault v') s)"
  by (rule books_insert_same [OF assms(1,2)]) (simp add: same_books_def assms(3,4))

text \<open>The owner's commission raises the shares of the vault and the owner's claim alike.\<close>

lemma books_adjust:
  assumes b: "books_ok env own s" and x: "pools s p = Some (ProxyVault v)"
    and k: "unat (total_shares (v_basepool v)) + unat k < 2 ^ 128"
    and v': "v_basepool v' = (v_basepool v)\<lparr>total_shares := total_shares (v_basepool v) + k\<rparr>"
      "owner_shares v' = owner_shares v + k"
  shows "books_ok env own (insert_pool p (ProxyVault v') s)"
proof -
  have px: "proxy_ok env own p (ProxyVault v) s" by (rule books_okD(2) [OF b x])
  then have c: "uint (owner_shares v) \<le> excess env own (v_basepool v) s" by (simp add: proxy_ok_def covered_def)
  then have "uint (owner_shares v) \<le> uint (total_shares (v_basepool v))" by (simp add: excess_def)
  then have le: "unat (owner_shares v) \<le> unat (total_shares (v_basepool v))" unfolding word_le_nat_alt [symmetric] word_le_def .
  have t: "unat (total_shares (v_basepool v) + k) = unat (total_shares (v_basepool v)) + unat k"
    by (rule unat_add_bounded) (use k in simp)
  have w: "unat (owner_shares v + k) = unat (owner_shares v) + unat k"
    by (rule unat_add_bounded) (use k le in simp)
  have u: "uint (total_shares (v_basepool v) + k) = uint (total_shares (v_basepool v)) + uint k"
    "uint (owner_shares v + k) = uint (owner_shares v) + uint k"
    using arg_cong [OF t, of int] arg_cong [OF w, of int] by simp_all
  have "nft_delta env own (bp_cid (v_basepool v)) UNIV 0 s (insert_pool p (ProxyVault v') s)"
    by (rule nft_delta_same) simp_all
  then have d: "nft_delta env own (bp_cid (proxy_basepool (ProxyVault v))) UNIV 0 s (insert_pool p (ProxyVault v') s)" by simp
  show ?thesis
    by (rule books_update [OF b x _ _ d, where x' = "ProxyVault v'"]) (use px c u in \<open>simp_all add: proxy_ok_def covered_def v' excess_def queue_ok_def fresh_items_def\<close>)
qed

lemma books_gain:
  assumes laws: "pools_laws env own" and b: "books_ok env own s"
    and g: "do_gain_owner_share env p s = Some (Inr s')"
  shows "books_ok env own s'"
proof -
  from g obtain v mp where x: "pools s p = Some (ProxyVault v)" and mp: "share_price (pool_fx env) (v_basepool v) = Some mp"
    by (auto simp: do_gain_owner_share_def result_simps)
  show ?thesis
  proof (cases mp)
    case None
    with g x mp b show ?thesis by (simp add: do_gain_owner_share_def result_simps)
  next
    case (Some price)
    with g x mp obtain cp where "from_fixed (pool_fx env) price = Some cp"
      by (auto simp: do_gain_owner_share_def result_simps)
    note cp = this
    show ?thesis
    proof (cases "last_share_price_checkpoint v = 0 \<or> cp \<le> last_share_price_checkpoint v")
      case True
      with g x mp Some cp b show ?thesis
        by (auto simp: do_gain_owner_share_def result_simps books_vault split: if_split_asm)
    next
      case False
      let ?k = "\<lambda>all. if total_shares (v_basepool v) \<le> all then all - total_shares (v_basepool v) else 0"
      from False g x mp Some cp obtain y f all where d: "bdiv (pool_fx env) (total_value (v_basepool v)) f = Some all"
        and s': "s' = v_deposit (OwnerSharesGained p (?k all) y) (insert_pool p (ProxyVault
             (v\<lparr>v_basepool := (v_basepool v)\<lparr>total_shares := total_shares (v_basepool v) + ?k all\<rparr>,
                owner_shares := owner_shares v + ?k all, last_share_price_checkpoint := y\<rparr>)) s)"
        unfolding do_gain_owner_share_def Let_def by (auto simp: result_simps split del: if_split)
      have "unat all < 2 ^ 80" by (rule bdiv_bound [OF pools_lawsD(2) [OF laws] d])
      then have "unat (total_shares (v_basepool v)) + unat (?k all) < 2 ^ 128"
        using share_price_bound(1) [OF pools_lawsD(2) [OF laws] mp] by (auto simp: unat_sub_le word_le_nat_alt)
      from books_adjust [OF b x this] show ?thesis by (simp add: s')
    qed
  qed
qed

lemma books_maybe_gain:
  assumes "pools_laws env own" and "books_ok env own s" and "maybe_gain_owner_shares env orig p s = Some (Inr s')"
  shows "books_ok env own s'"
  using assms by (auto simp: maybe_gain_owner_shares_def result_simps dest: books_gain)

lemma books_v_payout_pref:
  assumes "pools_laws env own" and "books_ok env own s" and "v_set_payout_pref env orig p x s = Some (Inr s')"
  shows "books_ok env own s'"
  using assms by (auto simp: v_set_payout_pref_def Let_def result_simps books_vault dest: books_maybe_gain)

lemma books_v_create:
  assumes laws: "pools_laws env own" and b: "books_ok env own s" and ex: "next_cid s \<noteq> - 1"
    and c: "v_create env orig s = Some (Inr s')"
  shows "books_ok env own s'"
proof -
  from c obtain a symb l where
    l: "create_collection env (pallet_id env) (next_cid s) symb (ledger s) = Some l"
    and s': "pools s' = (pools s)(pool_count s \<mapsto> ProxyVault
       \<lparr>v_basepool = \<lparr>bp_pid = pool_count s, bp_owner = a, total_shares = 0, total_value = 0, withdraw_queue = [],
          value_subscribers = [], bp_cid = next_cid s, pool_account_id = generate_staker_account env (pool_count s) a\<rparr>,
        last_share_price_checkpoint = initial_price_check_point env, v_commission = None, owner_shares = 0,
        invest_pools = []\<rparr>)"
      "collection_index s' = next_cid s + 1" "next_nft_id s' = next_nft_id s" "ledger s' = l"
    unfolding v_create_def Let_def case_prod_unfold
    by (auto simp: result_simps consume_new_pid_def consume_cid_next v_deposit_def)
  show ?thesis
    by (rule books_new_pool [OF b ex _ s'(3,1,2)])
       (simp_all add: s'(4) pools_lawsD(4) [OF laws l] pools_lawsD(8) [OF laws])
qed

text \<open>A claim turns owner shares into an NFT.\<close>

lemma books_claim:
  assumes laws: "pools_laws env own" and b: "books_ok env own s" and a: "target \<noteq> pallet_id env"
    and c: "claim_owner_shares env orig p target sh s = Some (Inr s')"
  shows "books_ok env own s'"
proof -
  from c obtain who v n s1 r s2 where x: "pools s p = Some (ProxyVault v)" and le: "sh \<le> owner_shares v"
    and m: "mint_nft env (bp_cid (v_basepool v)) target sh p s = Some (Inr (n, s1))"
    and g: "merge_nft_for_staker env (bp_cid (v_basepool v)) target (bp_pid (v_basepool v)) s1 = Some (Inr (r, s2))"
    and s': "s' = v_deposit (OwnerSharesClaimed p who sh) (insert_pool p (ProxyVault (v\<lparr>owner_shares := owner_shares v - sh\<rparr>))
       (maybe_subscribe_to_pool who p (bp_cid (v_basepool v)) s2))"
    unfolding claim_owner_shares_def Let_def by (auto simp: result_simps)
  let ?v = "v\<lparr>owner_shares := owner_shares v - sh\<rparr>"
  note L = pools_lawsD(1) [OF laws]
  have px: "proxy_ok env own p (ProxyVault v) s" by (rule books_okD(2) [OF b x])
  note me = mint_nft_effect(1) [OF L m] and md = mint_nft_delta [OF L books_okD(1) [OF b] m]
  have d: "nft_delta env own (bp_cid (proxy_basepool (ProxyVault v))) UNIV (uint sh) s (insert_pool p (ProxyVault ?v) s1)"
    using md(1) by (simp add: nft_delta_def fresh_items_def)
  have q: "queue_ok env own (v_basepool v) s1"
    by (rule queue_ok_delta [OF _ md(1)]) (use px in \<open>auto simp: proxy_ok_def covered_def queue_ok_def\<close>)
  have "uint (owner_shares v - sh) = uint (owner_shares v) - uint sh" using le by (simp add: uint_minus_simple_alt word_le_def)
  then have cov: "covered env own (ProxyVault ?v) (insert_pool p (ProxyVault ?v) s1)"
    using px q nft_deltaD(5) [OF md(1)] by (simp add: covered_def proxy_ok_def excess_def)
  have b1: "books_ok env own (insert_pool p (ProxyVault ?v) s1)"
    by (rule books_update [OF b x _ _ d cov])
       (use px nft_onlyD(2,7) [OF me] in \<open>simp_all add: proxy_ok_def\<close>)
  have bk: "backed env own (v_basepool v) s1" using books_backed(1) [OF b1, of p "ProxyVault ?v"] by simp
  have st: "pool_step_le env own (v_basepool v) s1 (v_basepool v) s2"
    by (rule pool_step_imp_le [OF merge_step [OF L bk a g] bk])
  have "books_ok env own (insert_pool p (ProxyVault ?v) s2)"
    by (rule books_step [OF b1]) (use st in simp_all)
  then show ?thesis by (simp add: s' maybe_subscribe_to_pool_def Let_def books_cong [where s' = "insert_pool p x (y\<lparr>staker_accounts := z\<rparr>)" and s = "insert_pool p x y" for x y z])
qed

lemma process_subscribers:
  assumes laws: "pools_laws env own" and b: "books_ok env own (insert_pool p x s)"
    and t: "try_process_withdraw_queue env (proxy_basepool x) s = Some (Inr (bp, s'))"
  shows "value_subscribers bp = value_subscribers (proxy_basepool x)"
proof -
  have q: "queue_ok env own (proxy_basepool x) s"
    using books_backed(1) [OF b, of p x] by (simp add: backed_def)
  show ?thesis
    by (rule same_poolD(3) [OF pool_stepD(1) [OF try_process_step [OF pools_lawsD(3) [OF laws] q t, of "{}"]]]) simp
qed

lemma books_v_contribute:
  assumes laws: "pools_laws env own" and b: "books_ok env own s"
    and small: "unat amount < 2 ^ 80" and a: "orig \<noteq> Signed (pallet_id env)"
    and c: "v_contribute env orig p amount s = Some (Inr s')"
  shows "books_ok env own s'"
proof -
  from c obtain who s1 v sh bp s2 bp1 s3 r s5 where orig: "orig = Signed who"
    and g: "do_gain_owner_share env p s = Some (Inr s1)" and x: "pools s1 p = Some (ProxyVault v)"
    and bc: "base_contribute env (v_basepool v) who amount s1 = Some (Inr (sh, bp, s2))"
    and t: "try_process_withdraw_queue env bp s2 = Some (Inr (bp1, s3))"
    and m: "merge_nft_for_staker env (bp_cid bp1) who (bp_pid bp1) (insert_pool p (ProxyVault (v\<lparr>v_basepool := bp1\<rparr>)) s3)
       = Some (Inr (r, s5))"
    and s': "s' = v_deposit (VaultContribution p who amount sh) (maybe_subscribe_to_pool who p (bp_cid bp1) s5)"
    unfolding v_contribute_def Let_def by (auto simp: result_simps)
  have who: "who \<noteq> pallet_id env" using a orig by auto
  note b1 = books_gain [OF laws b g]
  have sub: "value_subscribers (v_basepool v) = []" using books_okD(2) [OF b1 x] by (simp add: proxy_ok_def)
  note st = contribute_effect(1) [OF pools_lawsD(1,2) [OF laws] _ small who bc]
  have sp: "value_subscribers bp = []"
    using same_poolD(3) [OF pool_stepD(1) [OF st]] books_backed(1) [OF b1 x] sub by simp
  have b2: "books_ok env own (insert_pool p (ProxyVault (v\<lparr>v_basepool := bp\<rparr>)) s2)"
    using books_contribute(1) [OF laws b1 x small who, of sh "ProxyVault (v\<lparr>v_basepool := bp\<rparr>)" s2] bc sub sp by simp
  have sp1: "value_subscribers bp1 = []"
    using process_subscribers [OF laws b2, of bp1 s3] t sp by simp
  have b3: "books_ok env own (insert_pool p (ProxyVault (v\<lparr>v_basepool := bp1\<rparr>)) s3)"
    using books_process(1) [OF laws b2, of "ProxyVault (v\<lparr>v_basepool := bp1\<rparr>)" s3] t sp sp1 by simp
  have "books_ok env own s5"
    using books_merge(1) [OF laws b3 _ who, of p "ProxyVault (v\<lparr>v_basepool := bp1\<rparr>)"] m by simp
  then show ?thesis by (simp add: s')
qed

lemma books_v_withdraw:
  assumes laws: "pools_laws env own" and b: "books_ok env own s" and a: "orig \<noteq> Signed (pallet_id env)"
    and c: "v_withdraw env orig p sh s = Some (Inr s')"
  shows "books_ok env own s'"
proof -
  from c obtain who s1 v bp s2 where orig: "orig = Signed who"
    and g: "do_gain_owner_share env p s = Some (Inr s1)" and x: "pools s1 p = Some (ProxyVault v)"
    and w: "withdraw_shares env (Vlt VNoNftToWithdraw) (Vlt VNoEnoughShareToClaim) (v_basepool v) who sh None s1
       = Some (Inr (bp, s2))"
    and s': "s' = insert_pool p (ProxyVault (v\<lparr>v_basepool := bp\<rparr>)) s2"
    unfolding v_withdraw_def by (auto simp: result_simps)
  have who: "who \<noteq> pallet_id env" using a orig by auto
  note b1 = books_gain [OF laws b g]
  note bk = books_backed(1) [OF b1 x]
  have "same_pool (v_basepool v) bp"
    using pool_step_leD(1) [OF withdraw_shares_step(1) [OF pools_lawsD(1) [OF laws] _ who w]] bk by simp
  from same_poolD(3) [OF this] show ?thesis
    using books_withdraw_shares(1) [OF laws b1 x who, of _ _ sh None "ProxyVault (v\<lparr>v_basepool := bp\<rparr>)" s2] w
    by (simp add: s')
qed

section \<open>Forced withdrawal\<close>

lemma releasing_request_same:
  "releasing_request env bp wd (k, s) = Some (Inr (k', s')) \<Longrightarrow> s' = s"
  unfolding releasing_request_def by (auto simp: result_simps guard_drop_insert)

lemma fold_same:
  assumes "fold_call f xs (k, s) = Some (Inr (k', s'))"
    and "\<And>x k k' s'. f x (k, s) = Some (Inr (k', s')) \<Longrightarrow> s' = s"
  shows "s' = s"
proof -
  have "snd (k', s') = s"
    by (rule fold_call_invariant [OF assms(1), where P = "\<lambda>x. snd x = s"]) (use assms(2) in auto)
  then show ?thesis by simp
qed

lemma releasing_in_pool_same: "releasing_in_pool env a p (k, s) = Some (Inr (k', s')) \<Longrightarrow> s' = s"
  unfolding releasing_in_pool_def Let_def by (auto simp: result_simps elim!: fold_same dest: releasing_request_same)

lemma invested_request_same: "invested_request env c wd (k, s) = Some (Inr (k', s')) \<Longrightarrow> s' = s"
  unfolding invested_request_def by (auto simp: result_simps dest: peek_nft_effect(1))

lemma shutdown_reason_same: "shutdown_reason_of env v s = Some (Inr (r, s')) \<Longrightarrow> s' = s"
  unfolding shutdown_reason_of_def Let_def
  by (auto simp: result_simps dest!: has_expired_same elim!: fold_same dest: releasing_in_pool_same split: if_split_asm)

lemma should_withdraw_cases:
  assumes "should_withdraw env c k r s = Some (Inr (b, k', s'))"
  obtains (read) "s' = s"
  | (burnt) n attr s1 s2 where "r = Some n" "get_nft_attr_guard env c n s = Some (Inr (attr, s1))"
      "burn_nft env (pallet_id env) c n s1 = Some (Inr s2)" "s' = guard_drop c n s2"  "\<not> b"
proof (cases r)
  case None
  with assms read show thesis by (simp add: should_withdraw_def result_simps)
next
  case (Some n)
  with assms obtain attr s1 where g: "get_nft_attr_guard env c n s = Some (Inr (attr, s1))"
    by (auto simp: should_withdraw_def result_simps)
  show thesis
  proof (cases "is_nondust_balance (attr_shares attr)")
    case True
    with assms Some g read show thesis by (simp add: should_withdraw_def result_simps Let_def guard_drop_insert)
  next
    case False
    with assms Some g read burnt show thesis
      by (cases "burn_nft env (pallet_id env) c n s1"; cases "the (burn_nft env (pallet_id env) c n s1)")
         (auto simp: should_withdraw_def result_simps guard_drop_insert)
  qed
qed

lemma books_burn_item:
  assumes laws: "pools_laws env own" and b: "books_ok env own s" and x: "pools s p = Some x"
    and n: "own (ledger s) (bp_cid (proxy_basepool x)) n = Some a" and a: "a \<noteq> pallet_id env"
    and g: "get_nft_attr_guard env (bp_cid (proxy_basepool x)) n s = Some (Inr (attr, s1))"
    and bu: "burn_nft env a' (bp_cid (proxy_basepool x)) n s1 = Some (Inr s2)"
  shows "books_ok env own (guard_drop (bp_cid (proxy_basepool x)) n s2)"
    and "pools (guard_drop (bp_cid (proxy_basepool x)) n s2) = pools s"
proof -
  let ?c = "bp_cid (proxy_basepool x)" and ?s' = "guard_drop (bp_cid (proxy_basepool x)) n s2"
  have s1: "ledger s1 = ledger s" "next_nft_id s1 = next_nft_id s" using get_nft_attr_guard_effect(1) [OF g] by simp_all
  have live: "own (ledger s1) ?c n \<noteq> None" using n s1 by simp
  note bd = burn_nft_delta(1) [OF pools_lawsD(3) [OF laws] live bu]
    and lo = burn_nft_effect(1) [OF pools_lawsD(3) [OF laws] bu]
  have s': "?s' = s\<lparr>ledger := ledger s2\<rparr>" by (rule guard_round [OF g lo])
  show ps: "pools ?s' = pools s" by (simp add: s')
  have nx: "next_nft_id s2 = next_nft_id s" using ledger_onlyD(1) [OF lo] s1 by simp
  have d: "nft_delta env own ?c (- {n}) (- int (shares_in env (ledger s) ?c n)) s ?s'"
    using bd by (simp add: nft_delta_def s' s1 fresh_items_def nx)
  have px: "proxy_ok env own p x s" by (rule books_okD(2) [OF b x])
  have q: "queue_ok env own (proxy_basepool x) ?s'"
    by (rule queue_ok_delta [OF _ d]) (use px n a in \<open>auto simp: proxy_ok_def covered_def queue_ok_def\<close>)
  have cov: "covered env own x ?s'"
    using px q nft_deltaD(5) [OF d] by (simp add: covered_def proxy_ok_def excess_def)
  show "books_ok env own ?s'"
    by (rule books_update [OF b x _ _ d cov]) (use px x in \<open>auto simp: proxy_ok_def s'\<close>)
qed

lemma books_force_withdraw:
  assumes laws: "pools_laws env own" and b: "books_ok env own s" and v: "pools s q = Some (ProxyVault v)"
    and f: "force_withdraw_from env q v p (l, s) = Some (Inr (l', s'))"
  shows "books_ok env own s' \<and> pools s' q = Some (ProxyVault v)"
proof -
  let ?a = "pool_account_id (v_basepool v)"
  from f obtain pool k r s2 w k' s3 where x: "pools s p = Some (ProxyStakePool pool)"
    and m: "merge_nft_for_staker env (bp_cid (sp_basepool pool)) ?a (bp_pid (sp_basepool pool)) s = Some (Inr (r, s2))"
    and sw: "should_withdraw env (bp_cid (sp_basepool pool)) k r s2 = Some (Inr (w, k', s3))"
    and rest: "s' = s3 \<or>
      sp_withdraw env (Signed (bp_owner (v_basepool v))) (bp_pid (sp_basepool pool)) k' (Some q) s3 = Some (Inr s')"
    by (auto simp: result_simps Let_def dest!: fold_same [OF _ invested_request_same] split: if_split_asm)
  let ?x = "ProxyStakePool pool"
  have a: "?a \<noteq> pallet_id env" using books_backed(2) [OF b v] by simp
  have m': "merge_nft_for_staker env (bp_cid (proxy_basepool ?x)) ?a (bp_pid (sp_basepool pool)) s = Some (Inr (r, s2))"
    using m by simp
  note bm = books_merge [OF laws b x a m'] and bk = books_backed(1) [OF b x]
  have own2: "own (ledger s2) (bp_cid (sp_basepool pool)) n = Some ?a" if "r = Some n" for n
    using merge_nft_effect(3) [OF pools_lawsD(1) [OF laws] books_okD(1) [OF b] _ m that] issued_bound [OF bk] by simp
  have x2: "pools s2 p = Some ?x" "pools s2 q = Some (ProxyVault v)" using x v bm(2) by simp_all
  from sw have b3: "books_ok env own s3 \<and> pools s3 q = Some (ProxyVault v)"
  proof (cases rule: should_withdraw_cases)
    case read
    with bm(1) x2 show ?thesis by simp
  next
    case (burnt n attr s4 s5)
    from books_burn_item [OF laws bm(1) x2(1) _ a, of n attr s4 "pallet_id env" s5] burnt own2 [OF burnt(1)] x2
    show ?thesis by simp
  qed
  from rest show ?thesis
    using b3 books_sp_withdraw [OF laws conjunct1 [OF b3], of "Some q"] by blast
qed

lemma books_v_check:
  assumes laws: "pools_laws env own" and b: "books_ok env own s"
    and c: "v_check_and_maybe_force_withdraw env orig p s = Some (Inr s')"
  shows "books_ok env own s'"
proof -
  from c obtain v bp s1 where x: "pools s p = Some (ProxyVault v)"
    and t: "try_process_withdraw_queue env (v_basepool v) s = Some (Inr (bp, s1))"
    unfolding v_check_and_maybe_force_withdraw_def by (auto simp: result_simps)
  let ?v = "v\<lparr>v_basepool := bp\<rparr>"
  define s3 where "s3 = insert_pool p (ProxyVault ?v) (if withdraw_queue bp = [] then s1\<lparr>vault_locks := vault_locks s1 - {p}\<rparr> else s1)"
  have same: "insert_pool p (ProxyVault v) s = s" using x by (rule insert_pool_same)
  have sub: "value_subscribers bp = value_subscribers (v_basepool v)"
    using process_subscribers [OF laws, of p "ProxyVault v" s bp s1] b t same by simp
  have "books_ok env own (insert_pool p (ProxyVault ?v) s1)"
    by (rule books_process(1) [OF laws, where x = "ProxyVault v"]) (use b t same sub in simp_all)
  then have b3: "books_ok env own s3" and x3: "pools s3 p = Some (ProxyVault ?v)" by (simp_all add: s3_def)
  show ?thesis
  proof (cases "p \<in> vault_locks s3")
    case True
    with c x t b3 show ?thesis
      unfolding v_check_and_maybe_force_withdraw_def Let_def by (auto simp: result_simps s3_def [symmetric])
  next
    case False
    with c x t obtain r s4 where sr: "shutdown_reason_of env ?v s3 = Some (Inr (r, s4))"
      and rest: "(case r of
          None \<Rightarrow> ok_call s4
        | Some reason \<Rightarrow>
            bind_call (fold_call (force_withdraw_from env p ?v) (invest_pools ?v) ([], s4)) (\<lambda>(pools_to_remove, s5).
            let s6 = (if pools_to_remove = [] then s5
                      else insert_pool p (ProxyVault (?v\<lparr>invest_pools :=
                             filter (\<lambda>x. x \<notin> set pools_to_remove) (invest_pools ?v)\<rparr>)) s5);
                s7 = s6\<lparr>vault_locks := insert p (vault_locks s6)\<rparr>
            in ok_call (v_deposit (ForceShutdown p reason) s7))) = Some (Inr s')"
      unfolding v_check_and_maybe_force_withdraw_def Let_def by (auto simp: result_simps s3_def [symmetric])
    have s4: "s4 = s3" by (rule shutdown_reason_same [OF sr])
    show ?thesis
    proof (cases r)
      case None
      with rest b3 s4 show ?thesis by (simp add: result_simps)
    next
      case (Some reason)
      from rest [unfolded Some s4 option.case bind_call_Inr_iff]
      obtain y where
        fc: "fold_call (force_withdraw_from env p ?v) (invest_pools ?v) ([], s3) = Some (Inr y)"
        and s': "(case y of (pools_to_remove, s5) \<Rightarrow>
            let s6 = (if pools_to_remove = [] then s5
                      else insert_pool p (ProxyVault (?v\<lparr>invest_pools :=
                             filter (\<lambda>x. x \<notin> set pools_to_remove) (invest_pools ?v)\<rparr>)) s5);
                s7 = s6\<lparr>vault_locks := insert p (vault_locks s6)\<rparr>
            in ok_call (v_deposit (ForceShutdown p reason) s7)) = (Some (Inr s') :: (_, _, _) pools_call)" by blast
      have y: "books_ok env own (snd y) \<and> pools (snd y) p = Some (ProxyVault ?v)"
      proof (rule fold_call_invariant [OF fc, where P = "\<lambda>y. books_ok env own (snd y) \<and> pools (snd y) p = Some (ProxyVault ?v)"])
        fix i z z' assume "books_ok env own (snd z) \<and> pools (snd z) p = Some (ProxyVault ?v)"
          "force_withdraw_from env p ?v i z = Some (Inr z')"
        with books_force_withdraw [OF laws, of "snd z" p ?v i "fst z" "fst z'" "snd z'"]
        show "books_ok env own (snd z') \<and> pools (snd z') p = Some (ProxyVault ?v)"
          by (simp del: force_withdraw_from.simps)
      qed (use b3 x3 in simp)
      then show ?thesis using s'
        by (cases y; cases "fst y = []") (auto simp: result_simps Let_def books_vault)
    qed
  qed
qed

end
