(* ===== verification/Pools_System.thy ===== *)
theory Pools_System
  imports Vault_Books
begin

text \<open>
  The pool pallets as one system: a call is any extrinsic or callback of the base pool, the
  wrapped balances, the stake pools and the vaults, run in a block with its own time and with
  any state of the computation pallet; between calls other pallets move assets.
\<close>

section \<open>Calls\<close>

datatype 'acc bp_op =
    OpAddStaker "'acc raw_origin" u64 'acc
  | OpSetDescription "'acc raw_origin" u64 bytes
  | OpRemoveStaker "'acc raw_origin" u64 'acc
  | OpClaimReimbursement "'acc raw_origin" u64 'acc
  | OpSetReimbursements "'acc raw_origin" "('acc \<times> u64 \<times> balance) list" bool

datatype 'acc wb_op =
    OpWrap "'acc raw_origin" balance
  | OpUnwrapAll "'acc raw_origin"
  | OpUnwrap "'acc raw_origin" balance
  | OpVote "'acc raw_origin" balance balance u32
  | OpUnlock "'acc raw_origin" u32 u32

datatype 'acc sp_op =
    OpCreatePool "'acc raw_origin"
  | OpAddWorker "'acc raw_origin" u64 worker_public_key
  | OpRemoveWorker "'acc raw_origin" u64 worker_public_key
  | OpSetCap "'acc raw_origin" u64 balance
  | OpSetPayoutPref "'acc raw_origin" u64 "u32 option"
  | OpClaimLegacy "'acc raw_origin" u64 'acc
  | OpClaimOwnerRewards "'acc raw_origin" u64 'acc
  | OpCheckPool "'acc raw_origin" u64
  | OpContribute "'acc raw_origin" u64 balance "u64 option"
  | OpWithdraw "'acc raw_origin" u64 balance "u64 option"
  | OpStart "'acc raw_origin" u64 worker_public_key balance
  | OpStop "'acc raw_origin" u64 worker_public_key
  | OpReclaim "'acc raw_origin" u64 worker_public_key
  | OpRestart "'acc raw_origin" u64 worker_public_key balance

datatype sp_callback =
    OpReward "settle_info list"
  | OpUnbound worker_public_key bool
  | OpStopped worker_public_key balance balance

datatype 'acc v_op =
    OpCreateVault "'acc raw_origin"
  | OpVaultPayoutPref "'acc raw_origin" u64 "u32 option"
  | OpClaimOwnerShares "'acc raw_origin" u64 'acc balance
  | OpGainOwnerShares "'acc raw_origin" u64
  | OpCheckVault "'acc raw_origin" u64
  | OpVaultContribute "'acc raw_origin" u64 balance
  | OpVaultWithdraw "'acc raw_origin" u64 balance

datatype 'acc pools_op =
    BasePoolCall "'acc bp_op"
  | WrappedBalancesCall "'acc wb_op"
  | StakePoolCall "'acc sp_op"
  | StakePoolHook sp_callback
  | VaultCall "'acc v_op"

fun run_bp_op ::
    "('acc::linorder, 'led, 'bank) pools_env \<Rightarrow> 'acc bp_op \<Rightarrow> ('acc, 'led, 'bank) pools_state \<Rightarrow>
     ('acc, 'led, 'bank) pools_call" where
  "run_bp_op env (OpAddStaker orig p a) s = Some (add_staker_to_whitelist orig p a s)"
| "run_bp_op env (OpSetDescription orig p d) s = Some (set_pool_description orig p d s)"
| "run_bp_op env (OpRemoveStaker orig p a) s = Some (remove_staker_from_whitelist orig p a s)"
| "run_bp_op env (OpClaimReimbursement orig p a) s =
     Some (bind_result (claim_reimbursement (pool_comp_env env) orig p a s (comp s)) (\<lambda>(s1, c). Inr (s1\<lparr>comp := c\<rparr>)))"
| "run_bp_op env (OpSetReimbursements orig xs add) s = Some (set_reimbursements env orig xs add s)"

fun run_wb_op ::
    "('acc::linorder, 'led, 'bank) pools_env \<Rightarrow> 'acc wb_op \<Rightarrow> ('acc, 'led, 'bank) pools_state \<Rightarrow>
     ('acc, 'led, 'bank) pools_call" where
  "run_wb_op env (OpWrap orig x) s = wrap env orig x s"
| "run_wb_op env (OpUnwrapAll orig) s = unwrap_all env orig s"
| "run_wb_op env (OpUnwrap orig x) s = unwrap env orig x s"
| "run_wb_op env (OpVote orig aye nay i) s = wb_vote env orig aye nay i s"
| "run_wb_op env (OpUnlock orig i n) s = wb_unlock env orig i n s"

fun run_sp_op ::
    "('acc::linorder, 'led, 'bank) pools_env \<Rightarrow> 'acc sp_op \<Rightarrow> ('acc, 'led, 'bank) pools_state \<Rightarrow>
     ('acc, 'led, 'bank) pools_call" where
  "run_sp_op env (OpCreatePool orig) s = sp_create env orig s"
| "run_sp_op env (OpAddWorker orig p w) s = add_worker env orig p w s"
| "run_sp_op env (OpRemoveWorker orig p w) s = sp_remove_worker env orig p w s"
| "run_sp_op env (OpSetCap orig p x) s = set_cap orig p x s"
| "run_sp_op env (OpSetPayoutPref orig p x) s = sp_set_payout_pref orig p x s"
| "run_sp_op env (OpClaimLegacy orig p a) s = claim_legacy_rewards env orig p a s"
| "run_sp_op env (OpClaimOwnerRewards orig p a) s = claim_owner_rewards env orig p a s"
| "run_sp_op env (OpCheckPool orig p) s = sp_check_and_maybe_force_withdraw env orig p s"
| "run_sp_op env (OpContribute orig p x v) s = sp_contribute env orig p x v s"
| "run_sp_op env (OpWithdraw orig p x v) s = sp_withdraw env orig p x v s"
| "run_sp_op env (OpStart orig p w x) s = pool_start_computing env orig p w x s"
| "run_sp_op env (OpStop orig p w) s = pool_stop_computing env orig p w s"
| "run_sp_op env (OpReclaim orig p w) s = reclaim_pool_worker env orig p w s"
| "run_sp_op env (OpRestart orig p w x) s = restart_computing env orig p w x s"

fun run_sp_callback ::
    "('acc::linorder, 'led, 'bank) pools_env \<Rightarrow> sp_callback \<Rightarrow> ('acc, 'led, 'bank) pools_state \<Rightarrow>
     ('acc, 'led, 'bank) pools_call" where
  "run_sp_callback env (OpReward xs) s = on_reward env xs s"
| "run_sp_callback env (OpUnbound w force) s = on_unbound w force s"
| "run_sp_callback env (OpStopped w x y) s = on_stopped w x y s"

fun run_v_op ::
    "('acc::linorder, 'led, 'bank) pools_env \<Rightarrow> 'acc v_op \<Rightarrow> ('acc, 'led, 'bank) pools_state \<Rightarrow>
     ('acc, 'led, 'bank) pools_call" where
  "run_v_op env (OpCreateVault orig) s = v_create env orig s"
| "run_v_op env (OpVaultPayoutPref orig p x) s = v_set_payout_pref env orig p x s"
| "run_v_op env (OpClaimOwnerShares orig p a x) s = claim_owner_shares env orig p a x s"
| "run_v_op env (OpGainOwnerShares orig p) s = maybe_gain_owner_shares env orig p s"
| "run_v_op env (OpCheckVault orig p) s = v_check_and_maybe_force_withdraw env orig p s"
| "run_v_op env (OpVaultContribute orig p x) s = v_contribute env orig p x s"
| "run_v_op env (OpVaultWithdraw orig p x) s = v_withdraw env orig p x s"

fun run_op ::
    "('acc::linorder, 'led, 'bank) pools_env \<Rightarrow> 'acc pools_op \<Rightarrow> ('acc, 'led, 'bank) pools_state \<Rightarrow>
     ('acc, 'led, 'bank) pools_call" where
  "run_op env (BasePoolCall c) s = run_bp_op env c s"
| "run_op env (WrappedBalancesCall c) s = run_wb_op env c s"
| "run_op env (StakePoolCall c) s = run_sp_op env c s"
| "run_op env (StakePoolHook c) s = run_sp_callback env c s"
| "run_op env (VaultCall c) s = run_v_op env c s"

text \<open>
  What the chain guarantees of a call. No key signs for the account of the pallet, which is
  derived from a string; the total supply is far below 2 to the 80; and the numbers of the
  collections, 32 bits wide, are not used up. That owner shares are not claimed for the account
  of the pallet is not checked by the code: \<open>claim_owner_shares\<close> with that target is excluded
  here and its effect shown apart.
\<close>

fun admissible ::
    "('acc, 'led, 'y) pool_env_scheme \<Rightarrow> 'acc pools_op \<Rightarrow> ('acc, 'led, 'z) base_pool_state_scheme \<Rightarrow> bool" where
  "admissible env (StakePoolCall (OpCreatePool orig)) s = (next_cid s \<noteq> - 1)"
| "admissible env (VaultCall (OpCreateVault orig)) s = (next_cid s \<noteq> - 1)"
| "admissible env (StakePoolCall (OpContribute orig p x v)) s = (orig \<noteq> Signed (pallet_id env) \<and> unat x < 2 ^ 80)"
| "admissible env (VaultCall (OpVaultContribute orig p x)) s = (orig \<noteq> Signed (pallet_id env) \<and> unat x < 2 ^ 80)"
| "admissible env (StakePoolCall (OpWithdraw orig p x v)) s = (orig \<noteq> Signed (pallet_id env))"
| "admissible env (VaultCall (OpVaultWithdraw orig p x)) s = (orig \<noteq> Signed (pallet_id env))"
| "admissible env (VaultCall (OpClaimOwnerShares orig p a x)) s = (a \<noteq> pallet_id env)"
| "admissible env _ s = True"

lemma books_bp_op:
  "books_ok env own s \<Longrightarrow> run_bp_op env op s = Some (Inr s') \<Longrightarrow> books_ok env own s'"
  by (cases op) (auto simp: result_simps dest: books_whitelist_add books_description books_whitelist_remove
      books_claim_reimbursement books_set_reimbursements)

lemma books_wb_op:
  "pools_laws env own \<Longrightarrow> books_ok env own s \<Longrightarrow> run_wb_op env op s = Some (Inr s') \<Longrightarrow> books_ok env own s'"
  by (cases op) (auto dest: books_wrap books_unwrap_all books_unwrap books_vote books_unlock)

lemma books_sp_op:
  "pools_laws env own \<Longrightarrow> books_ok env own s \<Longrightarrow> admissible env (StakePoolCall op) s \<Longrightarrow>
   run_sp_op env op s = Some (Inr s') \<Longrightarrow> books_ok env own s'"
  by (cases op) (auto dest: books_create books_add_worker books_remove_worker books_set_cap books_payout_pref
      books_claim_legacy books_claim_owner_rewards books_sp_check books_sp_contribute books_sp_withdraw(1)
      books_start books_stop books_reclaim books_restart)

lemma books_sp_callback:
  "pools_laws env own \<Longrightarrow> books_ok env own s \<Longrightarrow> run_sp_callback env op s = Some (Inr s') \<Longrightarrow> books_ok env own s'"
  by (cases op) (auto simp: on_unbound_def on_stopped_def result_simps
      dest: books_on_reward books_remove_worker_from_pool)

lemma books_v_op:
  "pools_laws env own \<Longrightarrow> books_ok env own s \<Longrightarrow> admissible env (VaultCall op) s \<Longrightarrow>
   run_v_op env op s = Some (Inr s') \<Longrightarrow> books_ok env own s'"
  by (cases op) (auto dest: books_v_create books_v_payout_pref books_claim books_maybe_gain books_v_check
      books_v_contribute books_v_withdraw)

lemma books_run_op:
  assumes "pools_laws env own" and "books_ok env own s" and "admissible env op s"
    and "run_op env op s = Some (Inr s')"
  shows "books_ok env own s'"
  using assms by (cases op) (auto dest: books_bp_op books_wb_op books_sp_op books_sp_callback books_v_op)

section \<open>Reachable states\<close>

inductive pools_reachable ::
    "('acc::linorder, 'led, 'bank) pools_env \<Rightarrow> ('acc, 'led) owner_map \<Rightarrow> ('acc, 'led, 'bank) pools_state \<Rightarrow> bool"
  for env own where
  genesis: "pools s = Map.empty \<Longrightarrow> (\<forall>c n. own (ledger s) c n = None) \<Longrightarrow> pools_reachable env own s"
| call: "pools_reachable env own s \<Longrightarrow> admissible env op s \<Longrightarrow>
    run_op (env\<lparr>pool_now_sec := now, pool_comp_env := ce\<rparr>) op s = Some (Inr s') \<Longrightarrow> pools_reachable env own s'"
| other: "pools_reachable env own s \<Longrightarrow> same_items env own (ledger s) l \<Longrightarrow>
    pools_reachable env own (s\<lparr>ledger := l, comp := c\<rparr>)"

lemma books_genesis:
  "pools s = Map.empty \<Longrightarrow> (\<forall>c n. own (ledger s) c n = None) \<Longrightarrow> books_ok env own s"
  by (simp add: books_ok_def fresh_items_def)

lemma block_env [simp]:
  "shares_in (env\<lparr>pool_now_sec := now, pool_comp_env := ce\<rparr>) = shares_in env"
  "pallet_id (env\<lparr>pool_now_sec := now, pool_comp_env := ce\<rparr>) = pallet_id env"
  "same_items (env\<lparr>pool_now_sec := now, pool_comp_env := ce\<rparr>) = same_items env"
  "generate_staker_account (env\<lparr>pool_now_sec := now, pool_comp_env := ce\<rparr>) = generate_staker_account env"
  by (simp_all add: fun_eq_iff shares_in_def pallet_id_def same_items_def generate_staker_account_def)

lemma books_block_env [simp]:
  "books_ok (env\<lparr>pool_now_sec := now, pool_comp_env := ce\<rparr>) own s = books_ok env own s"
  by (simp add: books_ok_def proxy_ok_def covered_def queue_ok_def excess_def issued_def)

lemma laws_block_env [simp]:
  "pools_laws (env\<lparr>pool_now_sec := now, pool_comp_env := ce\<rparr>) own = pools_laws env own"
  by (simp add: pools_laws_def ledger_laws_def item_laws_def)

lemma admissible_block_env [simp]:
  "admissible (env\<lparr>pool_now_sec := now, pool_comp_env := ce\<rparr>) op s = admissible env op s"
  by (cases "(env, op, s)" rule: admissible.cases) simp_all

lemma reachable_books:
  assumes laws: "pools_laws env own"
  shows "pools_reachable env own s \<Longrightarrow> books_ok env own s"
proof (induction rule: pools_reachable.induct)
  case (genesis s)
  then show ?case by (rule books_genesis)
next
  case (call s op ce now s')
  from books_run_op [of "env\<lparr>pool_now_sec := now, pool_comp_env := ce\<rparr>" own s op s'] call laws
  show ?case by simp
next
  case (other s l c)
  then have "books_ok env own (s\<lparr>ledger := l\<rparr>)" by (intro books_ledger)
  then show ?case by simp
qed

end
