(* ===== verification/Registry_Safety.thy ===== *)
theory Registry_Safety
  imports Registry
begin

text \<open>
  Safety of the registry pallet: an invariant of every reachable registry, and what it means
  for the gatekeepers, the master key and the registered workers.
\<close>

section \<open>Invariant\<close>

text \<open>Workers are stored under their own key.\<close>

definition keyed :: "'acc registry \<Rightarrow> bool" where
  "keyed s \<longleftrightarrow> (\<forall>pk w. workers s pk = Some w \<longrightarrow> pubkey w = pk)"

definition reg_inv :: "'acc registry \<Rightarrow> bool" where
  "reg_inv s \<longleftrightarrow>
     distinct (gatekeepers s) \<and> set (gatekeepers s) \<subseteq> dom (workers s) \<and> keyed s \<and>
     (\<forall>rid. master_key_rotation_lock s = Some rid \<longrightarrow> rid = rotation_counter s)"

lemma genesis_worker_core [simp]:
  "gatekeepers (genesis_worker d w s) = gatekeepers s"
  "master_key_rotation_lock (genesis_worker d w s) = master_key_rotation_lock s"
  "keyed s \<Longrightarrow> keyed (genesis_worker d w s)"
  by (simp_all add: genesis_worker_def keyed_def Let_def split: prod.splits)

lemma genesis_workers_core [simp]:
  "gatekeepers (fold (genesis_worker d) ws s) = gatekeepers s"
  "master_key_rotation_lock (fold (genesis_worker d) ws s) = master_key_rotation_lock s"
  "keyed s \<Longrightarrow> keyed (fold (genesis_worker d) ws s)"
  by (induction ws arbitrary: s) simp_all

lemma genesis_gatekeepers_inv:
  "distinct gks \<Longrightarrow> set gks \<inter> set (gatekeepers s) = {} \<Longrightarrow> reg_inv s \<Longrightarrow> reg_inv (fold genesis_gatekeeper gks s)"
proof (induction gks arbitrary: s)
  case Nil
  then show ?case by simp
next
  case (Cons gk gks)
  have sub: "set (gatekeepers (genesis_gatekeeper gk s)) \<subseteq> insert gk (set (gatekeepers s))"
    by (auto simp: genesis_gatekeeper_def Let_def split: option.splits)
  have inv: "reg_inv (genesis_gatekeeper gk s)"
    using Cons.prems by (auto simp: genesis_gatekeeper_def reg_inv_def keyed_def Let_def split: option.splits)
  show ?case using Cons.IH [OF _ _ inv] Cons.prems sub by auto
qed

lemma reg_genesis_inv:
  fixes ws :: "(worker_public_key \<times> ecdh_public_key \<times> 'acc option) list"
  assumes "distinct gks"
  shows "reg_inv (genesis_build ws gks d registry_empty)"
proof -
  have e: "gatekeepers (registry_empty :: 'acc registry) = []"
    "master_key_rotation_lock (registry_empty :: 'acc registry) = None" "keyed (registry_empty :: 'acc registry)"
    by (simp_all add: registry_empty_def keyed_def)
  then have "reg_inv (fold (genesis_worker d) ws registry_empty)"
    by (simp add: reg_inv_def)
  with assms show ?thesis
    unfolding genesis_build_def
    by (intro genesis_gatekeepers_inv) (simp_all add: registry_empty_def)
qed

text \<open>
  The part of the state the invariant is about. Most operations leave it alone; each of the
  others is looked at once.
\<close>

definition same_core :: "'acc registry \<Rightarrow> 'acc registry \<Rightarrow> bool" where
  "same_core s t \<longleftrightarrow> gatekeepers t = gatekeepers s \<and> workers t = workers s \<and>
     master_key_rotation_lock t = master_key_rotation_lock s \<and> rotation_counter t = rotation_counter s \<and>
     gatekeeper_master_pubkey t = gatekeeper_master_pubkey s"

lemma same_core_refl [simp]: "same_core s s"
  by (simp add: same_core_def)

lemma reg_inv_same_core: "same_core s t \<Longrightarrow> reg_inv s \<Longrightarrow> reg_inv t"
  by (simp add: same_core_def reg_inv_def keyed_def)

lemma same_core_ops:
  "force_set_benchmark_duration env orig v s = Inr t \<Longrightarrow> same_core s t"
  "force_register_topic_pubkey orig tpc pk s = Inr t \<Longrightarrow> same_core s t"
  "update_worker_endpoint env enc orig ep sg s = Inr t \<Longrightarrow> same_core s t"
  "add_pruntime env orig h s = Inr t \<Longrightarrow> same_core s t"
  "remove_pruntime env orig h s = Inr t \<Longrightarrow> same_core s t"
  "add_relaychain_genesis_block_hash env orig h s = Inr t \<Longrightarrow> same_core s t"
  "remove_relaychain_genesis_block_hash env orig h s = Inr t \<Longrightarrow> same_core s t"
  "set_minimum_pruntime_version env orig ma mi pa s = Inr t \<Longrightarrow> same_core s t"
  "set_pruntime_consensus_version env orig ver s = Inr t \<Longrightarrow> same_core s t"
  "set_trusted_ntp_servers env orig srv s = Inr t \<Longrightarrow> same_core s t"
  by (auto simp: registry_ops result_simps Let_def same_core_def)

text \<open>Adding or refreshing a worker keeps everything but that worker.\<close>

definition adds_worker :: "worker_public_key \<Rightarrow> 'acc registry \<Rightarrow> 'acc registry \<Rightarrow> bool" where
  "adds_worker pk s t \<longleftrightarrow> gatekeepers t = gatekeepers s \<and>
     (\<forall>k. k \<noteq> pk \<longrightarrow> workers t k = workers s k) \<and> workers t pk \<noteq> None \<and>
     (keyed s \<longrightarrow> keyed t) \<and>
     master_key_rotation_lock t = master_key_rotation_lock s \<and> rotation_counter t = rotation_counter s \<and>
     gatekeeper_master_pubkey t = gatekeeper_master_pubkey s"

lemma reg_inv_adds_worker: "adds_worker pk s t \<Longrightarrow> reg_inv s \<Longrightarrow> reg_inv t"
  unfolding adds_worker_def reg_inv_def by (simp add: subset_iff domIff) metis

lemma update_registry_adds: "adds_worker (ri_pubkey info) s (update_registry env info level prov s)"
proof (cases "workers s (ri_pubkey info)")
  case None
  then show ?thesis by (simp add: update_registry_def adds_worker_def keyed_def Let_def)
next
  case (Some w)
  then show ?thesis by (simp add: update_registry_def adds_worker_def keyed_def Let_def)
qed

lemma adds_worker_ops:
  "force_register_worker env orig pk ecdh oper s = Inr t \<Longrightarrow> adds_worker pk s t"
  "register_worker env orig info att s = Inr t \<Longrightarrow> adds_worker (ri_pubkey info) s t"
  by (auto simp: force_register_worker_def register_worker_def result_simps Let_def update_registry_adds)
    (simp add: adds_worker_def keyed_def)

lemma register_worker_v2_Inr:
  "register_worker_v2 env orig info att s = Inr t \<longleftrightarrow>
   (\<exists>who report. orig = Signed who \<and>
      validate (attest env) att (hash_registration_v2 env info) (now_secs env)
        (verify_pruntime env) (pruntime_allowlist s) (none_attestation_enabled env) = Inr report \<and>
      ri_para_id info = parachain_id env \<and> check_genesis env info s = Inr () \<and>
      t = update_registry env info (cr_confidence_level report) (cr_provider report)
        (s\<lparr>max_known_consensus_version :=
             bump_known_version (ri_max_consensus_version info) (max_known_consensus_version s)\<rparr>))"
  unfolding register_worker_v2_def Let_def
  by (simp add: result_simps eq_commute [of t] split: sum.splits)

lemma update_registry_adds_version:
  "adds_worker (ri_pubkey info) s (update_registry env info level prov (s\<lparr>max_known_consensus_version := v\<rparr>))"
proof -
  let ?s = "s\<lparr>max_known_consensus_version := v\<rparr>"
  have "gatekeepers ?s = gatekeepers s" "workers ?s = workers s" "rotation_counter ?s = rotation_counter s"
    "master_key_rotation_lock ?s = master_key_rotation_lock s"
    "gatekeeper_master_pubkey ?s = gatekeeper_master_pubkey s" "keyed ?s = keyed s"
    by (simp_all add: keyed_def)
  then show ?thesis
    using update_registry_adds [of info ?s env level prov] unfolding adds_worker_def by metis
qed

lemma register_worker_v2_adds:
  "register_worker_v2 env orig info att s = Inr t \<Longrightarrow> adds_worker (ri_pubkey info) s t"
  unfolding register_worker_v2_Inr by (elim exE conjE) (simp only: update_registry_adds_version)

lemma register_gatekeeper_core:
  assumes "register_gatekeeper env orig gk s = Inr t"
  shows "master_key_rotation_lock s = None \<and>
    (gatekeepers t = gatekeepers s \<or>
     gk \<notin> set (gatekeepers s) \<and> gk \<in> dom (workers s) \<and> gatekeepers t = gatekeepers s @ [gk]) \<and>
    workers t = workers s \<and> master_key_rotation_lock t = master_key_rotation_lock s \<and>
    rotation_counter t = rotation_counter s \<and> gatekeeper_master_pubkey t = gatekeeper_master_pubkey s"
proof (cases "gk \<in> set (gatekeepers s)")
  case True
  with assms have "t = deposit_event (GatekeeperAdded gk) s" "master_key_rotation_lock s = None"
    by (simp_all add: register_gatekeeper_def result_simps)
  then show ?thesis by simp
next
  case False
  with assms obtain info m where "workers s gk = Some info" "master_key_rotation_lock s = None"
    "t = deposit_event (GatekeeperAdded gk) (push_message m (s\<lparr>gatekeepers := gatekeepers s @ [gk]\<rparr>))"
    by (simp only: register_gatekeeper_def result_simps Let_def if_True simp_thms sum.inject) blast
  with False show ?thesis by auto
qed

lemma unregister_gatekeeper_core:
  "unregister_gatekeeper env orig gk s = Inr t \<Longrightarrow>
   master_key_rotation_lock s = None \<and> gk \<in> set (gatekeepers s) \<and> length (gatekeepers s) > 1 \<and>
   gatekeepers t = filter (\<lambda>g. g \<noteq> gk) (gatekeepers s) \<and> workers t = workers s \<and>
   master_key_rotation_lock t = master_key_rotation_lock s \<and> rotation_counter t = rotation_counter s \<and>
   gatekeeper_master_pubkey t = gatekeeper_master_pubkey s"
  unfolding unregister_gatekeeper_def Let_def
  by (simp add: result_simps) (elim conjE, hypsubst, simp)

lemma rotate_master_key_core:
  "rotate_master_key env orig s = Inr t \<Longrightarrow>
   master_key_rotation_lock s = None \<and> rotation_counter t = rotation_counter s + 1 \<and>
   master_key_rotation_lock t = Some (rotation_counter t) \<and> gatekeepers t = gatekeepers s \<and>
   workers t = workers s \<and> gatekeeper_master_pubkey t = gatekeeper_master_pubkey s"
  unfolding rotate_master_key_def Let_def
  by (simp add: result_simps) (elim exE conjE, hypsubst, simp)

lemma on_gk_message_received_core:
  "on_gk_message_received m s = (t, res) \<Longrightarrow>
   gatekeepers t = gatekeepers s \<and> workers t = workers s \<and> rotation_counter t = rotation_counter s \<and>
   (same_core s t \<or>
    (\<exists>rid master. dm_sender m = Gatekeeper \<and> dm_payload m = RotatedMasterPubkey rid master \<and>
       master_key_rotation_lock s = Some rid \<and> master_key_rotation_lock t = None \<and>
       gatekeeper_master_pubkey t = Some master))"
  by (cases "dm_sender m"; cases "dm_payload m")
    (auto simp: on_gk_message_received_def same_core_def Let_def split: if_splits)

lemma on_message_received_cases:
  assumes "on_message_received env m s = Some (t, res)"
  obtains (same) "same_core s t"
    | (score) pk where "dm_sender m = Worker pk" "workers s pk \<noteq> None" "adds_worker pk s t"
    | (key) pk master where "dm_sender m = Worker pk" "pk \<in> set (gatekeepers s)"
        "gatekeeper_master_pubkey s = None" "gatekeeper_master_pubkey t = Some master"
        "gatekeepers t = gatekeepers s" "workers t = workers s" "rotation_counter t = rotation_counter s"
        "master_key_rotation_lock t = master_key_rotation_lock s"
proof (cases "dm_sender m")
  case (Worker pk)
  show thesis
  proof (cases "dm_payload m")
    case (BenchReport st it)
    show thesis
    proof (cases "workers s pk")
      case None
      with Worker BenchReport assms have "same_core s t"
        by (auto simp: on_message_received_def set_score_def same_core_def Let_def split: if_splits option.splits)
      then show thesis by (rule same)
    next
      case (Some w)
      with Worker BenchReport assms have "same_core s t \<or> adds_worker pk s t"
        by (auto simp: on_message_received_def set_score_def same_core_def adds_worker_def keyed_def Let_def
            split: if_splits option.splits)
      with Worker Some same score show thesis by blast
    qed
  next
    case (MasterPubkey master)
    show thesis
    proof (cases "pk \<in> set (gatekeepers s) \<and> gatekeeper_master_pubkey s = None")
      case True
      with Worker MasterPubkey assms key [of pk master] show thesis
        by (auto simp: on_message_received_def on_gatekeeper_launched_def Let_def)
    next
      case False
      with Worker MasterPubkey assms have "t = s"
        by (auto simp: on_message_received_def Let_def split: if_splits option.splits)
      then show thesis using same by (simp add: same_core_def)
    qed
  qed
qed (use assms same in \<open>simp_all add: on_message_received_def\<close>)

lemma reg_step_inv: "reg_step s t \<Longrightarrow> reg_inv s \<Longrightarrow> reg_inv t"
proof (induction rule: reg_step.induct)
  case (4 env orig gk s t)
  from register_gatekeeper_core [OF "4"(1)] "4"(2) show ?case by (auto simp: reg_inv_def keyed_def)
next
  case (5 env orig gk s t)
  from unregister_gatekeeper_core [OF "5"(1)] "5"(2) show ?case by (auto simp: reg_inv_def keyed_def)
next
  case (6 env orig s t)
  from rotate_master_key_core [OF "6"(1)] "6"(2) show ?case by (auto simp: reg_inv_def keyed_def)
next
  case (8 env orig info2 att2 s t)
  then show ?case by (blast intro: reg_inv_adds_worker register_worker_v2_adds)
next
  case (17 env m s t res)
  from "17"(1) show ?case
  proof (cases rule: on_message_received_cases)
    case same
    then show ?thesis using "17"(2) by (rule reg_inv_same_core)
  next
    case (score pk)
    then show ?thesis using "17"(2) by (blast intro: reg_inv_adds_worker)
  next
    case (key pk master)
    then show ?thesis using "17"(2) by (simp add: reg_inv_def keyed_def)
  qed
next
  case (18 gm s t res)
  from on_gk_message_received_core [OF "18"(1)] "18"(2) show ?case
    by (auto simp: reg_inv_def keyed_def same_core_def)
qed (blast intro: reg_inv_same_core reg_inv_adds_worker same_core_ops adds_worker_ops)+

lemma reg_reachable_inv: "reg_reachable s \<Longrightarrow> reg_inv s"
  by (induction rule: reg_reachable.induct) (blast intro: reg_genesis_inv reg_step_inv)+

section \<open>Gatekeepers and the master key\<close>

lemma gk_identities_ok:
  "set gks \<subseteq> dom (workers s) \<Longrightarrow> keyed s \<Longrightarrow>
   \<exists>ids. gk_identities s gks = Inr ids \<and> map id_pubkey ids = gks"
proof (induction gks)
  case Nil
  then show ?case by simp
next
  case (Cons gk gks)
  then obtain info ids where "workers s gk = Some info" "gk_identities s gks = Inr ids" "map id_pubkey ids = gks"
    by auto
  with Cons.prems(2) show ?case by (simp add: keyed_def)
qed


definition example_registry :: "nat registry" where
  "example_registry = genesis_build [([1], [2], None)] [[1]] 8 registry_empty"

definition example_registry_env :: "nat registry_env" where
  "example_registry_env =
     \<lparr>governance = (\<lambda>orig. orig = Root), now_millis = 100500, block_number = 7, verify_pruntime = True,
      verify_genesis = False, none_attestation_enabled = False, parachain_id = 1,
      attest = example_attest_env, hash_registration = (\<lambda>_. replicate 32 7),
      hash_registration_v2 = (\<lambda>_. replicate 32 7), legacy_validate = (\<lambda>_ _ _ _ _. Inr 1),
      signature_try_from = Some, sr25519_verify = (\<lambda>_ _ _. True)\<rparr>"

lemma example_registry_reachable: "reg_reachable example_registry"
  unfolding example_registry_def by (rule reg_genesis) simp

lemma example_registry_fields [simp]:
  "gatekeepers example_registry = [[1]]" "master_key_rotation_lock example_registry = None"
  "gatekeeper_master_pubkey example_registry = None" "rotation_counter example_registry = 0"
  "pruntime_allowlist example_registry = []"
  by (simp_all add: example_registry_def genesis_build_def genesis_worker_def genesis_gatekeeper_def
      registry_empty_def Let_def push_message_def)


text \<open>
  C4: once the gatekeepers' master key is on the chain, a step changes it only by handling a
  message of the gatekeeper origin that reports the rotated key under the id of the pending
  rotation, which is the latest one requested; that step also releases the lock, so each
  rotation id changes the key at most once.
\<close>

theorem master_key_changes_only_by_rotation:
  assumes "reg_reachable s" and "reg_step s t"
    and "gatekeeper_master_pubkey s = Some k" and "gatekeeper_master_pubkey t \<noteq> Some k"
  shows "\<exists>m res k'. on_gk_message_received m s = (t, res) \<and> dm_sender m = Gatekeeper \<and>
    dm_payload m = RotatedMasterPubkey (rotation_counter s) k' \<and>
    gatekeeper_master_pubkey t = Some k' \<and>
    master_key_rotation_lock s = Some (rotation_counter s) \<and> master_key_rotation_lock t = None"
proof -
  have lock: "master_key_rotation_lock s = Some rid \<Longrightarrow> rid = rotation_counter s" for rid
    using reg_reachable_inv [OF assms(1)] by (simp add: reg_inv_def)
  have other: False if "gatekeeper_master_pubkey t = gatekeeper_master_pubkey s"
    using that assms(3,4) by simp
  from assms(2) show ?thesis
  proof cases
    case (18 gm res)
    from on_gk_message_received_core [OF this] lock other show ?thesis
      by (auto simp: same_core_def intro!: exI [of _ gm] 18)
  next
    case (17 env m res)
    then show ?thesis
      by (cases rule: on_message_received_cases) (use assms(3) other in \<open>auto simp: same_core_def adds_worker_def\<close>)
  qed (use other in \<open>auto dest!: same_core_ops adds_worker_ops register_worker_v2_adds register_gatekeeper_core
      unregister_gatekeeper_core rotate_master_key_core simp: same_core_def adds_worker_def\<close>)
qed

definition example_launched :: "nat registry" where
  "example_launched = fst (the (on_message_received example_registry_env
     \<lparr>dm_sender = Worker [1], dm_destination = Topic [], dm_payload = MasterPubkey [9]\<rparr> example_registry))"

definition example_rotating :: "nat registry" where
  "example_rotating = projr (rotate_master_key example_registry_env Root example_launched)"

definition example_rotated :: "gatekeeper_registry_event decoded_message" where
  "example_rotated = \<lparr>dm_sender = Gatekeeper, dm_destination = Topic [], dm_payload = RotatedMasterPubkey 1 [8]\<rparr>"

lemma example_launched_step:
  "on_message_received example_registry_env
     \<lparr>dm_sender = Worker [1], dm_destination = Topic [], dm_payload = MasterPubkey [9]\<rparr> example_registry =
   Some (example_launched, Inr ())"
  by (simp add: example_launched_def on_message_received_def Let_def)

lemma example_launched_fields [simp]:
  "gatekeepers example_launched = [[1]]" "master_key_rotation_lock example_launched = None"
  "gatekeeper_master_pubkey example_launched = Some [9]" "rotation_counter example_launched = 0"
  by (simp_all add: example_launched_def on_message_received_def Let_def on_gatekeeper_launched_def)

lemma example_launched_reachable: "reg_reachable example_launched"
  by (rule reg_next [OF example_registry_reachable]) (rule reg_step.intros(17), rule example_launched_step)

lemma example_rotating_step:
  "rotate_master_key example_registry_env Root example_launched = Inr example_rotating"
proof -
  have "set (gatekeepers example_launched) \<subseteq> dom (workers example_launched)" "keyed example_launched"
    using reg_reachable_inv [OF example_launched_reachable] by (simp_all add: reg_inv_def)
  then obtain ids where "gk_identities example_launched [[1]] = Inr ids"
    using gk_identities_ok [of "[[1]]" example_launched] by auto
  then show ?thesis
    by (simp add: example_rotating_def rotate_master_key_def ensure_governance_def example_registry_env_def Let_def
        del: gk_identities.simps)
qed

lemma example_rotating_fields:
  "master_key_rotation_lock example_rotating = Some 1" "gatekeeper_master_pubkey example_rotating = Some [9]"
  "rotation_counter example_rotating = 1"
  using rotate_master_key_core [OF example_rotating_step] by simp_all

theorem master_key_changes_only_by_rotation_witness:
  "\<exists>m res k'. on_gk_message_received m example_rotating =
       (fst (on_gk_message_received example_rotated example_rotating), res) \<and>
     dm_sender m = Gatekeeper \<and> dm_payload m = RotatedMasterPubkey 1 k'"
proof -
  let ?t = "fst (on_gk_message_received example_rotated example_rotating)"
  have r: "reg_reachable example_rotating"
    by (rule reg_next [OF example_launched_reachable]) (rule reg_step.intros(6), rule example_rotating_step)
  have s: "reg_step example_rotating ?t"
    by (rule reg_step.intros(18) [of example_rotated _ _ "snd (on_gk_message_received example_rotated example_rotating)"]) simp
  have k: "gatekeeper_master_pubkey ?t = Some [8]"
    by (simp add: on_gk_message_received_def example_rotated_def example_rotating_fields Let_def)
  from k have "gatekeeper_master_pubkey ?t \<noteq> Some [9]" by simp
  from master_key_changes_only_by_rotation [OF r s example_rotating_fields(2) this]
  show ?thesis unfolding example_rotating_fields(3) by metis
qed

lemma length_filter_neq: "distinct xs \<Longrightarrow> x \<in> set xs \<Longrightarrow> length (filter (\<lambda>y. y \<noteq> x) xs) = length xs - 1"
proof (induction xs)
  case (Cons y ys)
  have id: "y \<notin> set ys \<Longrightarrow> filter (\<lambda>z. z \<noteq> y) ys = ys"
    by (simp add: filter_id_conv) blast
  from Cons.prems have "x \<noteq> y \<Longrightarrow> ys \<noteq> []" by auto
  with Cons id show ?case by (cases "x = y") auto
qed simp

text \<open>
  C6: the set of gatekeepers never becomes empty again: after the first gatekeeper is
  registered every step of the registry keeps at least one, whatever the governance does,
  and every gatekeeper stays a registered worker.
\<close>

theorem gatekeepers_never_empty:
  assumes "reg_reachable s" and "gatekeepers s \<noteq> []" and "reg_step s t"
  shows "gatekeepers t \<noteq> [] \<and> set (gatekeepers t) \<subseteq> dom (workers t)"
proof
  have inv: "reg_inv s" by (rule reg_reachable_inv [OF assms(1)])
  show "set (gatekeepers t) \<subseteq> dom (workers t)"
    using reg_step_inv [OF assms(3) inv] by (simp add: reg_inv_def)
  from assms(3) show "gatekeepers t \<noteq> []"
  proof cases
    case (5 env orig gk)
    from length_filter_neq [of "gatekeepers s" gk] inv unregister_gatekeeper_core [OF 5]
    show ?thesis by (auto simp: reg_inv_def)
  next
    case (17 env m res)
    then show ?thesis
      by (cases rule: on_message_received_cases) (use assms(2) in \<open>auto simp: same_core_def adds_worker_def\<close>)
  qed (use assms(2) in \<open>auto dest!: same_core_ops adds_worker_ops register_worker_v2_adds register_gatekeeper_core
      rotate_master_key_core on_gk_message_received_core simp: same_core_def adds_worker_def\<close>)
qed

theorem gatekeepers_never_empty_witness:
  "gatekeepers example_launched \<noteq> [] \<and> set (gatekeepers example_launched) \<subseteq> dom (workers example_launched)"
  by (rule gatekeepers_never_empty [OF example_registry_reachable _ reg_step.intros(17) [OF example_launched_step]])
    simp

section \<open>Registered workers\<close>


lemma update_registry_pushed:
  "pushed (update_registry env info level prov s) = pushed s @
     [SystemEventMsg (new_worker_event (ri_pubkey info) (Registered \<lparr>wim_confidence_level = level\<rparr>)),
      SystemEventMsg (new_worker_event (ri_pubkey info)
        (BenchStart (case benchmark_duration s of None \<Rightarrow> 0 | Some d \<Rightarrow> d)))]"
  by (simp add: update_registry_def Let_def split: option.splits)






lemma bench_score_None: "bench_score now start it = None \<longleftrightarrow> now - start < 1000"
proof -
  have "(now - start) div 1000 = 0 \<longleftrightarrow> now - start < 1000"
    by (simp add: word_less_nat_alt unat_div word_unat_eq_iff div_eq_0_iff)
  then show ?thesis by (simp add: bench_score_def Let_def)
qed

lemma bench_score_bound:
  assumes "bench_score now start it = Some score"
  shows "score \<le> 6000"
proof -
  from assms have "score = min 6000 (ucast (it div ((now - start) div 1000) * 6))"
    unfolding bench_score_def Let_def
    by (cases "(now - start) div 1000 = 0") (simp_all only: if_True if_False option.inject option.distinct simp_thms)
  also have "\<dots> \<le> 6000" by (rule min.cobounded1)
  finally show ?thesis .
qed

text \<open>
  C7: the handler of the registry topic panics exactly when a worker's benchmark report
  reaches the chain after its start time but less than a second after it: the elapsed whole
  seconds that divide the iterations are then zero. Every other message returns, and the
  score a report gives a registered worker is at most 6000.
\<close>

theorem on_message_received_bench:
  "(on_message_received env m s = None \<longleftrightarrow>
      (\<exists>pk start it. dm_sender m = Worker pk \<and> dm_payload m = BenchReport start it \<and>
         start < now_millis env \<and> now_millis env - start < 1000)) \<and>
   (\<forall>t pk start it w. on_message_received env m s = Some (t, Inr ()) \<and> dm_sender m = Worker pk \<and>
      dm_payload m = BenchReport start it \<and> workers s pk = Some w \<longrightarrow>
      (\<exists>score \<le> 6000. workers t pk =
         Some (w\<lparr>initial_score := Some score, last_updated := now_millis env div 1000\<rparr>)))"
proof
  show "on_message_received env m s = None \<longleftrightarrow>
      (\<exists>pk start it. dm_sender m = Worker pk \<and> dm_payload m = BenchReport start it \<and>
         start < now_millis env \<and> now_millis env - start < 1000)"
  proof (cases "dm_sender m")
    case (Worker pk)
    show ?thesis
    proof (cases "dm_payload m")
      case (BenchReport start it)
      with Worker show ?thesis
        by (simp add: on_message_received_def Let_def flip: bench_score_None [of _ _ it] split: option.split)
          (use linorder_not_less in blast)
    next
      case (MasterPubkey k)
      with Worker show ?thesis by (simp add: on_message_received_def Let_def split: option.split)
    qed
  qed (simp_all add: on_message_received_def)
  show "\<forall>t pk start it w. on_message_received env m s = Some (t, Inr ()) \<and> dm_sender m = Worker pk \<and>
      dm_payload m = BenchReport start it \<and> workers s pk = Some w \<longrightarrow>
      (\<exists>score \<le> 6000. workers t pk =
         Some (w\<lparr>initial_score := Some score, last_updated := now_millis env div 1000\<rparr>))"
  proof (intro allI impI, elim conjE)
    fix t pk start it w
    assume "on_message_received env m s = Some (t, Inr ())" and m: "dm_sender m = Worker pk"
      "dm_payload m = BenchReport start it" "workers s pk = Some w"
    then obtain score where "bench_score (now_millis env) start it = Some score"
      "t = deposit_event (InitialScoreSet pk score) (push_message
         (SystemEventMsg (new_worker_event pk (BenchScore score))) (set_score pk score (now_millis env) s))"
      by (simp add: on_message_received_def Let_def split: if_splits option.splits)
    with m(3) show "\<exists>score \<le> 6000. workers t pk =
         Some (w\<lparr>initial_score := Some score, last_updated := now_millis env div 1000\<rparr>)"
      by (auto simp: set_score_def intro!: exI [of _ score] bench_score_bound)
  qed
qed

theorem on_message_received_bench_witness:
  "on_message_received example_registry_env
     \<lparr>dm_sender = Worker [1], dm_destination = Topic [], dm_payload = BenchReport 100000 7\<rparr> example_registry = None"
  using on_message_received_bench [of example_registry_env
      "\<lparr>dm_sender = Worker [1], dm_destination = Topic [], dm_payload = BenchReport 100000 7\<rparr>" example_registry]
  by (simp add: example_registry_env_def)

end
