(* ===== verification/Computation_Safety.thy ===== *)
theory Computation_Safety
  imports Computation Registry_Safety
begin

text \<open>
  Safety of the computation pallet: the invariant that ties sessions, bindings, stakes and
  the count of online workers together, for every interleaving of the pallet's operations
  with those of the registry. The remarks \<open>qed\<close> in the code (a bound session has its
  information, a bound worker is registered) are consequences.
\<close>

section \<open>Invariant\<close>

definition computing_sessions :: "('acc, 'bank) computation \<Rightarrow> 'acc set" where
  "computing_sessions s = {a. \<exists>i. sessions s a = Some i \<and> is_computing (ss_state i)}"

definition comp_inv :: "'acc registry \<Rightarrow> ('acc, 'bank) computation \<Rightarrow> bool" where
  "comp_inv r s \<longleftrightarrow>
     finite (dom (sessions s)) \<and>
     (\<forall>a w. session_bindings s a = Some w \<longleftrightarrow> worker_bindings s w = Some a) \<and>
     (\<forall>a w. session_bindings s a = Some w \<longrightarrow> sessions s a \<noteq> None \<and> w \<in> dom (workers r)) \<and>
     (\<forall>a. stakes s a \<noteq> None \<longleftrightarrow> (\<exists>i. sessions s a = Some i \<and> ss_state i \<noteq> Ready)) \<and>
     (\<forall>a i. sessions s a = Some i \<longrightarrow> ss_state i \<noteq> Unused) \<and>
     computing_sessions s \<subseteq> dom (session_bindings s) \<and>
     online_workers s = of_nat (card (computing_sessions s))"

lemma comp_invD:
  assumes "comp_inv r s"
  shows "finite (dom (sessions s))"
    and "session_bindings s a = Some w \<longleftrightarrow> worker_bindings s w = Some a"
    and "session_bindings s a = Some w \<Longrightarrow> sessions s a \<noteq> None"
    and "session_bindings s a = Some w \<Longrightarrow> w \<in> dom (workers r)"
    and "stakes s a \<noteq> None \<longleftrightarrow> (\<exists>i. sessions s a = Some i \<and> ss_state i \<noteq> Ready)"
    and "sessions s a = Some i \<Longrightarrow> ss_state i \<noteq> Unused"
    and "sessions s a = Some i \<Longrightarrow> is_computing (ss_state i) \<Longrightarrow> session_bindings s a \<noteq> None"
    and "online_workers s = of_nat (card (computing_sessions s))"
  using assms unfolding comp_inv_def computing_sessions_def by blast+

lemma comp_invI:
  assumes "finite (dom (sessions s))"
    and "\<And>a w. session_bindings s a = Some w \<longleftrightarrow> worker_bindings s w = Some a"
    and "\<And>a w. session_bindings s a = Some w \<Longrightarrow> sessions s a \<noteq> None"
    and "\<And>a w. session_bindings s a = Some w \<Longrightarrow> w \<in> dom (workers r)"
    and "\<And>a. stakes s a \<noteq> None \<longleftrightarrow> (\<exists>i. sessions s a = Some i \<and> ss_state i \<noteq> Ready)"
    and "\<And>a i. sessions s a = Some i \<Longrightarrow> ss_state i \<noteq> Unused"
    and "\<And>a i. sessions s a = Some i \<Longrightarrow> is_computing (ss_state i) \<Longrightarrow> session_bindings s a \<noteq> None"
    and "online_workers s = of_nat (card (computing_sessions s))"
  shows "comp_inv r s"
proof -
  have "computing_sessions s \<subseteq> dom (session_bindings s)"
    using assms(7) unfolding computing_sessions_def by blast
  then show ?thesis using assms unfolding comp_inv_def by blast
qed

lemma not_computing_iff: "\<not> is_computing st \<longleftrightarrow> st = Ready \<or> st = WorkerCoolingDown \<or> st = Unused"
  by (cases st) auto

lemma can_unbind_iff: "can_unbind st \<longleftrightarrow> st = Ready \<or> st = WorkerCoolingDown"
  by (cases st) auto

text \<open>
  The fields the invariant reads. The logs, the bank and the parameters are not among them.
\<close>

definition comp_core ::
    "('acc, 'bank) computation \<Rightarrow>
     ('acc \<rightharpoonup> session_info) \<times> ('acc \<rightharpoonup> worker_public_key) \<times> (worker_public_key \<rightharpoonup> 'acc) \<times> ('acc \<rightharpoonup> balance) \<times> u32" where
  "comp_core s = (sessions s, session_bindings s, worker_bindings s, stakes s, online_workers s)"

lemma comp_core_eqD:
  assumes "comp_core s = comp_core t"
  shows "sessions s = sessions t" "session_bindings s = session_bindings t" "worker_bindings s = worker_bindings t"
    "stakes s = stakes t" "online_workers s = online_workers t" "computing_sessions s = computing_sessions t"
  using assms by (simp_all add: comp_core_def computing_sessions_def)

lemma comp_inv_core:
  assumes "comp_core s = comp_core t"
  shows "comp_inv r s \<longleftrightarrow> comp_inv r t"
  unfolding comp_inv_def comp_core_eqD [OF assms] by (rule refl)

lemma comp_log_core [simp]:
  "comp_core (comp_push m s) = comp_core s"
  "comp_core (comp_deposit e s) = comp_core s"
  "comp_core (comp_notify n s) = comp_core s"
  by (simp_all add: comp_core_def comp_push_def comp_deposit_def comp_notify_def)

lemma comp_log_fields [simp, frame]:
  "sessions (comp_push m s) = sessions s" "sessions (comp_deposit e s) = sessions s"
  "sessions (comp_notify n s) = sessions s"
  "session_bindings (comp_push m s) = session_bindings s" "session_bindings (comp_deposit e s) = session_bindings s"
  "session_bindings (comp_notify n s) = session_bindings s"
  "worker_bindings (comp_push m s) = worker_bindings s" "worker_bindings (comp_deposit e s) = worker_bindings s"
  "worker_bindings (comp_notify n s) = worker_bindings s"
  "stakes (comp_push m s) = stakes s" "stakes (comp_deposit e s) = stakes s" "stakes (comp_notify n s) = stakes s"
  "online_workers (comp_push m s) = online_workers s" "online_workers (comp_deposit e s) = online_workers s"
  "online_workers (comp_notify n s) = online_workers s"
  by (simp_all add: comp_push_def comp_deposit_def comp_notify_def)

lemma set_session_fields [simp, frame]:
  "sessions (set_session a i s) = (sessions s)(a \<mapsto> i)"
  "session_bindings (set_session a i s) = session_bindings s"
  "worker_bindings (set_session a i s) = worker_bindings s"
  "stakes (set_session a i s) = stakes s"
  "online_workers (set_session a i s) = online_workers s"
  by (simp_all add: set_session_def)

section \<open>How a session change moves the count\<close>

lemma computing_sessions_set:
  "computing_sessions (set_session a i s) =
     (if is_computing (ss_state i) then insert a (computing_sessions s) else computing_sessions s - {a})"
  by (auto simp: computing_sessions_def)

lemma finite_computing: "finite (dom (sessions s)) \<Longrightarrow> finite (computing_sessions s)"
  by (rule finite_subset [of _ "dom (sessions s)"]) (auto simp: computing_sessions_def)

text \<open>
  The summary of a session operation: one session is set, its stake and the count follow its
  state, and the bindings keep a computing session bound.
\<close>

definition session_change ::
    "'acc \<Rightarrow> session_info \<Rightarrow> ('acc, 'bank) computation \<Rightarrow> ('acc, 'bank) computation \<Rightarrow> bool" where
  "session_change a i s t \<longleftrightarrow>
     sessions t = (sessions s)(a \<mapsto> i) \<and>
     session_bindings t = session_bindings s \<and> worker_bindings t = worker_bindings s \<and>
     (\<forall>b. b \<noteq> a \<longrightarrow> stakes t b = stakes s b) \<and> (stakes t a \<noteq> None \<longleftrightarrow> ss_state i \<noteq> Ready) \<and>
     ss_state i \<noteq> Unused \<and> (is_computing (ss_state i) \<longrightarrow> session_bindings s a \<noteq> None) \<and>
     online_workers t =
       (if is_computing (ss_state i) \<and> a \<notin> computing_sessions s then online_workers s + 1
        else if \<not> is_computing (ss_state i) \<and> a \<in> computing_sessions s then online_workers s - 1
        else online_workers s)"

lemma card_computing_change:
  assumes "finite (dom (sessions s))" and t: "sessions t = (sessions s)(a \<mapsto> i)"
  shows "(of_nat (card (computing_sessions t)) :: u32) =
    (if is_computing (ss_state i) \<and> a \<notin> computing_sessions s then of_nat (card (computing_sessions s)) + 1
     else if \<not> is_computing (ss_state i) \<and> a \<in> computing_sessions s then of_nat (card (computing_sessions s)) - 1
     else of_nat (card (computing_sessions s)))"
proof -
  have fin: "finite (computing_sessions s)" using assms(1) by (rule finite_computing)
  have ct: "computing_sessions t =
     (if is_computing (ss_state i) then insert a (computing_sessions s) else computing_sessions s - {a})"
    using t by (auto simp: computing_sessions_def)
  have "a \<in> computing_sessions s \<Longrightarrow>
    (of_nat (card (computing_sessions s)) :: u32) = of_nat (card (computing_sessions s - {a})) + 1"
    using card.remove [OF fin, of a] by simp
  then show ?thesis using fin by (auto simp: ct insert_absorb)
qed

lemma comp_inv_session_change:
  assumes inv: "comp_inv r s" and ch: "session_change a i s t"
  shows "comp_inv r t"
proof (rule comp_invI)
  show "finite (dom (sessions t))" using inv ch by (simp add: comp_invD(1) session_change_def)
  show "session_bindings t b = Some w \<longleftrightarrow> worker_bindings t w = Some b" for b w
    using comp_invD(2) [OF inv] ch by (simp add: session_change_def)
  show "session_bindings t b = Some w \<Longrightarrow> sessions t b \<noteq> None" for b w
    using comp_invD(3) [OF inv] ch by (simp add: session_change_def)
  show "session_bindings t b = Some w \<Longrightarrow> w \<in> dom (workers r)" for b w
    using comp_invD(4) [OF inv] ch by (simp add: session_change_def)
  show "stakes t b \<noteq> None \<longleftrightarrow> (\<exists>i. sessions t b = Some i \<and> ss_state i \<noteq> Ready)" for b
    using comp_invD(5) [OF inv, of b] ch by (cases "b = a") (simp_all add: session_change_def)
  show "sessions t b = Some j \<Longrightarrow> ss_state j \<noteq> Unused" for b j
    using comp_invD(6) [OF inv, of b] ch by (cases "b = a") (auto simp: session_change_def)
  show "sessions t b = Some j \<Longrightarrow> is_computing (ss_state j) \<Longrightarrow> session_bindings t b \<noteq> None" for b j
    using comp_invD(7) [OF inv, of b] ch by (cases "b = a") (auto simp: session_change_def)
  show "online_workers t = of_nat (card (computing_sessions t))"
    using card_computing_change [OF comp_invD(1) [OF inv], of t a i] comp_invD(8) [OF inv] ch
    by (simp add: session_change_def)
qed

section \<open>The operations\<close>

lemma stop_computing_Inr:
  assumes "stop_computing env a s = Inr t" and inv: "comp_inv r s"
  obtains i w where "sessions s a = Some i" "session_bindings s a = Some w" "is_computing (ss_state i)"
    "session_change a (i\<lparr>ss_state := WorkerCoolingDown, ss_cool_down_start := comp_now_sec env\<rparr>) s t"
    "stakes t = stakes s"
proof -
  let ?st = "\<lambda>i. i\<lparr>ss_state := WorkerCoolingDown, ss_cool_down_start := comp_now_sec env\<rparr>"
  from assms(1) obtain w i where w: "session_bindings s a = Some w" and i: "sessions s a = Some i"
    and st: "ss_state i \<noteq> Ready" "ss_state i \<noteq> WorkerCoolingDown"
    and t: "sessions t = (sessions s)(a \<mapsto> ?st i)" "session_bindings t = session_bindings s"
      "worker_bindings t = worker_bindings s" "stakes t = stakes s" "online_workers t = online_workers s - 1"
    unfolding stop_computing_def Let_def by (auto simp: result_simps)
  have comp: "is_computing (ss_state i)" using st comp_invD(6) [OF inv i] not_computing_iff by blast
  then have "a \<in> computing_sessions s" using i by (simp add: computing_sessions_def)
  moreover have "stakes s a \<noteq> None" using comp_invD(5) [OF inv] i st by blast
  ultimately have "session_change a (?st i) s t" using t by (simp add: session_change_def)
  with i w comp t show ?thesis using that by blast
qed

lemma reclaim_Inr:
  assumes "reclaim env a chk s = Inr (t, orig, slashed)" and inv: "comp_inv r s"
  obtains i where "sessions s a = Some i" "ss_state i = WorkerCoolingDown"
    "chk \<Longrightarrow> comp_now_sec env - ss_cool_down_start i \<ge> cool_down_period s"
    "stakes s a = Some orig" "slashed = 0" "stakes t = (stakes s)(a := None)"
    "session_change a (i\<lparr>ss_state := Ready, ss_cool_down_start := 0\<rparr>) s t"
proof -
  let ?st = "\<lambda>i. i\<lparr>ss_state := Ready, ss_cool_down_start := 0\<rparr>"
  from assms(1) obtain i where i: "sessions s a = Some i" and ok: "can_reclaim env i chk s"
    and t: "sessions t = (sessions s)(a \<mapsto> ?st i)" "session_bindings t = session_bindings s"
      "worker_bindings t = worker_bindings s" "stakes t = (stakes s)(a := None)" "online_workers t = online_workers s"
    and o: "orig = (case stakes s a of None \<Rightarrow> 0 | Some x \<Rightarrow> x)" "slashed = 0"
    unfolding reclaim_def Let_def by (auto simp: result_simps calc_final_stake_def)
  have st: "ss_state i = WorkerCoolingDown" using ok by (simp add: can_reclaim_def split: if_splits)
  then have "stakes s a \<noteq> None" using comp_invD(5) [OF inv] i by auto
  with o have "stakes s a = Some orig" by auto
  moreover have "a \<notin> computing_sessions s" using i st by (simp add: computing_sessions_def)
  then have "session_change a (?st i) s t" using t by (simp add: session_change_def)
  moreover have "chk \<Longrightarrow> comp_now_sec env - ss_cool_down_start i \<ge> cool_down_period s"
    using ok by (simp add: can_reclaim_def split: if_splits)
  ultimately show ?thesis using that i st o t by blast
qed

lemma start_computing_Inr:
  assumes "start_computing env a stake s = Some (Inr t)" and inv: "comp_inv r s"
  obtains i p ve w where "sessions s a = Some i" "ss_state i = Ready" "stakes s a = None"
    "stakes t = (stakes s)(a \<mapsto> stake)" "session_bindings s a = Some w"
    "next_session_id t = next_session_id s + 1"
    "comp_pushed t = comp_pushed s @ [CompSystemEvent (new_worker_event w (Started (next_session_id s) ve p))]"
    "session_change a (i\<lparr>ss_state := WorkerIdle, ss_ve := ve, ss_v := ve, ss_v_updated_at := comp_now_sec env,
                ss_benchmark := (ss_benchmark i)\<lparr>p_init := p\<rparr>\<rparr>) s t"
proof -
  let ?st = "\<lambda>i ve p. i\<lparr>ss_state := WorkerIdle, ss_ve := ve, ss_v := ve, ss_v_updated_at := comp_now_sec env,
                ss_benchmark := (ss_benchmark i)\<lparr>p_init := p\<rparr>\<rparr>"
  from assms(1) obtain w i p ve where w: "session_bindings s a = Some w" and i: "sessions s a = Some i"
    and st: "ss_state i = Ready" "stakes s a = None"
    and t: "t = comp_deposit (WorkerStarted a ve p) (comp_push (CompSystemEvent (new_worker_event w (Started (next_session_id s) ve p)))
       ((set_session a (?st i ve p) (s\<lparr>stakes := (stakes s)(a \<mapsto> stake)\<rparr>))
         \<lparr>online_workers := online_workers s + 1, next_session_id := next_session_id s + 1\<rparr>))"
    unfolding start_computing_def Let_def
    by (simp add: result_simps get_tokenomic_def) (elim exE conjE, simp add: set_session_def)
  have "a \<notin> computing_sessions s" using i st by (simp add: computing_sessions_def)
  then have "session_change a (?st i ve p) s t" using t st w by (simp add: session_change_def)
  moreover have "next_session_id t = next_session_id s + 1"
    "comp_pushed t = comp_pushed s @ [CompSystemEvent (new_worker_event w (Started (next_session_id s) ve p))]"
    unfolding t by (simp_all add: comp_deposit_def comp_push_def set_session_def)
  ultimately show ?thesis using that i st w t by simp
qed

lemma turn_worker_cases:
  assumes "is_computing st" and inv: "comp_inv r s"
  obtains (same) "turn_worker st ev wev w s = s"
    | (turned) a i where "sessions s a = Some i" "is_computing (ss_state i)" "worker_bindings s w = Some a"
        "session_change a (i\<lparr>ss_state := st\<rparr>) s (turn_worker st ev wev w s)"
        "stakes (turn_worker st ev wev w s) = stakes s"
proof (cases "\<exists>a i. worker_bindings s w = Some a \<and> sessions s a = Some i \<and> is_computing (ss_state i)")
  case False
  then have "turn_worker st ev wev w s = s" by (auto simp: turn_worker_def split: option.splits)
  then show ?thesis by (rule same)
next
  case True
  then obtain a i where a: "worker_bindings s w = Some a" and i: "sessions s a = Some i" "is_computing (ss_state i)"
    by blast
  have "a \<in> computing_sessions s" using i by (simp add: computing_sessions_def)
  moreover have "ss_state i \<noteq> Ready" using i(2) by auto
  then have "stakes s a \<noteq> None" using comp_invD(5) [OF inv] i(1) by blast
  moreover have "session_bindings s a \<noteq> None" using comp_invD(7) [OF inv] i by blast
  moreover have "st \<noteq> Ready" "st \<noteq> Unused" using assms(1) by auto
  ultimately have "session_change a (i\<lparr>ss_state := st\<rparr>) s (turn_worker st ev wev w s)"
    using a i assms(1) by (simp add: turn_worker_def session_change_def)
  then show ?thesis using turned a i by (simp add: turn_worker_def)
qed

lemma session_change_data:
  assumes inv: "comp_inv r s" and i: "sessions s a = Some i" and st: "ss_state j = ss_state i"
    and t: "sessions t = (sessions s)(a \<mapsto> j)" "session_bindings t = session_bindings s"
      "worker_bindings t = worker_bindings s" "stakes t = stakes s" "online_workers t = online_workers s"
  shows "session_change a j s t"
proof -
  have "a \<in> computing_sessions s \<longleftrightarrow> is_computing (ss_state j)" using i st by (simp add: computing_sessions_def)
  moreover have "stakes s a \<noteq> None \<longleftrightarrow> ss_state j \<noteq> Ready" using comp_invD(5) [OF inv] i st by auto
  moreover have "ss_state j \<noteq> Unused" using comp_invD(6) [OF inv i] st by simp
  moreover have "is_computing (ss_state j) \<longrightarrow> session_bindings s a \<noteq> None"
    using comp_invD(7) [OF inv i] st by simp
  ultimately show ?thesis using t by (auto simp: session_change_def)
qed

lemma heartbeat_cases:
  assumes "heartbeat env w ct its s = Some (t, res)" and inv: "comp_inv r s"
  obtains (same) "t = s"
    | (updated) a i b where "worker_bindings s w = Some a" "sessions s a = Some i"
        "benchmark_update (comp_now_sec env) its (ct div 1000) (ss_benchmark i) = Inr b"
        "session_change a (i\<lparr>ss_benchmark := b\<rparr>) s t" "stakes t = stakes s"
proof (cases "worker_bindings s w")
  case None
  with assms(1) have "t = s" by (simp add: heartbeat_def ensure_worker_bound_def)
  then show ?thesis by (rule same)
next
  case (Some a)
  with assms(1) obtain i b where i: "sessions s a = Some i"
    and b: "benchmark_update (comp_now_sec env) its (ct div 1000) (ss_benchmark i) = Inr b"
    and t: "t = set_session a (i\<lparr>ss_benchmark := b\<rparr>) (comp_deposit (BenchmarkUpdated a (p_instant b)) s)"
    by (auto simp: heartbeat_def ensure_worker_bound_def split: option.splits sum.splits)
  have "session_change a (i\<lparr>ss_benchmark := b\<rparr>) s t"
    using inv i by (rule session_change_data) (simp_all add: t)
  with Some i b t show ?thesis using updated by simp
qed

lemma try_handle_settle_cases:
  assumes "try_handle_settle env info now ts s = Some (t, res)" and inv: "comp_inv r s"
  obtains (same) "comp_core t = comp_core s"
    | (settled) a i j where "worker_bindings s (si_pubkey info) = Some a" "sessions s a = Some i"
        "ss_v_updated_at i < ts" "ss_state j = ss_state i" "ss_v_updated_at j = now" "ss_v j = si_v info"
        "session_change a j s t" "stakes t = stakes s"
proof (cases "worker_bindings s (si_pubkey info)")
  case None
  with assms(1) have "comp_core t = comp_core s" by (simp add: try_handle_settle_def)
  then show ?thesis by (rule same)
next
  case (Some a)
  show ?thesis
  proof (cases "\<exists>i. sessions s a = Some i \<and> ss_v_updated_at i < ts")
    case False
    with Some assms(1) have "comp_core t = comp_core s"
      by (auto simp: try_handle_settle_def not_less split: option.splits if_splits)
    then show ?thesis by (rule same)
  next
    case True
    then obtain i where i: "sessions s a = Some i" "ss_v_updated_at i < ts" by blast
    then have "\<not> ts \<le> ss_v_updated_at i" by (simp add: not_le)
    with Some assms(1) i(1) obtain j where j: "stats_on_reward (fx_ops env) (si_payout info)
         (i\<lparr>ss_v := si_v info, ss_v_updated_at := now\<rparr>) = Some j"
      and t: "sessions t = (sessions s)(a \<mapsto> j)" "session_bindings t = session_bindings s"
        "worker_bindings t = worker_bindings s" "stakes t = stakes s" "online_workers t = online_workers s"
      by (auto simp: try_handle_settle_def Let_def split: option.splits)
    have js: "ss_state j = ss_state i" "ss_v_updated_at j = now" "ss_v j = si_v info"
      using j by (auto simp: stats_on_reward_def split: option.splits)
    have "session_change a j s t" using inv i(1) js(1) t by (rule session_change_data)
    with Some i js t show ?thesis using settled by blast
  qed
qed

lemma comp_inv_bindings_add:
  assumes inv: "comp_inv r s" and free: "session_bindings s a = None" "worker_bindings s w = None"
    and ok: "sessions s a \<noteq> None" "w \<in> dom (workers r)"
    and t: "sessions t = sessions s" "session_bindings t = (session_bindings s)(a \<mapsto> w)"
      "worker_bindings t = (worker_bindings s)(w \<mapsto> a)" "stakes t = stakes s" "online_workers t = online_workers s"
  shows "comp_inv r t"
proof (rule comp_invI)
  have cs: "computing_sessions t = computing_sessions s" using t by (simp add: computing_sessions_def)
  show "session_bindings t b = Some v \<longleftrightarrow> worker_bindings t v = Some b" for b v
    using comp_invD(2) [OF inv, of b v] comp_invD(2) [OF inv, of a v] comp_invD(2) [OF inv, of b w] free t by auto
  show "online_workers t = of_nat (card (computing_sessions t))" using comp_invD(8) [OF inv] t cs by simp
qed (use inv t ok comp_invD(1,3-7) [OF inv] in \<open>auto split: if_splits\<close>)

lemma comp_inv_bindings_remove:
  assumes inv: "comp_inv r s" and bound: "session_bindings s a = Some w" and idle: "a \<notin> computing_sessions s"
    and t: "sessions t = sessions s" "session_bindings t = (session_bindings s)(a := None)"
      "worker_bindings t = (worker_bindings s)(w := None)" "stakes t = stakes s" "online_workers t = online_workers s"
  shows "comp_inv r t"
proof (rule comp_invI)
  have cs: "computing_sessions t = computing_sessions s" using t by (simp add: computing_sessions_def)
  have inv2: "session_bindings s b = Some v \<longleftrightarrow> worker_bindings s v = Some b" for b v
    by (rule comp_invD(2) [OF inv])
  have "worker_bindings s w = Some a" using inv2 bound by blast
  then show "session_bindings t b = Some v \<longleftrightarrow> worker_bindings t v = Some b" for b v
    using inv2 [of b v] inv2 [of b w] inv2 [of a v] bound t by auto
  show "sessions t b = Some j \<Longrightarrow> is_computing (ss_state j) \<Longrightarrow> session_bindings t b \<noteq> None" for b j
    using comp_invD(7) [OF inv, of b j] idle t by (auto simp: computing_sessions_def)
  show "online_workers t = of_nat (card (computing_sessions t))" using comp_invD(8) [OF inv] t cs by simp
qed (use inv t comp_invD(1,3-6) [OF inv] in \<open>auto split: if_splits\<close>)

lemma bind_inv:
  assumes "bind env a w s = Inr t" and inv: "comp_inv (comp_registry env) s"
  shows "comp_inv (comp_registry env) t \<and> stakes t = stakes s"
proof -
  let ?i = "new_session (comp_now_sec env)"
  have i: "ss_state ?i = Ready" by (simp add: new_session_def)
  have pre: "w \<in> dom (workers (comp_registry env))" "session_bindings s a = None" "worker_bindings s w = None"
      "case sessions s a of Some i \<Rightarrow> ss_state i = Ready | None \<Rightarrow> True"
    and t: "t = comp_deposit (SessionBound a w) (set_session a ?i
        (s\<lparr>session_bindings := (session_bindings s)(a \<mapsto> w), worker_bindings := (worker_bindings s)(w \<mapsto> a)\<rparr>))"
    using assms(1) unfolding bind_def Let_def by (auto simp: result_simps)
  have "a \<notin> computing_sessions s" using pre(4) by (auto simp: computing_sessions_def)
  moreover have "stakes s a = None" using comp_invD(5) [OF inv, of a] pre(4) by auto
  ultimately have "session_change a ?i s (set_session a ?i s)" using i by (simp add: session_change_def)
  then have "comp_inv (comp_registry env) (set_session a ?i s)" by (rule comp_inv_session_change [OF inv])
  then have "comp_inv (comp_registry env) t"
    by (rule comp_inv_bindings_add [where a = a and w = w]) (use pre t in simp_all)
  then show ?thesis by (simp add: t)
qed

lemma unbind_session_Inr:
  assumes "unbind_session env a notify s = Some (Inr t)" and inv: "comp_inv r s"
  shows "comp_inv r t \<and> stakes t = stakes s \<and> session_bindings t a = None"
proof -
  let ?u = "\<lambda>w s1. comp_deposit (SessionUnbound a w)
       (s1\<lparr>session_bindings := (session_bindings s1)(a := None), worker_bindings := (worker_bindings s1)(w := None)\<rparr>)"
  from assms(1) obtain w i s1 where w: "session_bindings s a = Some w" and i: "sessions s a = Some i"
    and s1: "if can_unbind (ss_state i) then s1 = s else stop_computing env a s = Inr s1"
    and t': "t = (if notify then comp_notify (OnUnbound w (\<not> can_unbind (ss_state i))) (?u w s1) else ?u w s1)"
    unfolding unbind_session_def Let_def ensure_session_bound_def
    by (simp only: result_simps option.inject sum.inject)
      (elim exE conjE, rule that, assumption, assumption, simp add: result_simps split: if_splits, simp)
  have t: "sessions t = sessions s1" "session_bindings t = (session_bindings s1)(a := None)"
      "worker_bindings t = (worker_bindings s1)(w := None)" "stakes t = stakes s1" "online_workers t = online_workers s1"
    unfolding t' by simp_all
  have "comp_inv r s1 \<and> a \<notin> computing_sessions s1 \<and> session_bindings s1 a = Some w \<and> stakes s1 = stakes s"
  proof (cases "can_unbind (ss_state i)")
    case True
    then have "a \<notin> computing_sessions s" using i by (auto simp: computing_sessions_def can_unbind_iff)
    with True s1 inv w show ?thesis by simp
  next
    case False
    with s1 have "stop_computing env a s = Inr s1" by simp
    then show ?thesis using inv
    proof (cases rule: stop_computing_Inr)
      case (1 j v)
      then show ?thesis using comp_inv_session_change [OF inv 1(4)] w
        by (simp add: session_change_def computing_sessions_def)
    qed
  qed
  then show ?thesis using comp_inv_bindings_remove [of r s1 a w t] t by simp
qed

text \<open>
  Every operation but \<open>start_computing\<close> and \<open>reclaim\<close> keeps the invariant and leaves the
  stakes alone.
\<close>

definition quiet :: "'acc registry \<Rightarrow> ('acc, 'bank) computation \<Rightarrow> ('acc, 'bank) computation \<Rightarrow> bool" where
  "quiet r s t \<longleftrightarrow> comp_inv r t \<and> stakes t = stakes s"

lemma quiet_core: "comp_core t = comp_core s \<Longrightarrow> comp_inv r s \<Longrightarrow> quiet r s t"
  using comp_inv_core [of t s r] comp_core_eqD(4) [of t s] by (simp add: quiet_def)

lemma quiet_change: "session_change a i s t \<Longrightarrow> stakes t = stakes s \<Longrightarrow> comp_inv r s \<Longrightarrow> quiet r s t"
  using comp_inv_session_change by (auto simp: quiet_def)

lemma quiet_trans: "quiet r s t \<Longrightarrow> (comp_inv r t \<Longrightarrow> quiet r t u) \<Longrightarrow> quiet r s u"
  by (simp add: quiet_def)

lemma quiet_turn_worker: "is_computing st \<Longrightarrow> comp_inv r s \<Longrightarrow> quiet r s (turn_worker st ev wev w s)"
  by (erule (1) turn_worker_cases [where w = w and ev = ev and wev = wev])
    (simp_all add: quiet_core quiet_change)

lemma quiet_fold:
  "(\<And>x s. comp_inv r s \<Longrightarrow> quiet r s (f x s)) \<Longrightarrow> comp_inv r s \<Longrightarrow> quiet r s (fold f xs s)"
proof (induction xs arbitrary: s)
  case Nil
  then show ?case by (simp add: quiet_def)
next
  case (Cons x xs)
  have "quiet r s (f x s)" by (rule Cons.prems)+
  then show ?case unfolding fold_simps by (rule quiet_trans) (rule Cons.IH [OF Cons.prems(1)])
qed

lemma quiet_settle: "try_handle_settle env info now ts s = Some (t, res) \<Longrightarrow> comp_inv r s \<Longrightarrow> quiet r s t"
  by (erule (1) try_handle_settle_cases) (simp_all add: quiet_core quiet_change)

lemma quiet_settles: "handle_settles env now ts infos s = Some t \<Longrightarrow> comp_inv r s \<Longrightarrow> quiet r s t"
proof (induction infos arbitrary: s)
  case Nil
  then show ?case by (simp add: quiet_def)
next
  case (Cons info infos)
  show ?case
  proof (cases "try_handle_settle env info now ts s")
    case None
    with Cons.prems(1) show ?thesis by simp
  next
    case (Some p)
    obtain s1 res where p: "p = (s1, res)" by (cases p)
    let ?s2 = "case res of Inl _ \<Rightarrow> comp_deposit (InternalErrorWorkerSettleFailed (si_pubkey info)) s1 | Inr _ \<Rightarrow> s1"
    have s2: "handle_settles env now ts infos ?s2 = Some t"
      using Cons.prems(1) Some p by (cases res) simp_all
    have q: "quiet r s s1" using Some p Cons.prems(2) by (simp add: quiet_settle)
    have "comp_inv r s1 \<Longrightarrow> quiet r s1 ?s2" by (rule quiet_core) (simp_all split: sum.split)
    then have "quiet r s ?s2" by (rule quiet_trans [OF q])
    then show ?thesis by (rule quiet_trans) (rule Cons.IH [OF s2])
  qed
qed

lemma quiet_gk_message:
  assumes "comp_on_gk_message_received env m s = Some (t, res)" and inv: "comp_inv r s"
  shows "quiet r s t"
proof (cases "dm_sender m = Gatekeeper \<and> \<not> working_info_update_is_empty (dm_payload m)")
  case False
  with assms show ?thesis
    by (auto simp: comp_on_gk_message_received_def Let_def quiet_def split: if_splits)
next
  case True
  let ?e = "dm_payload m"
  let ?s1 = "fold (turn_worker WorkerUnresponsive WorkerEnterUnresponsive EnterUnresponsive) (wi_offline ?e) s"
  let ?s2 = "fold (turn_worker WorkerIdle WorkerExitUnresponsive ExitUnresponsive) (wi_recovered_to_online ?e) ?s1"
  from assms(1) True obtain s3 where
    s3: "handle_settles env (comp_now_sec env) (wi_timestamp_ms ?e div 1000) (wi_settle ?e) ?s2 = Some s3"
    and t: "t = comp_notify (OnReward (wi_settle ?e)) s3"
    by (auto simp: comp_on_gk_message_received_def Let_def)
  have q1: "quiet r s ?s1" using inv by (intro quiet_fold quiet_turn_worker) simp_all
  have q2: "comp_inv r ?s1 \<Longrightarrow> quiet r ?s1 ?s2" by (intro quiet_fold quiet_turn_worker) simp_all
  have q3: "comp_inv r ?s2 \<Longrightarrow> quiet r ?s2 s3" by (rule quiet_settles [OF s3])
  have q4: "comp_inv r s3 \<Longrightarrow> quiet r s3 t" by (rule quiet_core) (simp_all add: t)
  show ?thesis by (rule quiet_trans [OF quiet_trans [OF quiet_trans [OF q1 q2] q3] q4])
qed

lemma quiet_working_message:
  assumes "on_working_message_received env m s = Some (t, res)" and inv: "comp_inv r s"
  shows "quiet r s t"
proof (cases "\<exists>w ct its. heartbeat env w ct its s = Some (t, res)")
  case True
  then obtain w ct its where "heartbeat env w ct its s = Some (t, res)" by blast
  from this inv show ?thesis
    by (cases rule: heartbeat_cases) (use inv in \<open>simp_all add: quiet_core quiet_change\<close>)
next
  case False
  then have "t = s" using assms(1)
    by (auto simp: on_working_message_received_def split: message_origin.splits working_report_event.splits)
  then show ?thesis using inv by (simp add: quiet_def)
qed

lemma quiet_stop: "stop_computing env a s = Inr t \<Longrightarrow> comp_inv r s \<Longrightarrow> quiet r s t"
  by (erule (1) stop_computing_Inr) (simp add: quiet_change)

lemma quiet_unbind: "unbind env orig a s = Some (Inr t) \<Longrightarrow> comp_inv r s \<Longrightarrow> quiet r s t"
  by (auto simp: unbind_def result_simps quiet_def dest: unbind_session_Inr)

lemma core_ops:
  "set_cool_down_expiration orig period s = Inr t \<Longrightarrow> comp_core t = comp_core s"
  "force_heartbeat orig s = Inr t \<Longrightarrow> comp_core t = comp_core s"
  "update_tokenomic env orig params s = Inr t \<Longrightarrow> comp_core t = comp_core s"
  "set_heartbeat_paused env orig paused s = Inr t \<Longrightarrow> comp_core t = comp_core s"
  "set_budget_per_block env orig nonce block budget s = Inr t \<Longrightarrow> comp_core t = comp_core s"
  "update_contract_root env orig account s = Inr t \<Longrightarrow> comp_core t = comp_core s"
  "withdraw_subsidy_pool env target value s = Inr t \<Longrightarrow> comp_core t = comp_core s"
  "on_finalize env s = Some t \<Longrightarrow> comp_core t = comp_core s"
  by (auto simp: set_cool_down_expiration_def force_heartbeat_def update_tokenomic_def set_heartbeat_paused_def
      set_budget_per_block_def update_contract_root_def withdraw_subsidy_pool_def on_finalize_def
      heartbeat_challenge_hook_def update_tokenomic_parameters_def result_simps Let_def comp_core_def
      split: option.splits if_splits)

section \<open>Reachable states\<close>

text \<open>
  A step of the chain: a step of the registry, or an operation of the computation pallet in a
  block whose registry is the current one. The operations the stake pools call (\<open>bind\<close>,
  \<open>unbind_session\<close>, \<open>start_computing\<close>, \<open>stop_computing\<close>, \<open>reclaim\<close>) come with any
  arguments.
\<close>

inductive comp_step ::
    "'acc registry \<times> ('acc, 'bank) computation \<Rightarrow> 'acc registry \<times> ('acc, 'bank) computation \<Rightarrow> bool" where
  cs_registry: "reg_step r r' \<Longrightarrow> comp_step (r, s) (r', s)"
| cs_bind: "bind env a w s = Inr t \<Longrightarrow> comp_registry env = r \<Longrightarrow> comp_step (r, s) (r, t)"
| cs_unbind_session: "unbind_session env a notify s = Some (Inr t) \<Longrightarrow> comp_registry env = r \<Longrightarrow> comp_step (r, s) (r, t)"
| cs_start: "start_computing env a stake s = Some (Inr t) \<Longrightarrow> comp_registry env = r \<Longrightarrow> comp_step (r, s) (r, t)"
| cs_stop: "stop_computing env a s = Inr t \<Longrightarrow> comp_registry env = r \<Longrightarrow> comp_step (r, s) (r, t)"
| cs_reclaim: "reclaim env a chk s = Inr (t, orig, slashed) \<Longrightarrow> comp_registry env = r \<Longrightarrow> comp_step (r, s) (r, t)"
| cs_unbind: "unbind env orig a s = Some (Inr t) \<Longrightarrow> comp_registry env = r \<Longrightarrow> comp_step (r, s) (r, t)"
| cs_force_start: "force_start_computing env orig a stake s = Some (Inr t) \<Longrightarrow> comp_registry env = r \<Longrightarrow> comp_step (r, s) (r, t)"
| cs_force_stop: "force_stop_computing env orig a s = Inr t \<Longrightarrow> comp_registry env = r \<Longrightarrow> comp_step (r, s) (r, t)"
| cs_cool_down: "set_cool_down_expiration orig period s = Inr t \<Longrightarrow> comp_step (r, s) (r, t)"
| cs_force_heartbeat: "force_heartbeat orig s = Inr t \<Longrightarrow> comp_step (r, s) (r, t)"
| cs_tokenomic: "update_tokenomic env orig params s = Inr t \<Longrightarrow> comp_step (r, s) (r, t)"
| cs_paused: "set_heartbeat_paused env orig paused s = Inr t \<Longrightarrow> comp_step (r, s) (r, t)"
| cs_budget: "set_budget_per_block env orig nonce block budget s = Inr t \<Longrightarrow> comp_step (r, s) (r, t)"
| cs_contract_root: "update_contract_root env orig account s = Inr t \<Longrightarrow> comp_step (r, s) (r, t)"
| cs_subsidy: "withdraw_subsidy_pool env target value s = Inr t \<Longrightarrow> comp_step (r, s) (r, t)"
| cs_finalize: "on_finalize env s = Some t \<Longrightarrow> comp_step (r, s) (r, t)"
| cs_working: "on_working_message_received env wm s = Some (t, res) \<Longrightarrow> comp_registry env = r \<Longrightarrow> comp_step (r, s) (r, t)"
| cs_gk: "comp_on_gk_message_received env gm s = Some (t, res) \<Longrightarrow> comp_registry env = r \<Longrightarrow> comp_step (r, s) (r, t)"

inductive comp_reachable :: "'acc registry \<times> ('acc, 'bank) computation \<Rightarrow> bool" where
  cr_genesis: "reg_reachable r \<Longrightarrow> comp_reachable (r, computation_genesis cool_down params b)"
| cr_next: "comp_reachable x \<Longrightarrow> comp_step x y \<Longrightarrow> comp_reachable y"

lemma adds_worker_dom: "adds_worker pk r r' \<Longrightarrow> dom (workers r) \<subseteq> dom (workers r')"
  unfolding adds_worker_def by (metis domIff subsetI)

lemma same_core_dom: "same_core r r' \<Longrightarrow> dom (workers r) \<subseteq> dom (workers r')"
  by (simp add: same_core_def)

lemma reg_step_workers_mono: "reg_step r r' \<Longrightarrow> dom (workers r) \<subseteq> dom (workers r')"
proof (induction rule: reg_step.induct)
  case (17 env m s t res)
  then show ?case
    by (cases rule: on_message_received_cases) (simp_all add: same_core_dom adds_worker_dom)
next
  case (18 gm s t res)
  then show ?case using on_gk_message_received_core by fastforce
next
  case (4 env orig gk s t)
  then show ?case using register_gatekeeper_core by fastforce
next
  case (5 env orig gk s t)
  then show ?case using unregister_gatekeeper_core by fastforce
next
  case (6 env orig s t)
  then show ?case using rotate_master_key_core by fastforce
qed ((rule same_core_dom, erule same_core_ops) | (rule adds_worker_dom, erule adds_worker_ops register_worker_v2_adds))+

lemma comp_inv_registry_mono: "comp_inv r s \<Longrightarrow> dom (workers r) \<subseteq> dom (workers r') \<Longrightarrow> comp_inv r' s"
  unfolding comp_inv_def by blast

text \<open>What a step does to the stakes, with the invariant it keeps.\<close>

lemma comp_step_effect:
  assumes "comp_step (r, s) (r', t)" and inv: "comp_inv r s"
  shows "quiet r' s t \<or>
    (\<exists>env a stake. start_computing env a stake s = Some (Inr t) \<and> r' = r \<and> comp_inv r t) \<or>
    (\<exists>env a chk x y. reclaim env a chk s = Inr (t, x, y) \<and> r' = r \<and> comp_inv r t)"
  using assms(1)
proof cases
  case cs_registry
  then have "comp_inv r' s" by (intro comp_inv_registry_mono [OF inv] reg_step_workers_mono)
  with cs_registry show ?thesis by (simp add: quiet_def)
next
  case (cs_bind env a w)
  then show ?thesis using bind_inv [of env a w s t] inv by (simp add: quiet_def)
next
  case (cs_start env a stake)
  from cs_start(2) inv have "comp_inv r t"
    by (cases rule: start_computing_Inr) (rule comp_inv_session_change [OF inv])
  with cs_start show ?thesis by blast
next
  case (cs_force_start env orig a stake)
  then have st: "start_computing env a stake s = Some (Inr t)"
    by (auto simp: force_start_computing_def result_simps)
  from this inv have "comp_inv r t"
    by (cases rule: start_computing_Inr) (rule comp_inv_session_change [OF inv])
  with st cs_force_start show ?thesis by blast
next
  case (cs_reclaim env a chk orig slashed)
  from cs_reclaim(2) inv have "comp_inv r t"
    by (cases rule: reclaim_Inr) (rule comp_inv_session_change [OF inv])
  with cs_reclaim show ?thesis by blast
next
  case (cs_unbind_session env a notify)
  then show ?thesis using unbind_session_Inr [OF cs_unbind_session(2) inv] by (simp add: quiet_def)
next
  case (cs_force_stop env orig a)
  then show ?thesis using inv by (auto simp: force_stop_computing_def result_simps intro: quiet_stop)
qed (use inv in \<open>auto intro: quiet_stop quiet_unbind quiet_working_message quiet_gk_message quiet_core dest: core_ops\<close>)

lemma comp_step_inv: "comp_step (r, s) (r', t) \<Longrightarrow> comp_inv r s \<Longrightarrow> comp_inv r' t"
  using comp_step_effect by (metis quiet_def)

lemma comp_genesis_inv: "comp_inv r (computation_genesis cool_down params b)"
  by (rule comp_invI) (simp_all add: computation_genesis_def computing_sessions_def)

lemma comp_reachable_inv: "comp_reachable x \<Longrightarrow> comp_inv (fst x) (snd x)"
proof (induction rule: comp_reachable.induct)
  case (cr_genesis r cool_down params b)
  show ?case by (simp add: comp_genesis_inv)
next
  case (cr_next x y)
  then show ?case using comp_step_inv by (metis prod.collapse)
qed

section \<open>Properties\<close>

text \<open>
  C13: in every reachable state sessions and workers are bound one to one, a bound session
  has its information and its worker is registered, a session holds a stake exactly while it
  is computing or cooling down, every computing session is bound, and the count of online
  workers that sets the heartbeat rate is the number of computing sessions (modulo the 32
  bits of the counter).
\<close>

theorem session_bookkeeping:
  assumes "comp_reachable (r, s)"
  shows "(\<forall>a w. session_bindings s a = Some w \<longleftrightarrow> worker_bindings s w = Some a) \<and>
    (\<forall>a w. session_bindings s a = Some w \<longrightarrow> sessions s a \<noteq> None \<and> workers r w \<noteq> None) \<and>
    (\<forall>a. stakes s a \<noteq> None \<longleftrightarrow>
       (\<exists>i. sessions s a = Some i \<and> ss_state i \<in> {WorkerIdle, WorkerUnresponsive, WorkerCoolingDown})) \<and>
    computing_sessions s \<subseteq> dom (session_bindings s) \<and>
    online_workers s = of_nat (card (computing_sessions s))"
proof -
  have inv: "comp_inv r s" using comp_reachable_inv [OF assms] by simp
  have st: "ss_state i \<noteq> Ready \<longleftrightarrow> ss_state i \<in> {WorkerIdle, WorkerUnresponsive, WorkerCoolingDown}"
    if "sessions s a = Some i" for a i
    using comp_invD(6) [OF inv that] by (cases "ss_state i") auto
  have "stakes s a \<noteq> None \<longleftrightarrow>
      (\<exists>i. sessions s a = Some i \<and> ss_state i \<in> {WorkerIdle, WorkerUnresponsive, WorkerCoolingDown})" for a
    using comp_invD(5) [OF inv, of a] st by blast
  with inv show ?thesis unfolding comp_inv_def by blast
qed


text \<open>
  C14: the panics that the code excludes with a remark do not happen. In a reachable state
  unbinding never panics; starting a session panics only if a fixed point conversion
  overflows and never reports an existing stake; and a working report panics only for a
  heartbeat of a bound worker in the very second, or before the second, of the challenge it
  last answered.
\<close>

theorem qed_panics_unreachable:
  assumes "comp_reachable (r, s)" and "comp_registry env = r"
  shows "unbind_session env a notify s \<noteq> None \<and> unbind env orig a s \<noteq> None \<and>
    (start_computing env a stake s = None \<longrightarrow>
       (\<exists>t p level. tokenomic_params s = Some t \<and>
          (minimal_stake (fx_ops env) t p = None \<or> tokenomic_ve (fx_ops env) t stake p level = None))) \<and>
    start_computing env a stake s \<noteq> Some (Inl (Module CeInternalErrorCannotStartWithExistingStake)) \<and>
    (on_working_message_received env m s = None \<longrightarrow>
       (\<exists>w b i. dm_sender m = Worker w \<and> worker_bindings s w = Some b \<and> sessions s b = Some i \<and>
          comp_now_sec env \<le> challenge_time_last (ss_benchmark i)))"
proof (intro conjI)
  have inv: "comp_inv r s" using comp_reachable_inv [OF assms(1)] by simp
  have bound: "session_bindings s x = Some w \<Longrightarrow> sessions s x \<noteq> None \<and> workers (comp_registry env) w \<noteq> None" for x w
    using comp_invD(3,4) [OF inv, of x w] assms(2) by auto
  show ub: "unbind_session env a notify s \<noteq> None" for notify
    using bound [of a]
    by (cases "session_bindings s a")
      (auto simp: unbind_session_def ensure_session_bound_def result_simps Let_def split: if_splits)
  then show "unbind env orig a s \<noteq> None" by (auto simp: unbind_def result_simps)
  show "start_computing env a stake s = None \<longrightarrow>
       (\<exists>t p level. tokenomic_params s = Some t \<and>
          (minimal_stake (fx_ops env) t p = None \<or> tokenomic_ve (fx_ops env) t stake p level = None))"
    using bound [of a]
    by (cases "session_bindings s a") (auto simp: start_computing_def get_tokenomic_def result_simps Let_def)
  have "sessions s a = Some i \<Longrightarrow> ss_state i = Ready \<Longrightarrow> stakes s a = None" for i
    using comp_invD(5) [OF inv, of a] by auto
  then show "start_computing env a stake s \<noteq> Some (Inl (Module CeInternalErrorCannotStartWithExistingStake))"
    by (auto simp: start_computing_def get_tokenomic_def result_simps Let_def)
  have hb: "heartbeat env w ct its s = None \<Longrightarrow>
      \<exists>b i. worker_bindings s w = Some b \<and> sessions s b = Some i \<and>
        comp_now_sec env \<le> challenge_time_last (ss_benchmark i)" for w ct its
    using bound [of _ w] comp_invD(2) [OF inv, of _ w]
    by (cases "worker_bindings s w") (auto simp: heartbeat_def ensure_worker_bound_def benchmark_update_def Let_def
        split: option.splits sum.splits if_splits)
  then show "on_working_message_received env m s = None \<longrightarrow>
       (\<exists>w b i. dm_sender m = Worker w \<and> worker_bindings s w = Some b \<and> sessions s b = Some i \<and>
          comp_now_sec env \<le> challenge_time_last (ss_benchmark i))"
    by (cases "dm_sender m"; cases "dm_payload m") (auto simp: on_working_message_received_def)
qed


text \<open>
  C16: the instant performance a heartbeat records is capped at 120 per cent of the initial
  score (exactly, as long as twelve times the score fits 32 bits), a worker whose counter
  went backwards gets zero, and a heartbeat is refused exactly when it is not later than the
  challenge answered before.
\<close>

theorem benchmark_capped:
  assumes "unat (p_init b) * 12 < 2 ^ 32"
  shows "(benchmark_update now its ct b = Inl () \<longleftrightarrow> now \<le> challenge_time_last b) \<and>
    (\<forall>b'. benchmark_update now its ct b = Inr b' \<longrightarrow>
       unat (p_instant b') \<le> unat (p_init b) * 12 div 10 \<and> p_init b' = p_init b \<and>
       challenge_time_last b' = ct \<and> iterations b' = its \<and>
       (its < iterations b \<longrightarrow> p_instant b' = 0))"
proof (intro conjI allI impI)
  show "benchmark_update now its ct b = Inl () \<longleftrightarrow> now \<le> challenge_time_last b"
    by (simp add: benchmark_update_def Let_def)
  fix b'
  assume u: "benchmark_update now its ct b = Inr b'"
  have "unat (p_init b * 12 :: u32) = unat (p_init b) * 12"
    using assms by (simp add: unat_mult_lem [THEN iffD1])
  then have cap: "unat (p_init b * 12 div 10 :: u32) = unat (p_init b) * 12 div 10" by (simp add: unat_div)
  have "p_instant b' \<le> p_init b * 12 div 10"
    using u by (auto simp: benchmark_update_def Let_def split: if_splits)
  then show "unat (p_instant b') \<le> unat (p_init b) * 12 div 10"
    using cap by (simp add: word_le_nat_alt)
  show "p_init b' = p_init b" "challenge_time_last b' = ct" "iterations b' = its"
    using u by (auto simp: benchmark_update_def Let_def split: if_splits)
  show "p_instant b' = 0" if "its < iterations b"
    using u that by (auto simp: benchmark_update_def Let_def split: if_splits)
qed

section \<open>An example run\<close>

text \<open>
  A worker of the genesis gets its score, is bound to the session account 7 and starts with a
  stake of 50. The numbers have no fractional bits.
\<close>

definition example_scored :: "nat registry" where
  "example_scored = fst (the (on_message_received example_registry_env
     \<lparr>dm_sender = Worker [1], dm_destination = Topic [], dm_payload = BenchReport 99000 500\<rparr> example_registry))"

definition example_fx :: fixed_ops where
  "example_fx =
     \<lparr>fx_from_u32 = ucast, fx_decimal = (\<lambda>n d. of_nat n), fx_add = (+), fx_sub = (-), fx_mul = (*), fx_div = (div),
      fx_checked_div = (\<lambda>a b. if b = 0 then None else Some (a div b)), fx_sqrt = (\<lambda>x. x),
      u80f48_from_u64f64 = Some, u80f48_from_u128 = Some, u80f48_mul_int = (\<lambda>x n. Some x),
      u80f48_div_int = (\<lambda>x n. Some x), u80f48_to_u128 = (\<lambda>x. x), u64f64_from_u80f48 = Some,
      u32f32_from_u32 = ucast, u32f32_mul = (*), u32f32_div = (div),
      u32f32_checked_shl = (\<lambda>x n. Some (push_bit n x)), u32f32_to_u32 = ucast\<rparr>"

definition example_params :: tokenomic_parameters where
  "example_params =
     \<lparr>tp_pha_rate = 0, tp_rho = 0, tp_budget_per_block = 0, tp_v_max = 1000, tp_cost_k = 0, tp_cost_b = 0,
      tp_slash_rate = 0, tp_treasury_ratio = 0, tp_heartbeat_window = 10, tp_rig_k = 0, tp_rig_b = 0,
      tp_re = 1, tp_k = 0, tp_kappa = 0\<rparr>"

definition example_comp_env :: "(nat, unit) comp_env" where
  "example_comp_env =
     \<lparr>comp_now_sec = 1000, comp_registry = example_scored, expected_block_time_sec = 12, min_init_p = 100,
      check_worker_register_time = False, update_tokenomic_origin = (\<lambda>orig. orig = Root),
      set_budget_origins = (\<lambda>orig. orig = Root), set_contract_root_origins = (\<lambda>orig. orig = Root),
      comp_governance_origin = (\<lambda>orig. orig = Root), random_seed = 5, fx_ops = example_fx,
      computing_account = 0, currency_withdraw = (\<lambda>_ _ b. Some b), currency_transfer = (\<lambda>_ _ _ b. Some b)\<rparr>"

definition example_comp :: "(nat, unit) computation" where
  "example_comp = computation_genesis 600 example_params ()"

definition example_bound :: "(nat, unit) computation" where
  "example_bound = projr (bind example_comp_env 7 [1] example_comp)"


lemma example_scored_worker:
  "\<exists>w. workers example_scored [1] = Some w \<and> initial_score w = Some 3000"
proof -
  have "\<exists>w. workers example_registry [1] = Some w"
    by (simp add: example_registry_def genesis_build_def genesis_worker_def genesis_gatekeeper_def Let_def
        push_message_def registry_empty_def)
  moreover have "bench_score 100500 99000 500 = Some 3000"
    by (simp add: bench_score_def)
  ultimately show ?thesis
    by (auto simp: example_scored_def on_message_received_def example_registry_env_def Let_def set_score_def)
qed

lemma example_scored_reachable: "reg_reachable example_scored"
proof -
  have "bench_score 100500 99000 500 = Some 3000" by (simp add: bench_score_def)
  then have "on_message_received example_registry_env
     \<lparr>dm_sender = Worker [1], dm_destination = Topic [], dm_payload = BenchReport 99000 500\<rparr> example_registry =
    Some (example_scored, Inr ())"
    by (simp add: example_scored_def on_message_received_def example_registry_env_def Let_def)
  then show ?thesis by (intro reg_next [OF example_registry_reachable] reg_step.intros(17))
qed

lemma example_bound_step: "bind example_comp_env 7 [1] example_comp = Inr example_bound"
  using example_scored_worker
  by (auto simp: example_bound_def bind_def example_comp_env_def example_comp_def computation_genesis_def Let_def)

lemma example_bound_fields:
  "session_bindings example_bound = [7 \<mapsto> [1]]" "sessions example_bound = [7 \<mapsto> new_session 1000]"
  "stakes example_bound = Map.empty" "tokenomic_params example_bound = Some example_params"
  using example_scored_worker
  by (auto simp: example_bound_def bind_def example_comp_env_def example_comp_def computation_genesis_def Let_def
      comp_deposit_def set_session_def)

lemma example_reachable: "comp_reachable (example_scored, example_bound)"
  using cr_next [OF cr_genesis [OF example_scored_reachable] cs_bind [OF example_bound_step [unfolded example_comp_def]]]
  by (simp add: example_comp_env_def)


theorem session_bookkeeping_witness:
  "session_bindings example_bound 7 = Some [1] \<and> worker_bindings example_bound [1] = Some 7 \<and>
   online_workers example_bound = of_nat (card (computing_sessions example_bound))"
proof -
  have "session_bindings example_bound 7 = Some [1]" by (simp add: example_bound_fields)
  with session_bookkeeping [OF example_reachable] show ?thesis by metis
qed


theorem qed_panics_unreachable_witness:
  "unbind_session example_comp_env 7 True example_bound \<noteq> None"
proof -
  have "comp_registry example_comp_env = example_scored" by (simp add: example_comp_env_def)
  from qed_panics_unreachable [OF example_reachable this] show ?thesis by blast
qed



theorem benchmark_capped_witness:
  "benchmark_update 30 900 20 \<lparr>p_init = 100, p_instant = 0, iterations = 0, working_start_time = 0, challenge_time_last = 10\<rparr> =
   Inr \<lparr>p_init = 100, p_instant = 120, iterations = 900, working_start_time = 0, challenge_time_last = 20\<rparr> \<and>
   unat (120 :: u32) \<le> unat (100 :: u32) * 12 div 10"
proof -
  let ?b = "\<lparr>p_init = 100, p_instant = 0, iterations = 0, working_start_time = 0, challenge_time_last = 10\<rparr>"
  let ?b' = "\<lparr>p_init = 100, p_instant = 120, iterations = 900, working_start_time = 0, challenge_time_last = 20\<rparr>"
  have u: "benchmark_update 30 900 20 ?b = Inr ?b'" by (simp add: benchmark_update_def)
  moreover have "unat (p_init ?b) * 12 < 2 ^ 32" by simp
  ultimately show ?thesis using benchmark_capped [of ?b 30 900 20] by simp
qed

end
