(* ===== verification/Pools_Example.thy ===== *)
theory Pools_Example
  imports Pools_System Computation_Safety
begin

text \<open>
  A concrete ledger that satisfies the laws of the NFT and asset pallets, so that the laws are
  consistent and calls of the pools evaluate: items and properties are kept in lists and
  functions, an item is burnt only by its owner, a transfer needs the balance.
\<close>

record demo_ledger =
  dl_items :: "((u32 \<times> u32) \<times> nat) list"
  dl_props :: "u32 \<Rightarrow> u32 \<Rightarrow> string \<Rightarrow> bytes option"
  dl_assets :: "nat \<Rightarrow> balance"

definition demo_own :: "(nat, demo_ledger) owner_map" where
  "demo_own l c n = map_of (dl_items l) (c, n)"

definition demo_transfer :: "nat \<Rightarrow> nat \<Rightarrow> balance \<Rightarrow> demo_ledger \<Rightarrow> demo_ledger option" where
  "demo_transfer a b x l =
     (if x \<le> dl_assets l a
      then let f = (dl_assets l)(a := dl_assets l a - x) in Some (l\<lparr>dl_assets := f(b := f b + x)\<rparr>)
      else None)"

definition demo_env :: "(nat, unit) comp_env \<Rightarrow> (nat, demo_ledger, unit) pools_env" where
  "demo_env ce =
     \<lparr>collection_known = (\<lambda>_ _. True), create_collection = (\<lambda>_ _ _ l. Some l),
      nft_mint = (\<lambda>_ a n c l. Some (l\<lparr>dl_items := ((c, n), a) # dl_items l\<rparr>)),
      nft_burn = (\<lambda>a c n l. if map_of (dl_items l) (c, n) = Some a
        then Some (l\<lparr>dl_items := AList.delete (c, n) (dl_items l)\<rparr>) else None),
      nft_set_lock = (\<lambda>_ _ l. l), nft_lock_remove = (\<lambda>_ l. l),
      nft_property = (\<lambda>c n k l. dl_props l c n k),
      nft_set_property = (\<lambda>c n k v l.
        Some (l\<lparr>dl_props := (\<lambda>d m j. if (d, m, j) = (c, n, k) then Some v else dl_props l d m j)\<rparr>)),
      nft_remove_property = (\<lambda>c n k l.
        l\<lparr>dl_props := (\<lambda>d m j. if (d, m, j) = (c, n, k) then None else dl_props l d m j)\<rparr>),
      owned_in_collection = (\<lambda>c a l.
        map (\<lambda>x. snd (fst x)) (filter (\<lambda>x. fst (fst x) = c \<and> snd x = a) (AList.clearjunk (dl_items l)))),
      asset_balance = (\<lambda>a l. dl_assets l a), asset_maybe_balance = (\<lambda>a l. Some (dl_assets l a)),
      asset_minimum = (\<lambda>_. Some 1), asset_transfer = demo_transfer,
      asset_mint_into = (\<lambda>a x l. Minted (l\<lparr>dl_assets := (dl_assets l)(a := dl_assets l a + x)\<rparr>)),
      asset_burn_from = (\<lambda>a x l.
        let y = min x (dl_assets l a) in Some (y, l\<lparr>dl_assets := (dl_assets l)(a := dl_assets l a - y)\<rparr>)),
      key_limit = 32, value_limit = 128, symbol_limit = 64,
      pool_now_sec = 1000, pool_fx = fixed_std, migration_account = 1,
      pool_blake2_256 = (\<lambda>bs. take 32 bs), encode_account = (\<lambda>a. [of_nat a]),
      decode_account = (\<lambda>bs. if bs = ascii ''basepool'' then 0 else Suc (unat (last bs) + unat (hd bs))),
      permill_mul = (\<lambda>r x. of_nat (unat r * unat x div 1000000)),
      wrapped_account = 2, pha_transfer = (\<lambda>_ _ _ _ b. Some b), pha_slash = (\<lambda>_ _ b. b),
      referendum_ongoing = (\<lambda>i _. i = 0), democracy_vote = (\<lambda>_ _ _ _ l. Some l),
      pool_comp_env = ce,
      min_contribution = 1000, grace_period = 600, max_pool_workers = 10,
      initial_price_check_point = 1000000000000, vault_queue_period = 1200\<rparr>"

lemma demo_env_simps [simp]:
  "collection_known (demo_env ce) = (\<lambda>_ _. True)"
  "create_collection (demo_env ce) = (\<lambda>_ _ _ l. Some l)"
  "nft_mint (demo_env ce) = (\<lambda>_ a n c l. Some (l\<lparr>dl_items := ((c, n), a) # dl_items l\<rparr>))"
  "nft_burn (demo_env ce) = (\<lambda>a c n l. if map_of (dl_items l) (c, n) = Some a then Some (l\<lparr>dl_items := AList.delete (c, n) (dl_items l)\<rparr>) else None)"
  "nft_set_lock (demo_env ce) = (\<lambda>_ _ l. l)"
  "nft_lock_remove (demo_env ce) = (\<lambda>_ l. l)"
  "nft_property (demo_env ce) = (\<lambda>c n k l. dl_props l c n k)"
  "nft_set_property (demo_env ce) = (\<lambda>c n k v l. Some (l\<lparr>dl_props := (\<lambda>d m j. if (d, m, j) = (c, n, k) then Some v else dl_props l d m j)\<rparr>))"
  "nft_remove_property (demo_env ce) = (\<lambda>c n k l. l\<lparr>dl_props := (\<lambda>d m j. if (d, m, j) = (c, n, k) then None else dl_props l d m j)\<rparr>)"
  "owned_in_collection (demo_env ce) = (\<lambda>c a l. map (\<lambda>x. snd (fst x)) (filter (\<lambda>x. fst (fst x) = c \<and> snd x = a) (AList.clearjunk (dl_items l))))"
  "asset_balance (demo_env ce) = (\<lambda>a l. dl_assets l a)"
  "asset_maybe_balance (demo_env ce) = (\<lambda>a l. Some (dl_assets l a))"
  "asset_minimum (demo_env ce) = (\<lambda>_. Some 1)"
  "asset_transfer (demo_env ce) = demo_transfer"
  "asset_mint_into (demo_env ce) = (\<lambda>a x l. Minted (l\<lparr>dl_assets := (dl_assets l)(a := dl_assets l a + x)\<rparr>))"
  "asset_burn_from (demo_env ce) = (\<lambda>a x l. let y = min x (dl_assets l a) in Some (y, l\<lparr>dl_assets := (dl_assets l)(a := dl_assets l a - y)\<rparr>))"
  "key_limit (demo_env ce) = 32"
  "value_limit (demo_env ce) = 128"
  "symbol_limit (demo_env ce) = 64"
  "pool_now_sec (demo_env ce) = 1000"
  "pool_fx (demo_env ce) = fixed_std"
  "migration_account (demo_env ce) = 1"
  "pool_blake2_256 (demo_env ce) = (\<lambda>bs. take 32 bs)"
  "encode_account (demo_env ce) = (\<lambda>a. [of_nat a])"
  "decode_account (demo_env ce) = (\<lambda>bs. if bs = ascii ''basepool'' then 0 else Suc (unat (last bs) + unat (hd bs)))"
  "permill_mul (demo_env ce) = (\<lambda>r x. of_nat (unat r * unat x div 1000000))"
  "wrapped_account (demo_env ce) = 2"
  "pha_transfer (demo_env ce) = (\<lambda>_ _ _ _ b. Some b)"
  "pha_slash (demo_env ce) = (\<lambda>_ _ b. b)"
  "referendum_ongoing (demo_env ce) = (\<lambda>i _. i = 0)"
  "democracy_vote (demo_env ce) = (\<lambda>_ _ _ _ l. Some l)"
  "pool_comp_env (demo_env ce) = ce"
  "min_contribution (demo_env ce) = 1000"
  "grace_period (demo_env ce) = 600"
  "max_pool_workers (demo_env ce) = 10"
  "initial_price_check_point (demo_env ce) = 1000000000000"
  "vault_queue_period (demo_env ce) = 1200"
  by (simp_all add: demo_env_def)

section \<open>The laws hold\<close>

lemma clearjunk_iff: "x \<in> set (AList.clearjunk al) \<longleftrightarrow> map_of al (fst x) = Some (snd x)"
  using map_of_eq_Some_iff [OF distinct_clearjunk [of al], of "fst x" "snd x"] by (simp add: map_of_clearjunk)

lemma demo_owned:
  "distinct (owned_in_collection (demo_env ce) c a l)"
  "set (owned_in_collection (demo_env ce) c a l) = {n. demo_own l c n = Some a}"
proof -
  let ?xs = "filter (\<lambda>x. fst (fst x) = c \<and> snd x = a) (AList.clearjunk (dl_items l))"
  have "distinct (map fst ?xs)" by (rule distinct_map_filter) (rule distinct_clearjunk)
  moreover have "inj_on snd (fst ` set ?xs)" by (auto simp: inj_on_def)
  ultimately have "distinct (map snd (map fst ?xs))" by (simp add: distinct_map comp_inj_on)
  then show "distinct (owned_in_collection (demo_env ce) c a l)" by (simp add: o_def)
  have "n \<in> (\<lambda>x. snd (fst x)) ` set ?xs" if "map_of (dl_items l) (c, n) = Some a" for n
    by (rule image_eqI [where x = "((c, n), a)"]) (simp_all add: clearjunk_iff that)
  then show "set (owned_in_collection (demo_env ce) c a l) = {n. demo_own l c n = Some a}"
    by (auto simp: demo_own_def clearjunk_iff)
qed

lemma demo_item_laws: "item_laws (demo_env ce) demo_own"
  unfolding item_laws_def same_items_def
  by (auto simp: demo_own_def demo_transfer_def Let_def fun_eq_iff delete_conv split: if_split_asm)

lemma demo_ledger_laws: "ledger_laws (demo_env ce) demo_own"
proof -
  have "demo_own l' = (demo_own l)(c := (demo_own l c)(n \<mapsto> a)) \<and>
      (\<forall>c n key. nft_property (demo_env ce) c n key l' = nft_property (demo_env ce) c n key l)"
    if "nft_mint (demo_env ce) i a n c l = Some l'" for i a n c l l'
    using that by (auto simp: demo_own_def fun_eq_iff)
  then show ?thesis unfolding ledger_laws_def using demo_item_laws demo_owned by blast
qed

lemma ascii_prefix: "ascii ''bp/'' @ h \<noteq> ascii ''basepool''"
  by (simp add: ascii_def)

lemma demo_laws: "pools_laws (demo_env ce) demo_own"
  unfolding pools_laws_def
  by (auto simp: demo_ledger_laws)
     (auto simp: same_items_def demo_own_def Let_def fixed_std_laws fun_eq_iff
       generate_staker_account_def pallet_id_def ascii_prefix)

section \<open>A first pool\<close>

text \<open>
  Account 7 creates a stake pool.
\<close>

definition demo_genesis :: "(nat, unit) computation \<Rightarrow> (nat, demo_ledger, unit) pools_state" where
  "demo_genesis cs =
     \<lparr>next_nft_id = (\<lambda>_. 0), pool_count = 0, pool_collections = Map.empty, collection_index = 0, pools = Map.empty,
      nft_locks = {}, pool_contribution_whitelists = Map.empty, pool_descriptions = Map.empty,
      reimbursements = Map.empty,
      ledger = \<lparr>dl_items = [], dl_props = (\<lambda>_ _ _. None), dl_assets = (\<lambda>a. if a = 8 then 10000000000000 else 0)\<rparr>,
      bp_events = [], vote_account_map = (\<lambda>_. []), account_vote_map = (\<lambda>_. []), staker_accounts = Map.empty,
      unmintable_dust = 0, wb_events = [], comp = cs,
      legacy_rewards = Map.empty, worker_assignments = Map.empty, sub_account_preimages = Map.empty,
      sp_events = [], vault_locks = {}, vault_events = []\<rparr>"

definition demo_pool :: "(nat, unit) comp_env \<Rightarrow> balance \<Rightarrow> nat stake_pool" where
  "demo_pool ce x =
     \<lparr>sp_basepool = \<lparr>bp_pid = 0, bp_owner = 7, total_shares = x, total_value = x, withdraw_queue = [],
        value_subscribers = [], bp_cid = 10000, pool_account_id = generate_staker_account (demo_env ce) 0 7\<rparr>,
      payout_commission = None, sp_cap = None, sp_workers = [], cd_workers = [],
      lock_account = snd (generate_owner_and_lock_account (demo_env ce) 0 7),
      owner_reward_account = fst (generate_owner_and_lock_account (demo_env ce) 0 7)\<rparr>"

definition demo_created :: "(nat, unit) comp_env \<Rightarrow> (nat, unit) computation \<Rightarrow> (nat, demo_ledger, unit) pools_state" where
  "demo_created ce cs = (demo_genesis cs)\<lparr>pool_count := 1, collection_index := 10001,
     pools := [0 \<mapsto> ProxyStakePool (demo_pool ce 0)], pool_collections := [10000 \<mapsto> 0],
     sp_events := [PoolCreated 7 0 10000 (generate_staker_account (demo_env ce) 0 7)]\<rparr>"

lemma decimal_0: "decimal 0 = [48]"
  by (simp add: decimal.simps)

lemma demo_create: "sp_create (demo_env ce) (Signed 7) (demo_genesis cs) = Some (Inr (demo_created ce cs))"
  unfolding sp_create_def Let_def demo_created_def demo_pool_def
  by (simp add: demo_genesis_def consume_new_pid_def consume_new_cid_def RESERVE_CID_START_def
      expect_call_def ok_call_def on_ledger_def bounded_def ascii_def decimal_0 insert_pool_def sp_deposit_def
      case_prod_unfold)

end
