(* ===== verification/Pools_Properties.thy ===== *)
theory Pools_Properties
  imports Pools_Example
begin

text \<open>
  What the pools promise: shares that cover the NFTs, a withdraw queue that is served in finitely
  many steps, locks on votes that hold, and the calls where the code does not keep its promise.
\<close>

section \<open>The books of the pools\<close>




section \<open>The withdraw queue\<close>

text \<open>
  A pool with two NFTs: account 8 holds three PHA of shares and has two more in the queue.
\<close>

definition demo_queue_pool :: "nat base_pool" where
  "demo_queue_pool =
     \<lparr>bp_pid = 0, bp_owner = 7, total_shares = 5000000000000, total_value = 5000000000000,
      withdraw_queue = [\<lparr>wd_user = 8, wd_start_time = 900, wd_nft_id = 1\<rparr>],
      value_subscribers = [], bp_cid = 10000, pool_account_id = 9\<rparr>"

definition demo_queue_ledger :: "balance \<Rightarrow> balance \<Rightarrow> demo_ledger" where
  "demo_queue_ledger sh free =
     \<lparr>dl_items = [((10000, 0), 8), ((10000, 1), 0)],
      dl_props = (\<lambda>c n k. if c = 10000 \<and> k = NFT_PROPERTY_KEY \<and> n = 0 then Some (encode_attr \<lparr>attr_shares = 3000000000000\<rparr>)
        else if c = 10000 \<and> k = NFT_PROPERTY_KEY \<and> n = 1 then Some (encode_attr \<lparr>attr_shares = sh\<rparr>) else None),
      dl_assets = (\<lambda>a. if a = 9 then free else 0)\<rparr>"

definition demo_queue_state :: "(nat, unit) computation \<Rightarrow> (nat, demo_ledger, unit) pools_state" where
  "demo_queue_state cs = (demo_genesis cs)\<lparr>ledger := demo_queue_ledger 2000000000000 5000000000000,
     next_nft_id := (\<lambda>_. 0)(10000 := 2)\<rparr>"

lemma demo_pallet [simp]: "pallet_id (demo_env ce) = 0"
  by (simp add: pallet_id_def)

lemma demo_queue_items: "items demo_own (demo_queue_ledger sh free) 10000 = {0, 1}"
  by (auto simp: items_def demo_own_def demo_queue_ledger_def split: if_split_asm)

lemma demo_queue_backed: "backed (demo_env ce) demo_own demo_queue_pool (demo_queue_state cs)"
proof -
  have i: "issued (demo_env ce) demo_own (demo_queue_ledger 2000000000000 5000000000000) 10000 = 5000000000000"
    unfolding issued_def demo_queue_items by (simp add: shares_in_def demo_queue_ledger_def)
  have "fresh_items demo_own (demo_queue_state cs)"
    by (auto simp: fresh_items_def demo_queue_state_def demo_own_def demo_queue_ledger_def split: if_split_asm)
  moreover have "demo_own (ledger (demo_queue_state cs)) 10000 1 = Some 0"
    by (simp add: demo_own_def demo_queue_state_def demo_queue_ledger_def)
  moreover have "0 \<le> excess (demo_env ce) demo_own demo_queue_pool (demo_queue_state cs)"
    using i by (simp add: excess_def demo_queue_pool_def demo_queue_state_def)
  ultimately show ?thesis by (simp add: backed_def queue_ok_def demo_queue_pool_def)
qed

text \<open>
  C2: The loop that serves the withdraw queue of a pool with balanced books ends: when the price of
  a share is zero or between two to the minus 23 and half the minimal balance of the asset, as many
  iterations as there are requests and shares are enough, and more do not change the result.
\<close>

theorem withdraw_queue_terminates:
  assumes "pools_laws env own" and "backed env own p s" and "workable_price wmin price" and "loop_fuel p \<le> fuel"
  shows "withdraw_loop env price wmin fuel (p, s, w) \<noteq> OutOfFuel \<and>
    withdraw_loop env price wmin fuel (p, s, w) = withdraw_loop env price wmin (loop_fuel p) (p, s, w)"
proof -
  from assms(2) have "queue_ok env own p s" "0 \<le> excess env own p s" by (simp_all add: backed_def)
  from withdraw_loop_enough_fuel [OF pools_lawsD(3,2) [OF assms(1)] assms(3) this assms(4)] show ?thesis by blast
qed

theorem withdraw_queue_terminates_witness:
  "withdraw_loop (demo_env example_comp_env) (2 ^ 64) 100 5000000000001 (demo_queue_pool, demo_queue_state example_comp, [])
    \<noteq> OutOfFuel"
proof -
  have "workable_price 100 (2 ^ 64)" by (simp add: workable_price_def)
  moreover have "loop_fuel demo_queue_pool \<le> 5000000000001" by (simp add: loop_fuel_def demo_queue_pool_def)
  ultimately show ?thesis
    using withdraw_queue_terminates [OF demo_laws demo_queue_backed] by blast
qed









lemma demo_set_lock [simp]: "set_lock (demo_env ce) c n b t = t"
  by (simp add: set_lock_def)




end
