(* ===== verification/Pools_Promises.thy ===== *)
theory Pools_Promises
  imports Pools_Properties
begin

text \<open>
  Promises to the user: attributes that read back, whitelists, locks of votes, and where the
  arithmetic of the wrapped balances and the claim of owner shares break them.
\<close>

section \<open>Attributes and whitelists\<close>

text \<open>
  C29: The attribute written to an NFT is the one read back, and the attributes of other NFTs stay.
\<close>

theorem nft_attr_roundtrip:
  assumes "item_laws env own" and "set_nft_attr env c n attr s = Some (Inr s')"
  shows "get_nft_attr env c n s' = Some (Inr attr) \<and>
    ((d, m) \<noteq> (c, n) \<longrightarrow> get_nft_attr env d m s' = get_nft_attr env d m s)"
proof -
  from assms(2) obtain l where k: "length NFT_PROPERTY_KEY \<le> key_limit env"
    and l: "nft_set_property env c n NFT_PROPERTY_KEY (encode_attr attr) (ledger (set_lock env c n False s)) = Some l"
    and s': "s' = set_lock env c n True ((set_lock env c n False s)\<lparr>ledger := l\<rparr>)"
    by (auto simp: set_nft_attr_def result_simps)
  note p = ledger_set_property [OF assms(1) l]
  have r: "nft_property env d m NFT_PROPERTY_KEY (ledger s') =
      (if (d, m) = (c, n) then Some (encode_attr attr) else nft_property env d m NFT_PROPERTY_KEY (ledger s))" for d m
    using assms(1) l unfolding s' item_laws_def
    by (auto simp: set_lock_effect(3) [OF assms(1)])
  show ?thesis
    using k by (simp add: get_nft_attr_def r bounded_key_def expect_call_def)
qed

theorem nft_attr_roundtrip_witness:
  "\<exists>s'. set_nft_attr (demo_env example_comp_env) 10000 0 \<lparr>attr_shares = 77\<rparr> (demo_queue_state example_comp) = Some (Inr s') \<and>
    get_nft_attr (demo_env example_comp_env) 10000 0 s' = Some (Inr \<lparr>attr_shares = 77\<rparr>)"
proof -
  have "\<exists>s'. set_nft_attr (demo_env example_comp_env) 10000 0 \<lparr>attr_shares = 77\<rparr> (demo_queue_state example_comp) = Some (Inr s')"
    by (simp add: set_nft_attr_def expect_call_def bounded_key_def bounded_def NFT_PROPERTY_KEY_def encode_attr_def
        le_bytes_def on_ledger_def ok_call_def)
  with nft_attr_roundtrip [OF demo_item_laws] show ?thesis by blast
qed

definition whitelists_wf :: "('acc, 'led, 'z) base_pool_state_scheme \<Rightarrow> bool" where
  "whitelists_wf s \<longleftrightarrow>
     (\<forall>p wl. pool_contribution_whitelists s p = Some wl \<longrightarrow> wl \<noteq> [] \<and> distinct wl \<and> length wl \<le> unat MAX_WHITELIST_LEN)"

lemma whitelists_wf_update:
  assumes "whitelists_wf s" and "pool_contribution_whitelists s' = (pool_contribution_whitelists s)(p \<mapsto> wl)"
    and "wl \<noteq> []" "distinct wl" "length wl \<le> 100"
  shows "whitelists_wf s'"
  using assms unfolding whitelists_wf_def MAX_WHITELIST_LEN_def by simp

lemma whitelists_wf_delete:
  assumes "whitelists_wf s" and "pool_contribution_whitelists s' = (pool_contribution_whitelists s)(p := None)"
  shows "whitelists_wf s'"
  using assms unfolding whitelists_wf_def by simp

lemma whitelists_wfD:
  assumes "whitelists_wf s" and "pool_contribution_whitelists s p = Some wl"
  shows "wl \<noteq> []" "distinct wl" "length wl \<le> 100"
  using assms unfolding whitelists_wf_def MAX_WHITELIST_LEN_def by auto

text \<open>
  C28: Whitelists are well formed: never empty, without repetition and at most 100 long. Adding and
  removing a staker keeps them so, adds exactly that staker and removes exactly that staker.
\<close>

theorem whitelists_well_formed:
  assumes "whitelists_wf s"
  shows "(add_staker_to_whitelist orig p a s = Inr s' \<longrightarrow> whitelists_wf s' \<and>
      (\<exists>wl. pool_contribution_whitelists s' p = Some wl \<and>
         set wl = insert a (case pool_contribution_whitelists s p of None \<Rightarrow> {} | Some wl0 \<Rightarrow> set wl0))) \<and>
    (remove_staker_from_whitelist orig p a s = Inr s' \<longrightarrow> whitelists_wf s' \<and>
      (case pool_contribution_whitelists s' p of None \<Rightarrow> {} | Some wl \<Rightarrow> set wl)
        = (case pool_contribution_whitelists s p of None \<Rightarrow> {} | Some wl0 \<Rightarrow> set wl0) - {a})"
proof -
  have add: "whitelists_wf s' \<and> (\<exists>wl. pool_contribution_whitelists s' p = Some wl \<and>
       set wl = insert a (case pool_contribution_whitelists s p of None \<Rightarrow> {} | Some wl0 \<Rightarrow> set wl0))"
    if "add_staker_to_whitelist orig p a s = Inr s'"
  proof (cases "pool_contribution_whitelists s p")
    case None
    with that have "pool_contribution_whitelists s' = (pool_contribution_whitelists s)(p \<mapsto> [a])"
      by (auto simp: add_staker_to_whitelist_def result_simps bp_deposit_def)
    with whitelists_wf_update [OF assms this] None show ?thesis by simp
  next
    case (Some wl)
    note W = whitelists_wfD [OF assms Some]
    from that Some have s': "pool_contribution_whitelists s' = (pool_contribution_whitelists s)(p \<mapsto> wl @ [a])"
      and a: "a \<notin> set wl" and l: "(of_nat (length wl) :: u32) < 100"
      by (auto simp: add_staker_to_whitelist_def result_simps bp_deposit_def MAX_WHITELIST_LEN_def)
    have "unat (of_nat (length wl) :: u32) = length wl" using W(3) by (intro unat_of_nat_small) simp
    with l have "length wl < 100" by (simp add: word_less_nat_alt)
    with whitelists_wf_update [OF assms s'] W a Some s' show ?thesis by simp
  qed
  have rem: "whitelists_wf s' \<and> (case pool_contribution_whitelists s' p of None \<Rightarrow> {} | Some wl \<Rightarrow> set wl)
      = (case pool_contribution_whitelists s p of None \<Rightarrow> {} | Some wl0 \<Rightarrow> set wl0) - {a}"
    if "remove_staker_from_whitelist orig p a s = Inr s'"
  proof -
    from that obtain wl where wl: "pool_contribution_whitelists s p = Some wl"
      by (auto simp: remove_staker_from_whitelist_def result_simps)
    note W = whitelists_wfD [OF assms wl]
    let ?wl = "filter (\<lambda>x. x \<noteq> a) wl"
    have s': "pool_contribution_whitelists s' = (pool_contribution_whitelists s)(p := (if ?wl = [] then None else Some ?wl))"
      using that wl by (cases "?wl = []") (auto simp: remove_staker_from_whitelist_def result_simps bp_deposit_def Let_def)
    have len: "length ?wl \<le> 100" using length_filter_le [of "\<lambda>x. x \<noteq> a" wl] W(3) by (rule le_trans)
    show ?thesis
    proof (cases "?wl = []")
      case True
      with s' whitelists_wf_delete [OF assms] wl show ?thesis by (auto simp: filter_empty_conv)
    next
      case False
      with s' whitelists_wf_update [OF assms, of s' p ?wl] wl W len show ?thesis by auto
    qed
  qed
  from add rem show ?thesis by blast
qed

theorem whitelists_well_formed_witness:
  "\<exists>s'. add_staker_to_whitelist (Signed 7) 0 5 (demo_created example_comp_env example_comp) = Inr s' \<and> whitelists_wf s'"
proof -
  have wf: "whitelists_wf (demo_created example_comp_env example_comp)"
    by (simp add: whitelists_wf_def demo_created_def demo_genesis_def)
  obtain s' where s': "add_staker_to_whitelist (Signed 7) 0 5 (demo_created example_comp_env example_comp) = Inr s'"
    by (simp add: add_staker_to_whitelist_def ensure_pool_owner_def demo_created_def demo_genesis_def demo_pool_def)
  with whitelists_well_formed [OF wf, of "Signed 7" 0 5 s'] show ?thesis by simp
qed

section \<open>Locks and votes\<close>


definition demo_voter :: "balance \<Rightarrow> balance \<Rightarrow> (nat, demo_ledger, unit) pools_state" where
  "demo_voter free lock = (demo_genesis example_comp)\<lparr>staker_accounts := [8 \<mapsto> \<lparr>fa_invest_pools = [], fa_locked = lock\<rparr>],
     ledger := \<lparr>dl_items = [], dl_props = (\<lambda>_ _ _. None), dl_assets = (\<lambda>a. if a = 8 then free else 0)\<rparr>\<rparr>"

lemma demo_voter_simps:
  "get_net_value (demo_env ce) 8 (demo_voter free lock) = Some (Inr (free, demo_voter free lock))"
  "locked_of 8 (demo_voter free lock) = lock"
  "asset_balance (demo_env ce) 8 (ledger (demo_voter free lock)) = free"
  "dl_assets (ledger (demo_voter free lock)) 8 = free"
  by (simp_all add: get_net_value_def demo_voter_def ok_call_def locked_of_def)


text \<open>
  C24: Unwrapping everything ignores the lock of votes when the lock exceeds the net value, which
  does not count shares waiting in withdraw queues: the difference wraps around and the whole free
  balance is paid out and burnt.
\<close>

theorem unwrap_all_ignores_lock:
  assumes "get_net_value env u s = Some (Inr (v, s))" and "v < locked_of u s"
    and "unat (asset_balance env u (ledger s)) + unat (locked_of u s) \<le> 2 ^ 128 + unat v"
  shows "unwrap_all env (Signed u) s =
    bind_call (move_pha env False (wrapped_account env) u (asset_balance env u (ledger s)) s)
      (burn_from env u (asset_balance env u (ledger s)))"
proof -
  have "unat (v - locked_of u s) = unat v + 2 ^ 128 - unat (locked_of u s)"
    using assms(2) by (simp add: unat_sub_if' word_less_nat_alt)
  then have "asset_balance env u (ledger s) \<le> v - locked_of u s"
    using assms(3) by (simp add: word_le_nat_alt)
  then have "min (v - locked_of u s) (asset_balance env u (ledger s)) = asset_balance env u (ledger s)"
    by (simp add: min_def)
  with assms(1) show ?thesis by (simp add: unwrap_all_def Let_def)
qed

theorem unwrap_all_ignores_lock_witness:
  "\<exists>s'. unwrap_all (demo_env example_comp_env) (Signed 8) (demo_voter 100 4000) = Some (Inr s') \<and>
    asset_balance (demo_env example_comp_env) 8 (ledger s') = 0 \<and> locked_of 8 s' = 4000"
proof -
  have "unwrap_all (demo_env example_comp_env) (Signed 8) (demo_voter 100 4000) =
    bind_call (move_pha (demo_env example_comp_env) False 2 8 100 (demo_voter 100 4000))
      (burn_from (demo_env example_comp_env) 8 100)"
    using unwrap_all_ignores_lock [OF demo_voter_simps(1) [of example_comp_env 100 4000]]
    by (simp add: demo_voter_simps(2-4))
  then show ?thesis
    by (simp add: move_pha_def burn_from_def ok_call_def demo_voter_def locked_of_def)
qed

lemma max_locked_ge: "max_locked u votes ids m = Some k \<Longrightarrow> m \<le> k"
proof (induction ids arbitrary: m)
  case (Cons j ids)
  then obtain x y where "max_locked u votes ids (max m (x + y)) = Some k" by (auto split: option.split_asm)
  from Cons.IH [OF this] show ?case by simp
qed simp

lemma max_locked_vote:
  "max_locked u votes ids m = Some k \<Longrightarrow> i \<in> set ids \<Longrightarrow> map_of (votes i) u = Some (x, y) \<Longrightarrow> x + y \<le> k"
proof (induction ids arbitrary: m)
  case (Cons j ids)
  show ?case
  proof (cases "j = i")
    case True
    with Cons.prems have "max_locked u votes ids (max m (x + y)) = Some k" by simp
    from max_locked_ge [OF this] show ?thesis by simp
  next
    case False
    with Cons show ?thesis by (auto split: option.split_asm)
  qed
qed simp

text \<open>
  C25: An accepted vote whose two amounts add up without overflow is at most the net value of the
  voter, is recorded, and locks at least its amount.
\<close>

theorem vote_locks_stake:
  assumes "get_net_value env u s = Some (Inr (v, s))" and "wb_vote env (Signed u) aye nay i s = Some (Inr s')"
    and "unat aye + unat nay < 2 ^ 128"
  shows "unat aye + unat nay \<le> unat v \<and> map_of (vote_account_map s' i) u = Some (aye, nay) \<and>
    unat aye + unat nay \<le> unat (locked_of u s')"
proof -
  have sum: "unat (aye + nay) = unat aye + unat nay" by (rule unat_add_bounded) (use assms(3) in simp)
  let ?s = "record_vote u i aye nay s"
  from assms(1,2) obtain l s2 where le: "aye + nay \<le> v"
    and up: "update_user_locked u (?s\<lparr>ledger := l\<rparr>) = Some (Inr s2)" and s': "s' = wb_deposit (Voted u i aye nay) s2"
    unfolding wb_vote_def Let_def case_prod_unfold by (auto simp: result_simps)
  have m: "map_of (vote_account_map ?s i) u = Some (aye, nay)" by (simp add: record_vote_def update_conv')
  have i: "i \<in> set (account_vote_map ?s u)" by (simp add: record_vote_def)
  from up obtain k st where k: "max_locked u (vote_account_map ?s) (account_vote_map ?s u) 0 = Some k"
    and s2: "s2 = ?s\<lparr>ledger := l, staker_accounts := (staker_accounts ?s)(u \<mapsto> st\<lparr>fa_locked := k\<rparr>)\<rparr>"
    by (auto simp: update_user_locked_def result_simps)
  have "aye + nay \<le> k" by (rule max_locked_vote [OF k i m])
  with le m sum show ?thesis by (simp add: s' s2 wb_deposit_def locked_of_def word_le_nat_alt)
qed

lemma demo_vote:
  assumes "x + y \<le> free"
  shows "\<exists>s'. wb_vote (demo_env example_comp_env) (Signed 8) x y 0 (demo_voter free 0) = Some (Inr s') \<and>
    map_of (vote_account_map s' 0) 8 = Some (x, y) \<and> locked_of 8 s' = x + y"
  using assms
  by (simp add: wb_vote_def demo_voter_simps case_prod_unfold on_ledger_def ok_call_def)
     (simp add: demo_voter_def record_vote_def demo_genesis_def update_user_locked_def expect_call_def wb_deposit_def
       locked_of_def ok_call_def)

theorem vote_locks_stake_witness:
  "\<exists>s'. wb_vote (demo_env example_comp_env) (Signed 8) 30 20 0 (demo_voter 100 0) = Some (Inr s') \<and>
    unat (30 :: balance) + unat (20 :: balance) \<le> unat (locked_of 8 s')"
proof -
  obtain s' where s': "wb_vote (demo_env example_comp_env) (Signed 8) 30 20 0 (demo_voter 100 0) = Some (Inr s')"
    using demo_vote [of 30 20 100] by auto
  from vote_locks_stake [OF demo_voter_simps(1) s'] have "unat (30 :: balance) + unat (20 :: balance) \<le> unat (locked_of 8 s')"
    by simp
  with s' show ?thesis by blast
qed


text \<open>
  C27: The tally of a referendum is the sum of the recorded amounts, as long as the sums fit into 128
  bits.
\<close>

theorem vote_tally_exact:
  assumes "(\<Sum>(_, aye, _)\<leftarrow>vote_account_map s i. unat aye) < 2 ^ 128"
    and "(\<Sum>(_, _, nay)\<leftarrow>vote_account_map s i. unat nay) < 2 ^ 128"
  shows "unat (fst (accumulate_account_vote i s)) = (\<Sum>(_, aye, _)\<leftarrow>vote_account_map s i. unat aye) \<and>
    unat (snd (accumulate_account_vote i s)) = (\<Sum>(_, _, nay)\<leftarrow>vote_account_map s i. unat nay)"
proof -
  have "unat (fst (fold (\<lambda>(_, aye, nay) (ta, tn). (ta + aye, tn + nay)) xs (a, b)))
        = unat a + (\<Sum>(_, aye, _)\<leftarrow>xs. unat aye) \<and>
      unat (snd (fold (\<lambda>(_, aye, nay) (ta, tn). (ta + aye, tn + nay)) xs (a, b)))
        = unat b + (\<Sum>(_, _, nay)\<leftarrow>xs. unat nay)"
    if "unat a + (\<Sum>(_, aye, _)\<leftarrow>xs. unat aye) < 2 ^ 128" "unat b + (\<Sum>(_, _, nay)\<leftarrow>xs. unat nay) < 2 ^ 128"
    for xs :: "('a \<times> balance \<times> balance) list" and a b
    using that
  proof (induction xs arbitrary: a b)
    case (Cons x xs)
    obtain u aye nay where x: "x = (u, aye, nay)" by (cases x)
    have "unat (a + aye) = unat a + unat aye" "unat (b + nay) = unat b + unat nay"
      using Cons.prems by (auto simp: x intro!: unat_add_bounded)
    with Cons show ?case by (simp add: x)
  qed simp
  from this [of 0 "vote_account_map s i" 0] assms show ?thesis by (simp add: accumulate_account_vote_def)
qed

theorem vote_tally_exact_witness:
  "unat (fst (accumulate_account_vote 3 ((demo_genesis example_comp)\<lparr>vote_account_map := (\<lambda>_. [(7, 5, 1), (8, 6, 0)])\<rparr>))) = 11"
  using vote_tally_exact [where i = 3 and s = "(demo_genesis example_comp)\<lparr>vote_account_map := (\<lambda>_. [(7, 5, 1), (8, 6, 0)])\<rparr>"]
  by simp

section \<open>Owner shares for the pallet\<close>

text \<open>
  C22: The owner of a vault may claim owner shares for any account, the pallet's own included. Then
  all NFTs of the pallet in the collection of the vault, those of the waiting withdraw requests, are
  merged into a new one: the requests stay in the queue, but none of them has its NFT any more.
\<close>

theorem claim_for_pallet_breaks_queue:
  assumes laws: "pools_laws env own" and b: "books_ok env own s" and v: "pools s p = Some (ProxyVault v)"
    and c: "claim_owner_shares env orig p (pallet_id env) sh s = Some (Inr s')"
    and wd: "wd \<in> set (withdraw_queue (v_basepool v))"
  shows "own (ledger s') (bp_cid (v_basepool v)) (wd_nft_id wd) = None \<and>
    (\<exists>v'. pools s' p = Some (ProxyVault v') \<and> wd \<in> set (withdraw_queue (v_basepool v')))"
proof -
  let ?c = "bp_cid (v_basepool v)" and ?k = "wd_nft_id wd"
  note L = pools_lawsD(1) [OF laws]
  from c v obtain who n s1 r s2 where le: "sh \<le> owner_shares v" and m: "mint_nft env ?c (pallet_id env) sh p s = Some (Inr (n, s1))"
    and g: "merge_nft_for_staker env ?c (pallet_id env) (bp_pid (v_basepool v)) s1 = Some (Inr (r, s2))"
    and s': "s' = v_deposit (OwnerSharesClaimed p who sh) (insert_pool p (ProxyVault (v\<lparr>owner_shares := owner_shares v - sh\<rparr>))
       (maybe_subscribe_to_pool who p ?c s2))"
    unfolding claim_owner_shares_def Let_def by (auto simp: result_simps)
  have px: "proxy_ok env own p (ProxyVault v) s" by (rule books_okD(2) [OF b v])
  then have k: "own (ledger s) ?c ?k = Some (pallet_id env)" and ex: "uint (owner_shares v) \<le> excess env own (v_basepool v) s"
    using wd by (auto simp: proxy_ok_def covered_def queue_ok_def)
  note me = mint_nft_effect [OF L m] and md = mint_nft_delta [OF L books_okD(1) [OF b] m]
  have ne: "?k \<noteq> n" using k md(3) by auto
  have own1: "own (ledger s1) ?c ?k = Some (pallet_id env)" "own (ledger s1) ?c n = Some (pallet_id env)"
    using k ne me(5) by auto
  let ?ns = "owned_in_collection env ?c (pallet_id env) (ledger s1)"
  have ns: "?k \<in> set ?ns" "n \<in> set ?ns" using own1 ledger_owned [OF L] by auto
  then obtain x y zs where xs: "?ns = x # y # zs" using ne by (cases ?ns rule: remdups_adj.cases) auto
  with g obtain t s3 n2 where f: "fold_call (merge_one env ?c (pallet_id env)) ?ns (0, s1) = Some (Inr (t, s3))"
    and m2: "mint_nft env ?c (pallet_id env) t (bp_pid (v_basepool v)) s3 = Some (Inr (n2, s2))"
    unfolding merge_nft_for_staker_def by (auto simp: result_simps)
  have "uint sh \<le> uint (owner_shares v)" using le by (simp add: word_le_def)
  then have "int (issued env own (ledger s1) ?c) \<le> uint (total_shares (v_basepool v))"
    using ex nft_deltaD(5) [OF md(1)] by (simp add: excess_def)
  also have "\<dots> < 2 ^ 128" using uint_lt2p [of "total_shares (v_basepool v)"] by simp
  finally have "issued env own (ledger s1) ?c < 2 ^ 128" by simp
  then have fe: "ledger_only s1 s3 \<and> (\<forall>m. own (ledger s3) ?c m = (if m \<in> set ?ns then None else own (ledger s1) ?c m))"
    using merge_fold_effect [OF pools_lawsD(3) [OF laws] f ledger_distinct [OF L]] ledger_owned [OF L] by simp
  have burnt: "own (ledger s3) ?c ?k = None" and nx: "next_nft_id s3 = next_nft_id s1"
    using fe ns(1) ledger_onlyD(1) by auto
  have "?k < next_nft_id s ?c" using books_okD(1) [OF b] k by (auto simp: fresh_items_def)
  moreover have "n2 = next_nft_id s ?c + 1" using mint_nft_effect(2) [OF L m2] nx me(2,4) by simp
  moreover have "next_nft_id s ?c < next_nft_id s ?c + 1"
    using unat_inc [OF me(3)] me(2) by (simp add: word_less_nat_alt)
  ultimately have "n2 \<noteq> ?k" by auto
  then have "own (ledger s2) ?c ?k = None" using burnt mint_nft_effect(5) [OF L m2] by simp
  moreover have "ledger s' = ledger s2" by (simp add: s' v_deposit_def maybe_subscribe_to_pool_def Let_def)
  ultimately show ?thesis using wd by (simp add: s')
qed


text \<open>A vault with one unclaimed unit of shares and one waiting request.\<close>

definition demo_vault :: "nat vault" where
  "demo_vault = \<lparr>v_basepool = demo_queue_pool\<lparr>total_shares := 5000000000001\<rparr>, last_share_price_checkpoint = 1,
     v_commission = None, owner_shares = 1, invest_pools = []\<rparr>"

definition demo_vault_state :: "(nat, demo_ledger, unit) pools_state" where
  "demo_vault_state = (demo_queue_state example_comp)\<lparr>pools := [0 \<mapsto> ProxyVault demo_vault], collection_index := 10001\<rparr>"

lemma demo_vault_books: "books_ok (demo_env ce) demo_own demo_vault_state"
proof -
  note bk = demo_queue_backed [of ce example_comp]
  have "issued (demo_env ce) demo_own (ledger demo_vault_state) 10000 \<le> 5000000000000"
    using issued_le_total [OF bk] by (simp add: demo_queue_pool_def demo_vault_state_def)
  then have "1 \<le> excess (demo_env ce) demo_own (v_basepool demo_vault) demo_vault_state"
    by (simp add: excess_def demo_vault_def demo_queue_pool_def)
  moreover have "queue_ok (demo_env ce) demo_own (v_basepool demo_vault) demo_vault_state"
    using bk by (simp add: backed_def queue_ok_def demo_vault_def demo_vault_state_def fresh_items_def)
  ultimately have "proxy_ok (demo_env ce) demo_own 0 (ProxyVault demo_vault) demo_vault_state"
    by (simp add: proxy_ok_def covered_def demo_vault_def demo_queue_pool_def next_cid_def demo_vault_state_def RESERVE_CID_START_def)
  moreover have "fresh_items demo_own demo_vault_state"
    using bk by (simp add: backed_def queue_ok_def demo_vault_state_def fresh_items_def)
  moreover have "demo_own (ledger demo_vault_state) c n = None" if "next_cid demo_vault_state \<le> c" for c n
    using that by (auto simp: demo_own_def demo_vault_state_def demo_queue_state_def demo_queue_ledger_def next_cid_def RESERVE_CID_START_def)
  ultimately show ?thesis by (simp add: books_ok_def demo_vault_state_def)
qed

lemma demo_mint:
  assumes "next_nft_id s c \<noteq> - 1"
  shows "\<exists>s'. mint_nft (demo_env ce) c a sh p s = Some (Inr (next_nft_id s c, s')) \<and>
    dl_items (ledger s') = ((c, next_nft_id s c), a) # dl_items (ledger s) \<and> nft_locks s' = nft_locks s \<and>
    next_nft_id s' = (next_nft_id s)(c := next_nft_id s c + 1) \<and>
    (\<forall>m. dl_props (ledger s') c m NFT_PROPERTY_KEY =
       (if m = next_nft_id s c then Some (encode_attr \<lparr>attr_shares = sh\<rparr>) else dl_props (ledger s) c m NFT_PROPERTY_KEY))"
  using assms
  by (simp add: mint_nft_def get_next_nft_id_def set_nft_attr_def set_nft_desc_attr_def on_ledger_def Let_def ok_call_def
      expect_call_def bounded_key_def bounded_def encode_attr_def le_bytes_def bp_deposit_def)
     (simp add: NFT_PROPERTY_KEY_def CREATETIME_KEY_def decimal.simps)

lemma demo_merge_one:
  assumes "(c, n) \<notin> nft_locks s" and "dl_props (ledger s) c n NFT_PROPERTY_KEY = Some (encode_attr attr)"
    and "map_of (dl_items (ledger s)) (c, n) = Some a"
  shows "\<exists>s'. merge_one (demo_env ce) c a n (t, s) = Some (Inr (t + attr_shares attr, s')) \<and>
    dl_items (ledger s') = AList.delete (c, n) (dl_items (ledger s)) \<and> nft_locks s' = nft_locks s \<and>
    next_nft_id s' = next_nft_id s \<and>
    (\<forall>m. dl_props (ledger s') c m NFT_PROPERTY_KEY = dl_props (ledger s) c m NFT_PROPERTY_KEY)"
proof -
  have k: "length NFT_PROPERTY_KEY \<le> 32" "length CREATETIME_KEY \<le> 32" "CREATETIME_KEY \<noteq> NFT_PROPERTY_KEY"
    by (simp_all add: NFT_PROPERTY_KEY_def CREATETIME_KEY_def)
  have "get_nft_attr (demo_env ce) c n s = Some (Inr attr)"
    using assms(2) k by (simp add: get_nft_attr_def expect_call_def bounded_key_def)
  then have "peek_nft (demo_env ce) c n s = Some (Inr (attr, s))"
    using assms(1) by (simp add: peek_nft_def get_nft_attr_guard_def guard_drop_def ok_call_def)
  then show ?thesis
    using assms(3) k
    by (simp add: unwrap_call_def burn_nft_def remove_properties_def expect_call_def bounded_key_def ok_call_def)
qed

lemma demo_claim: "\<exists>s'. claim_owner_shares (demo_env ce) (Signed 7) 0 0 1 demo_vault_state = Some (Inr s')"
proof -
  let ?s = "demo_vault_state"
  have st: "next_nft_id ?s 10000 = 2" "nft_locks ?s = {}" "dl_items (ledger ?s) = [((10000, 0), 8), ((10000, 1), 0)]"
    "dl_props (ledger ?s) 10000 1 NFT_PROPERTY_KEY = Some (encode_attr \<lparr>attr_shares = 2000000000000\<rparr>)"
    by (simp_all add: demo_vault_state_def demo_queue_state_def demo_genesis_def demo_queue_ledger_def)
  obtain s1 where m: "mint_nft (demo_env ce) 10000 0 1 0 ?s = Some (Inr (2, s1))"
    and s1: "dl_items (ledger s1) = [((10000, 2), 0), ((10000, 0), 8), ((10000, 1), 0)]" "nft_locks s1 = {}"
      "next_nft_id s1 10000 = 3" "dl_props (ledger s1) 10000 2 NFT_PROPERTY_KEY = Some (encode_attr \<lparr>attr_shares = 1\<rparr>)"
      "dl_props (ledger s1) 10000 1 NFT_PROPERTY_KEY = Some (encode_attr \<lparr>attr_shares = 2000000000000\<rparr>)"
    using demo_mint [of ?s 10000 ce 0 1 0] st by auto
  have ow: "owned_in_collection (demo_env ce) 10000 0 (ledger s1) = [2, 1]" by (simp add: s1 AList.delete_eq)
  obtain s2 where f1: "merge_one (demo_env ce) 10000 0 2 (0, s1) = Some (Inr (1, s2))"
    and s2: "dl_items (ledger s2) = [((10000, 0), 8), ((10000, 1), 0)]" "nft_locks s2 = {}" "next_nft_id s2 10000 = 3"
      "dl_props (ledger s2) 10000 1 NFT_PROPERTY_KEY = Some (encode_attr \<lparr>attr_shares = 2000000000000\<rparr>)"
    using demo_merge_one [of 10000 2 s1 "\<lparr>attr_shares = 1\<rparr>" 0 ce 0] s1 by (auto simp: AList.delete_eq)
  obtain s3 where f2: "merge_one (demo_env ce) 10000 0 1 (1, s2) = Some (Inr (2000000000001, s3))"
    and s3: "next_nft_id s3 10000 = 3"
    using demo_merge_one [of 10000 1 s2 "\<lparr>attr_shares = 2000000000000\<rparr>" 0 ce 1] s2 by auto
  obtain s4 where m2: "mint_nft (demo_env ce) 10000 0 2000000000001 0 s3 = Some (Inr (3, s4))"
    using demo_mint [of s3 10000 ce 0 2000000000001 0] s3 by auto
  have "merge_nft_for_staker (demo_env ce) 10000 0 0 s1 = Some (Inr (Some 3, s4))"
    unfolding merge_nft_for_staker_def ow by (simp add: f1 f2 m2 ok_call_def del: merge_one.simps)
  with m show ?thesis
    by (simp add: claim_owner_shares_def Let_def ok_call_def ensure_vault_def demo_vault_state_def demo_vault_def demo_queue_pool_def)
qed

theorem claim_for_pallet_breaks_queue_witness:
  "\<exists>s'. claim_owner_shares (demo_env example_comp_env) (Signed 7) 0 0 1 demo_vault_state = Some (Inr s') \<and>
    demo_own (ledger s') 10000 1 = None"
proof -
  obtain s' where s': "claim_owner_shares (demo_env example_comp_env) (Signed 7) 0 0 1 demo_vault_state = Some (Inr s')"
    using demo_claim by blast
  have "pools demo_vault_state 0 = Some (ProxyVault demo_vault)" by (simp add: demo_vault_state_def)
  from claim_for_pallet_breaks_queue [OF demo_laws demo_vault_books this] s'
  have "demo_own (ledger s') 10000 1 = None" by (simp add: demo_vault_def demo_queue_pool_def)
  with s' show ?thesis by blast
qed

end
