(* ===== verification/Phat.thy ===== *)
theory Phat
  imports Registry_Safety Fixed_Point
begin

text \<open>
  The registry of contracts and clusters, \<^verbatim>\<open>pallets/cyrux/src/phat.rs\<close>, with the types of
  \<^verbatim>\<open>crates/cyrux-types/src/contract.rs\<close>: clusters of workers, the contracts instantiated in
  them, deposits into a cluster and the code of the system contract. Accounts are 32 bytes
  (\<open>AccountId32\<close>), and so are the identifiers of clusters and contracts (\<open>H256\<close>). The
  currency is an operation over an abstract ledger.
\<close>

section \<open>Identifiers\<close>

type_synonym account_id = bytes
type_synonym contract_h256 = bytes
type_synonym cluster_id = bytes
type_synonym u16 = "16 word"

text \<open>\<open>H256::from_low_u64_be\<close>: 24 zero bytes, then the number with its high byte first.\<close>

definition from_low_u64_be :: "u64 \<Rightarrow> cluster_id" where
  "from_low_u64_be n = replicate 24 0 @ map (\<lambda>i. ucast (drop_bit (8 * (7 - i)) n)) [0..<8]"

lemma from_low_u64_be_inject [simp]: "from_low_u64_be m = from_low_u64_be n \<longleftrightarrow> m = n"
proof
  assume eq: "from_low_u64_be m = from_low_u64_be n"
  have byte: "ucast (drop_bit (8 * (7 - i)) m) = (ucast (drop_bit (8 * (7 - i)) n) :: u8)" if "i < 8" for i
    using eq that by (simp add: from_low_u64_be_def)
  show "m = n"
  proof (rule bit_word_eqI)
    fix j assume "j < LENGTH(64)"
    then have j: "j < 64" by simp
    define i where "i = 7 - j div 8"
    have i: "i < 8" "8 * (7 - i) + j mod 8 = j" using j by (auto simp: i_def)
    have "bit (ucast (drop_bit (8 * (7 - i)) m) :: u8) (j mod 8) = bit (ucast (drop_bit (8 * (7 - i)) n) :: u8) (j mod 8)"
      using byte [OF i(1)] by simp
    then show "bit m j = bit n j"
      using i(2) by (simp add: bit_ucast_iff bit_drop_bit_eq)
  qed
qed simp

section \<open>Contracts and clusters\<close>

datatype code_index = WasmCode bytes

fun code_hash :: "code_index \<Rightarrow> bytes" where
  "code_hash (WasmCode h) = h"

record contract_info =
  ci_deployer :: account_id
  ci_code_index :: code_index
  ci_salt :: bytes
  ci_cluster_id :: cluster_id
  ci_instantiate_data :: bytes

definition contract_id_preimage :: "bytes \<Rightarrow> bytes \<Rightarrow> bytes \<Rightarrow> bytes \<Rightarrow> bytes" where
  "contract_id_preimage deployer h cluster salt = deployer @ h @ cluster @ salt"

definition contract_id :: "(bytes \<Rightarrow> bytes) \<Rightarrow> contract_info \<Rightarrow> contract_h256" where
  "contract_id blake2_256 i =
     blake2_256 (contract_id_preimage (ci_deployer i) (code_hash (ci_code_index i))
       (ci_cluster_id i) (ci_salt i))"

datatype cluster_permission = Public | OnlyOwner account_id

record cluster_info =
  cl_owner :: account_id
  cl_permission :: cluster_permission
  cl_system_contract :: contract_h256
  cl_gas_price :: u128
  cl_deposit_per_item :: u128
  cl_deposit_per_byte :: u128

record basic_contract_info =
  bc_deployer :: account_id
  bc_cluster :: cluster_id

datatype resource_type = InkCode | SidevmCode | IndeterministicInkCode

text \<open>The messages to the workers; the gatekeepers send \<open>DispatchKeys\<close>.\<close>

record cluster_deployment =
  dc_owner :: account_id
  dc_cluster :: cluster_id
  dc_workers :: "worker_identity list"
  dc_deposit :: u128
  dc_gas_price :: u128
  dc_deposit_per_item :: u128
  dc_deposit_per_byte :: u128
  dc_treasury_account :: account_id

datatype cluster_event = DeployCluster cluster_deployment

record encrypted_key =
  ek_ecdh_pubkey :: bytes
  ek_encrypted_key :: bytes
  ek_iv :: bytes

record batch_dispatch_cluster_key_event =
  bd_secret_keys :: "(worker_public_key, encrypted_key) btree"
  bd_cluster :: cluster_id
  bd_owner :: account_id
  bd_deposit :: u128
  bd_gas_price :: u128
  bd_deposit_per_item :: u128
  bd_deposit_per_byte :: u128
  bd_treasury_account :: account_id

datatype cluster_operation =
    DispatchKeys batch_dispatch_cluster_key_event
  | DestroyCluster cluster_id
  | UploadResource account_id cluster_id resource_type bytes
  | Deposit cluster_id account_id u128
  | RemoveWorker cluster_id worker_public_key

datatype contract_operation = InstantiateCode contract_info u128 u64 "u128 option"

definition instantiate_code :: "contract_info \<Rightarrow> u128 \<Rightarrow> u64 \<Rightarrow> u128 option \<Rightarrow> contract_operation" where
  "instantiate_code i transfer gas_limit storage_deposit_limit =
     InstantiateCode i transfer gas_limit storage_deposit_limit"

text \<open>An ink message: nonce, message, transfer, gas limit and storage deposit limit.\<close>

datatype ink_command = InkMessage bytes bytes u128 u64 "u128 option"

text \<open>
  What the pallets of this theory hand to the message queue: payloads of the pallet itself,
  messages of a signed account, and ink messages to a contract.
\<close>

datatype phat_message =
    ClusterEventMsg cluster_event
  | ClusterOperationMsg cluster_operation
  | ContractOperationMsg contract_operation
  | UserMsg message
  | InkCommandMsg path ink_command

text \<open>The topic of the commands of a contract; \<open>hex\<close> writes a byte as two lower case digits.\<close>

definition hex_digit :: "nat \<Rightarrow> u8" where
  "hex_digit d = (if d < 10 then of_nat (48 + d) else of_nat (87 + d))"

definition hex_encode :: "bytes \<Rightarrow> bytes" where
  "hex_encode bs = concat (map (\<lambda>b. [hex_digit (unat b div 16), hex_digit (unat b mod 16)]) bs)"

definition ascii :: "string \<Rightarrow> bytes" where
  "ascii s = map of_char s"

definition command_topic :: "contract_h256 \<Rightarrow> path" where
  "command_topic c = ascii ''cyrux/contract/'' @ hex_encode c @ ascii ''/command''"

section \<open>State\<close>

datatype phat_event =
    ClusterCreated cluster_id contract_h256
  | ClusterPubkeyAvailable cluster_id bytes
  | ClusterDeployed cluster_id bytes worker_public_key
  | ClusterDeploymentFailed cluster_id worker_public_key
  | Instantiating contract_h256 cluster_id account_id
  | ContractPubkeyAvailable contract_h256 cluster_id bytes
  | Instantiated contract_h256 cluster_id bytes
  | ClusterDestroyed cluster_id
  | Transfered cluster_id bytes balance
  | WorkerAddedToCluster worker_public_key cluster_id
  | WorkerRemovedFromCluster worker_public_key cluster_id

datatype phat_error =
    CodeNotFound | ClusterNotFound | ClusterNotDeployed | ClusterPermissionDenied
  | DuplicatedContract | DuplicatedDeployment | NoWorkerSpecified | PhInvalidSender
  | PhWorkerNotFound | PayloadTooLarge | NoPinkSystemCode | ContractNotFound | WorkerIsBusy
  | PhCurrency

type_synonym 'a phat_result = "phat_error dispatch_error + 'a"

record 'led phat =
  contracts :: "contract_h256 \<rightharpoonup> basic_contract_info"
  cluster_counter :: u64
  clusters :: "cluster_id \<rightharpoonup> cluster_info"
  cluster_contracts :: "cluster_id \<Rightarrow> contract_h256 list"
  cluster_workers :: "cluster_id \<Rightarrow> worker_public_key list"
  cluster_by_workers :: "worker_public_key \<rightharpoonup> cluster_id"
  pink_system_code :: "u16 \<times> bytes"
  pink_system_code_hash :: "bytes option"
  pink_runtime_version :: "(u32 \<times> u32) option"
  next_pink_system_code :: "bytes option"
  phat_registry :: "account_id registry"
  phat_ledger :: 'led
  phat_pushed :: "phat_message list"
  phat_events :: "phat_event list"

text \<open>
  The configuration. \<open>phat_transfer keep_alive\<close> moves the currency and fails with \<open>None\<close>;
  \<open>blake2_256\<close> is the hash of the runtime.
\<close>

record 'led phat_env =
  phat_governance :: "account_id raw_origin \<Rightarrow> bool"
  ink_code_size_limit :: u32
  sidevm_code_size_limit :: u32
  blake2_256 :: "bytes \<Rightarrow> bytes"
  phat_transfer :: "bool \<Rightarrow> account_id \<Rightarrow> account_id \<Rightarrow> balance \<Rightarrow> 'led \<Rightarrow> 'led option"

definition phat_push :: "phat_message \<Rightarrow> ('led, 'z) phat_scheme \<Rightarrow> ('led, 'z) phat_scheme" where
  "phat_push m s = s\<lparr>phat_pushed := phat_pushed s @ [m]\<rparr>"

definition phat_deposit_event :: "phat_event \<Rightarrow> ('led, 'z) phat_scheme \<Rightarrow> ('led, 'z) phat_scheme" where
  "phat_deposit_event e s = s\<lparr>phat_events := phat_events s @ [e]\<rparr>"

definition currency_move ::
    "'led phat_env \<Rightarrow> bool \<Rightarrow> account_id \<Rightarrow> account_id \<Rightarrow> balance \<Rightarrow> ('led, 'z) phat_scheme \<Rightarrow>
     ('led, 'z) phat_scheme phat_result" where
  "currency_move env keep_alive src dst amount s =
     bind_result (ok_or (phat_transfer env keep_alive src dst amount (phat_ledger s)) (Module PhCurrency))
       (\<lambda>l. Inr (s\<lparr>phat_ledger := l\<rparr>))"

definition cluster_account :: "'led phat_env \<Rightarrow> cluster_id \<Rightarrow> account_id" where
  "cluster_account env cluster = blake2_256 env (ascii ''cluster:'' @ cluster)"

definition check_cluster_permission :: "account_id \<Rightarrow> cluster_info \<Rightarrow> bool" where
  "check_cluster_permission deployer cluster =
     (case cl_permission cluster of Public \<Rightarrow> True | OnlyOwner owner \<Rightarrow> deployer = owner)"

section \<open>Extrinsics\<close>

fun worker_identities :: "account_id registry \<Rightarrow> worker_public_key list \<Rightarrow> worker_identity list phat_result" where
  "worker_identities reg [] = Inr []"
| "worker_identities reg (w # ws) =
     bind_result (ok_or (workers reg w) (Module PhWorkerNotFound)) (\<lambda>info.
     bind_result (worker_identities reg ws) (\<lambda>ids.
     Inr (\<lparr>id_pubkey = pubkey info, id_ecdh_pubkey = ecdh_pubkey info\<rparr> # ids)))"

text \<open>The loop of \<open>add_cluster\<close> that assigns the workers.\<close>

fun assign_workers ::
    "cluster_id \<Rightarrow> worker_public_key list \<Rightarrow> ('led, 'z) phat_scheme \<Rightarrow> ('led, 'z) phat_scheme phat_result" where
  "assign_workers cluster [] s = Inr s"
| "assign_workers cluster (w # ws) s =
     bind_result (ensure (cluster_by_workers s w = None) (Module WorkerIsBusy)) (\<lambda>_.
     assign_workers cluster ws (s\<lparr>cluster_by_workers := (cluster_by_workers s)(w \<mapsto> cluster)\<rparr>))"

definition add_cluster ::
    "'led phat_env \<Rightarrow> account_id raw_origin \<Rightarrow> account_id \<Rightarrow> cluster_permission \<Rightarrow> worker_public_key list \<Rightarrow>
     balance \<Rightarrow> balance \<Rightarrow> balance \<Rightarrow> balance \<Rightarrow> account_id \<Rightarrow> ('led, 'z) phat_scheme \<Rightarrow>
     ('led, 'z) phat_scheme phat_result" where
  "add_cluster env orig owner permission deploy_workers deposit gas_price per_item per_byte treasury s =
     bind_result (ensure (phat_governance env orig) BadOriginErr) (\<lambda>_.
     bind_result (ensure (deploy_workers \<noteq> []) (Module NoWorkerSpecified)) (\<lambda>_.
     bind_result (worker_identities (phat_registry s) deploy_workers) (\<lambda>ids.
     let counter = cluster_counter s + 1;
         cluster = from_low_u64_be counter
     in
     bind_result (assign_workers cluster deploy_workers (s\<lparr>cluster_counter := counter\<rparr>)) (\<lambda>s1.
     let s2 = s1\<lparr>cluster_workers := (cluster_workers s1)(cluster := deploy_workers)\<rparr> in
     bind_result (ok_or (pink_system_code_hash s2) (Module NoPinkSystemCode)) (\<lambda>h.
     let info = \<lparr>ci_deployer = owner, ci_code_index = WasmCode h, ci_salt = [], ci_cluster_id = cluster,
                 ci_instantiate_data = [237, 75, 157, 27]\<rparr>;
         system_contract = contract_id (blake2_256 env) info;
         cinfo = \<lparr>cl_owner = owner, cl_permission = permission, cl_system_contract = system_contract,
                  cl_gas_price = gas_price, cl_deposit_per_item = per_item, cl_deposit_per_byte = per_byte\<rparr>;
         s3 = phat_deposit_event (ClusterCreated cluster system_contract)
                (s2\<lparr>clusters := (clusters s2)(cluster \<mapsto> cinfo)\<rparr>)
     in
     bind_result (currency_move env True owner (cluster_account env cluster) deposit s3) (\<lambda>s4.
     Inr (phat_push (ClusterEventMsg (DeployCluster
            \<lparr>dc_owner = owner, dc_cluster = cluster, dc_workers = ids, dc_deposit = deposit,
             dc_gas_price = gas_price, dc_deposit_per_item = per_item, dc_deposit_per_byte = per_byte,
             dc_treasury_account = treasury\<rparr>)) s4)))))))"

definition cluster_upload_resource ::
    "'led phat_env \<Rightarrow> account_id raw_origin \<Rightarrow> cluster_id \<Rightarrow> resource_type \<Rightarrow> bytes \<Rightarrow>
     ('led, 'z) phat_scheme \<Rightarrow> ('led, 'z) phat_scheme phat_result" where
  "cluster_upload_resource env orig cluster rt data s =
     bind_result (ensure_signed orig) (\<lambda>who.
     bind_result (ok_or (clusters s cluster) (Module ClusterNotFound)) (\<lambda>info.
     bind_result (ensure (check_cluster_permission who info) (Module ClusterPermissionDenied)) (\<lambda>_.
     let size_limit = (case rt of
           InkCode \<Rightarrow> ink_code_size_limit env
         | SidevmCode \<Rightarrow> sidevm_code_size_limit env
         | IndeterministicInkCode \<Rightarrow> ink_code_size_limit env)
     in
     bind_result (ensure (length data \<le> unat size_limit) (Module PayloadTooLarge)) (\<lambda>_.
     Inr (phat_push (ClusterOperationMsg (UploadResource who cluster rt data)) s)))))"

definition transfer_to_cluster ::
    "'led phat_env \<Rightarrow> account_id raw_origin \<Rightarrow> balance \<Rightarrow> cluster_id \<Rightarrow> account_id \<Rightarrow>
     ('led, 'z) phat_scheme \<Rightarrow> ('led, 'z) phat_scheme phat_result" where
  "transfer_to_cluster env orig amount cluster dest_account s =
     bind_result (ensure_signed orig) (\<lambda>user.
     bind_result (currency_move env True user (cluster_account env cluster) amount s) (\<lambda>s1.
     let s2 = phat_push (ClusterOperationMsg (Deposit cluster dest_account amount)) s1
     in Inr (phat_deposit_event (Transfered cluster dest_account amount) s2)))"

definition push_contract_message ::
    "'led phat_env \<Rightarrow> account_id raw_origin \<Rightarrow> contract_h256 \<Rightarrow> bytes \<Rightarrow> balance \<Rightarrow>
     ('led, 'z) phat_scheme \<Rightarrow> ('led, 'z) phat_scheme phat_result" where
  "push_contract_message env orig contract pl deposit s =
     bind_result (ensure_signed orig) (\<lambda>user.
     bind_result
       (if deposit \<noteq> 0 then
          bind_result (ok_or (contracts s contract) (Module ContractNotFound)) (\<lambda>info.
          transfer_to_cluster env orig deposit (bc_cluster info) user s)
        else Inr s)
       (\<lambda>s1. Inr (phat_push (UserMsg (message_new (AccountId user) (command_topic contract) pl)) s1)))"

definition instantiate_contract ::
    "'led phat_env \<Rightarrow> account_id raw_origin \<Rightarrow> code_index \<Rightarrow> bytes \<Rightarrow> bytes \<Rightarrow> cluster_id \<Rightarrow> balance \<Rightarrow> u64 \<Rightarrow>
     balance option \<Rightarrow> balance \<Rightarrow> ('led, 'z) phat_scheme \<Rightarrow> ('led, 'z) phat_scheme phat_result" where
  "instantiate_contract env orig code data salt cluster transfer gas_limit storage_deposit_limit deposit s =
     bind_result (ensure_signed orig) (\<lambda>deployer.
     bind_result (ok_or (clusters s cluster) (Module ClusterNotFound)) (\<lambda>cinfo.
     bind_result (ensure (check_cluster_permission deployer cinfo) (Module ClusterPermissionDenied)) (\<lambda>_.
     bind_result
       (if deposit \<noteq> 0 then transfer_to_cluster env orig deposit cluster deployer s else Inr s) (\<lambda>s1.
     let info = \<lparr>ci_deployer = deployer, ci_code_index = code, ci_salt = salt, ci_cluster_id = cluster,
                 ci_instantiate_data = data\<rparr>;
         cid = contract_id (blake2_256 env) info
     in
     bind_result (ensure (contracts s1 cid = None) (Module DuplicatedContract)) (\<lambda>_.
     let s2 = s1\<lparr>contracts := (contracts s1)(cid \<mapsto> \<lparr>bc_deployer = deployer, bc_cluster = cluster\<rparr>)\<rparr>;
         s3 = phat_push (ContractOperationMsg (instantiate_code info transfer gas_limit storage_deposit_limit)) s2
     in Inr (phat_deposit_event (Instantiating cid cluster deployer) s3))))))"

definition cluster_destroy ::
    "account_id raw_origin \<Rightarrow> cluster_id \<Rightarrow> ('led, 'z) phat_scheme \<Rightarrow> ('led, 'z) phat_scheme phat_result" where
  "cluster_destroy orig cluster s =
     bind_result (ensure_root orig) (\<lambda>_.
     bind_result (ok_or (clusters s cluster) (Module ClusterNotFound)) (\<lambda>_.
     let s1 = s\<lparr>clusters := (clusters s)(cluster := None)\<rparr>;
         s2 = phat_push (ClusterOperationMsg (DestroyCluster cluster)) s1
     in Inr (phat_deposit_event (ClusterDestroyed cluster) s2)))"

text \<open>The type of \<open>code\<close> in the source bounds its length by the size limit.\<close>

definition set_pink_system_code ::
    "'led phat_env \<Rightarrow> account_id raw_origin \<Rightarrow> bytes \<Rightarrow> ('led, 'z) phat_scheme \<Rightarrow>
     ('led, 'z) phat_scheme phat_result" where
  "set_pink_system_code env orig code s =
     bind_result (ensure (phat_governance env orig) BadOriginErr) (\<lambda>_.
     Inr (s\<lparr>next_pink_system_code := Some code\<rparr>))"

definition set_pink_runtime_version ::
    "'led phat_env \<Rightarrow> account_id raw_origin \<Rightarrow> u32 \<times> u32 \<Rightarrow> ('led, 'z) phat_scheme \<Rightarrow>
     ('led, 'z) phat_scheme phat_result" where
  "set_pink_runtime_version env orig version s =
     bind_result (ensure (phat_governance env orig) BadOriginErr) (\<lambda>_.
     Inr (s\<lparr>pink_runtime_version := Some version\<rparr>))"

definition add_worker_to_cluster ::
    "account_id raw_origin \<Rightarrow> worker_public_key \<Rightarrow> cluster_id \<Rightarrow> ('led, 'z) phat_scheme \<Rightarrow>
     ('led, 'z) phat_scheme phat_result" where
  "add_worker_to_cluster orig w cluster s =
     bind_result (ensure_signed orig) (\<lambda>who.
     bind_result (ok_or (clusters s cluster) (Module ClusterNotFound)) (\<lambda>info.
     bind_result (ensure (cl_owner info = who) (Module ClusterPermissionDenied)) (\<lambda>_.
     bind_result (ensure (workers (phat_registry s) w \<noteq> None) (Module PhWorkerNotFound)) (\<lambda>_.
     bind_result (ensure (cluster_by_workers s w = None) (Module WorkerIsBusy)) (\<lambda>_.
     let s1 = s\<lparr>cluster_by_workers := (cluster_by_workers s)(w \<mapsto> cluster),
                cluster_workers := (cluster_workers s)(cluster := cluster_workers s cluster @ [w]),
                clusters := (clusters s)(cluster \<mapsto> info)\<rparr>
     in Inr (phat_deposit_event (WorkerAddedToCluster w cluster) s1))))))"

definition remove_worker_from_cluster ::
    "account_id raw_origin \<Rightarrow> worker_public_key \<Rightarrow> cluster_id \<Rightarrow> ('led, 'z) phat_scheme \<Rightarrow>
     ('led, 'z) phat_scheme phat_result" where
  "remove_worker_from_cluster orig w cluster s =
     bind_result (ensure_signed orig) (\<lambda>who.
     bind_result (ok_or (clusters s cluster) (Module ClusterNotFound)) (\<lambda>info.
     bind_result (ensure (cl_owner info = who) (Module ClusterPermissionDenied)) (\<lambda>_.
     bind_result (ensure (cluster_by_workers s w = Some cluster) (Module PhWorkerNotFound)) (\<lambda>_.
     let s1 = s\<lparr>cluster_by_workers := (cluster_by_workers s)(w \<mapsto> from_low_u64_be 0),
                cluster_workers := (cluster_workers s)(cluster := filter (\<lambda>k. k \<noteq> w) (cluster_workers s cluster))\<rparr>;
         s2 = phat_deposit_event (WorkerRemovedFromCluster w cluster) s1
     in Inr (phat_push (ClusterOperationMsg (RemoveWorker cluster w)) s2)))))"

definition cleanup_removed_workers ::
    "account_id raw_origin \<Rightarrow> cluster_id \<Rightarrow> ('led, 'z) phat_scheme \<Rightarrow> ('led, 'z) phat_scheme phat_result" where
  "cleanup_removed_workers orig cluster s =
     bind_result (ensure_root orig) (\<lambda>_.
     Inr (s\<lparr>cluster_workers := (cluster_workers s)(cluster :=
              filter (\<lambda>k. cluster_by_workers s k \<noteq> Some (from_low_u64_be 0)) (cluster_workers s cluster))\<rparr>))"

section \<open>Message handlers, queries and the block hook\<close>

datatype cluster_registry_event = ClusterKeyAvailable cluster_id bytes

datatype contract_registry_event = ContractKeyAvailable contract_h256 bytes bytes

datatype worker_cluster_report = WcrDeployed cluster_id bytes | WcrDeploymentFailed cluster_id

text \<open>A handler returns the state it leaves and its result.\<close>

definition on_cluster_message_received ::
    "cluster_registry_event decoded_message \<Rightarrow> ('led, 'z) phat_scheme \<Rightarrow>
     ('led, 'z) phat_scheme \<times> unit phat_result" where
  "on_cluster_message_received m s =
     (if dm_sender m \<noteq> Gatekeeper then (s, Inl (Module PhInvalidSender))
      else case dm_payload m of
        ClusterKeyAvailable cluster pk \<Rightarrow>
          let s1 = s\<lparr>phat_registry := (phat_registry s)
                      \<lparr>cluster_keys := (cluster_keys (phat_registry s))(cluster \<mapsto> pk)\<rparr>\<rparr>
          in (phat_deposit_event (ClusterPubkeyAvailable cluster pk) s1, Inr ()))"

definition on_contract_message_received ::
    "contract_registry_event decoded_message \<Rightarrow> ('led, 'z) phat_scheme \<Rightarrow>
     ('led, 'z) phat_scheme \<times> unit phat_result" where
  "on_contract_message_received m s =
     (case dm_sender m of
        Cluster cluster \<Rightarrow>
          (case dm_payload m of
             ContractKeyAvailable contract pk deployer \<Rightarrow>
               let s1 = s\<lparr>phat_registry := (phat_registry s)
                           \<lparr>contract_keys := (contract_keys (phat_registry s))(contract \<mapsto> pk)\<rparr>\<rparr>;
                   s2 = phat_deposit_event (ContractPubkeyAvailable contract cluster pk) s1;
                   s3 = s2\<lparr>cluster_contracts :=
                            (cluster_contracts s2)(cluster := cluster_contracts s2 cluster @ [contract])\<rparr>;
                   s4 = (if contracts s3 contract = None
                         then s3\<lparr>contracts := (contracts s3)(contract \<mapsto> \<lparr>bc_deployer = deployer, bc_cluster = cluster\<rparr>)\<rparr>
                         else s3)
               in (phat_deposit_event (Instantiated contract cluster deployer) s4, Inr ()))
      | _ \<Rightarrow> (s, Inl (Module PhInvalidSender)))"

definition on_worker_cluster_message_received ::
    "worker_cluster_report decoded_message \<Rightarrow> ('led, 'z) phat_scheme \<Rightarrow>
     ('led, 'z) phat_scheme \<times> unit phat_result" where
  "on_worker_cluster_message_received m s =
     (case dm_sender m of
        Worker pk \<Rightarrow>
          (case dm_payload m of
             WcrDeployed cluster ckey \<Rightarrow> (phat_deposit_event (ClusterDeployed cluster ckey pk) s, Inr ())
           | WcrDeploymentFailed cluster \<Rightarrow> (phat_deposit_event (ClusterDeploymentFailed cluster pk) s, Inr ()))
      | _ \<Rightarrow> (s, Inl (Module PhInvalidSender)))"

definition get_contract_info :: "('led, 'z) phat_scheme \<Rightarrow> contract_h256 \<Rightarrow> basic_contract_info option" where
  "get_contract_info s contract = contracts s contract"

definition get_system_contract :: "('led, 'z) phat_scheme \<Rightarrow> contract_h256 \<Rightarrow> contract_h256 option" where
  "get_system_contract s contract =
     (case contracts s contract of
        None \<Rightarrow> None
      | Some info \<Rightarrow> map_option cl_system_contract (clusters s (bc_cluster info)))"

definition phat_on_initialize :: "'led phat_env \<Rightarrow> ('led, 'z) phat_scheme \<Rightarrow> ('led, 'z) phat_scheme" where
  "phat_on_initialize env s =
     (case next_pink_system_code s of
        None \<Rightarrow> s
      | Some code \<Rightarrow>
          s\<lparr>next_pink_system_code := None, pink_system_code_hash := Some (blake2_256 env code),
            pink_system_code := (fst (pink_system_code s) + 1, code)\<rparr>)"

section \<open>Migration\<close>

text \<open>
  The clusters of the seventh storage version listed their workers themselves; the migration
  moves those that were not removed to \<open>ClusterWorkers\<close>. \<open>old\<close> are the entries of the map.
\<close>

record cluster_info_v7 = cluster_info +
  cl_workers_v7 :: "worker_public_key list"

definition migrate_worker :: "cluster_id \<Rightarrow> worker_public_key \<Rightarrow> ('led, 'z) phat_scheme \<Rightarrow> ('led, 'z) phat_scheme" where
  "migrate_worker cluster w s =
     (if w \<notin> set (cluster_workers s cluster) \<and> cluster_by_workers s w \<noteq> Some (from_low_u64_be 0)
      then s\<lparr>cluster_workers := (cluster_workers s)(cluster := cluster_workers s cluster @ [w])\<rparr>
      else s)"

definition migrate_cluster :: "cluster_id \<times> cluster_info_v7 \<Rightarrow> ('led, 'z) phat_scheme \<Rightarrow> ('led, 'z) phat_scheme" where
  "migrate_cluster e s =
     (case e of (cluster, info) \<Rightarrow>
        let s1 = fold (migrate_worker cluster) (cl_workers_v7 info) s
        in s1\<lparr>clusters := (clusters s1)(cluster \<mapsto> cluster_info.truncate info)\<rparr>)"

definition migrate_v7_to_v8 ::
    "(cluster_id \<times> cluster_info_v7) list \<Rightarrow> u16 \<times> ('led, 'z) phat_scheme \<Rightarrow> u16 \<times> ('led, 'z) phat_scheme" where
  "migrate_v7_to_v8 old vs =
     (case vs of (version, s) \<Rightarrow>
        if version < 8 then (8, fold migrate_cluster old s) else (version, s))"

lemmas phat_ops =
  add_cluster_def cluster_upload_resource_def transfer_to_cluster_def push_contract_message_def
  instantiate_contract_def cluster_destroy_def set_pink_system_code_def set_pink_runtime_version_def
  add_worker_to_cluster_def remove_worker_from_cluster_def cleanup_removed_workers_def
  on_cluster_message_received_def on_contract_message_received_def
  on_worker_cluster_message_received_def phat_on_initialize_def

lemma phat_log_frame [simp, frame]:
  "contracts (phat_push m s) = contracts s"
  "contracts (phat_deposit_event e s) = contracts s"
  "clusters (phat_push m s) = clusters s"
  "clusters (phat_deposit_event e s) = clusters s"
  "cluster_counter (phat_push m s) = cluster_counter s"
  "cluster_counter (phat_deposit_event e s) = cluster_counter s"
  "cluster_workers (phat_push m s) = cluster_workers s"
  "cluster_workers (phat_deposit_event e s) = cluster_workers s"
  "cluster_by_workers (phat_push m s) = cluster_by_workers s"
  "cluster_by_workers (phat_deposit_event e s) = cluster_by_workers s"
  "phat_registry (phat_push m s) = phat_registry s"
  "phat_registry (phat_deposit_event e s) = phat_registry s"
  "phat_ledger (phat_push m s) = phat_ledger s"
  "phat_ledger (phat_deposit_event e s) = phat_ledger s"
  "phat_pushed (phat_push m s) = phat_pushed s @ [m]"
  "phat_pushed (phat_deposit_event e s) = phat_pushed s"
  by (simp_all add: phat_push_def phat_deposit_event_def)

lemma currency_move_Inr [result_simps]:
  "currency_move env ka src dst n s = Inr s' \<longleftrightarrow>
     (\<exists>l. phat_transfer env ka src dst n (phat_ledger s) = Some l \<and> s' = s\<lparr>phat_ledger := l\<rparr>)"
  by (auto simp: currency_move_def result_simps)

end
