(* ===== verification/Phat_Safety.thy ===== *)
theory Phat_Safety
  imports Phat
begin

text \<open>
  Runs of the contract pallet together with the registry and the currency: which cluster a
  worker belongs to, and that what is credited inside a cluster is backed by tokens on its
  account.
\<close>

section \<open>Runs\<close>

datatype 'led phat_op =
    OpAddCluster "account_id raw_origin" account_id cluster_permission "worker_public_key list"
      balance balance balance balance account_id
  | OpUpload "account_id raw_origin" cluster_id resource_type bytes
  | OpTransfer "account_id raw_origin" balance cluster_id account_id
  | OpPush "account_id raw_origin" contract_h256 bytes balance
  | OpInstantiate "account_id raw_origin" code_index bytes bytes cluster_id balance u64 "balance option" balance
  | OpDestroy "account_id raw_origin" cluster_id
  | OpSetCode "account_id raw_origin" bytes
  | OpSetVersion "account_id raw_origin" "u32 \<times> u32"
  | OpAddWorker "account_id raw_origin" worker_public_key cluster_id
  | OpRemoveWorker "account_id raw_origin" worker_public_key cluster_id
  | OpCleanup "account_id raw_origin" cluster_id
  | OpClusterMsg "cluster_registry_event decoded_message"
  | OpContractMsg "contract_registry_event decoded_message"
  | OpWorkerMsg "worker_cluster_report decoded_message"
  | OpBlock
  | OpRegistry "account_id registry"
  | OpLedger 'led

text \<open>The last two are steps of the registry pallet and of the rest of the chain.\<close>

fun run_phat_op :: "'led phat_env \<Rightarrow> 'led phat_op \<Rightarrow> 'led phat \<Rightarrow> 'led phat phat_result" where
  "run_phat_op env (OpAddCluster orig owner perm ws dep gas item byte tr) s =
     add_cluster env orig owner perm ws dep gas item byte tr s"
| "run_phat_op env (OpUpload orig c rt data) s = cluster_upload_resource env orig c rt data s"
| "run_phat_op env (OpTransfer orig n c dest) s = transfer_to_cluster env orig n c dest s"
| "run_phat_op env (OpPush orig c pl dep) s = push_contract_message env orig c pl dep s"
| "run_phat_op env (OpInstantiate orig code data salt c tr gas lim dep) s =
     instantiate_contract env orig code data salt c tr gas lim dep s"
| "run_phat_op env (OpDestroy orig c) s = cluster_destroy orig c s"
| "run_phat_op env (OpSetCode orig code) s = set_pink_system_code env orig code s"
| "run_phat_op env (OpSetVersion orig v) s = set_pink_runtime_version env orig v s"
| "run_phat_op env (OpAddWorker orig w c) s = add_worker_to_cluster orig w c s"
| "run_phat_op env (OpRemoveWorker orig w c) s = remove_worker_from_cluster orig w c s"
| "run_phat_op env (OpCleanup orig c) s = cleanup_removed_workers orig c s"
| "run_phat_op env (OpClusterMsg m) s = Inr (fst (on_cluster_message_received m s))"
| "run_phat_op env (OpContractMsg m) s = Inr (fst (on_contract_message_received m s))"
| "run_phat_op env (OpWorkerMsg m) s = Inr (fst (on_worker_cluster_message_received m s))"
| "run_phat_op env OpBlock s = Inr (phat_on_initialize env s)"
| "run_phat_op env (OpRegistry r) s = Inr (s\<lparr>phat_registry := r\<rparr>)"
| "run_phat_op env (OpLedger l) s = Inr (s\<lparr>phat_ledger := l\<rparr>)"

text \<open>A call that fails leaves the state as it was.\<close>

definition phat_exec :: "'led phat_env \<Rightarrow> 'led phat_op list \<Rightarrow> 'led phat \<Rightarrow> 'led phat" where
  "phat_exec env ops s =
     fold (\<lambda>c s. case run_phat_op env c s of Inl _ \<Rightarrow> s | Inr t \<Rightarrow> t) ops s"

definition phat_empty :: "account_id registry \<Rightarrow> 'led \<Rightarrow> 'led phat" where
  "phat_empty r l =
     \<lparr>contracts = Map.empty, cluster_counter = 0, clusters = Map.empty, cluster_contracts = (\<lambda>_. []),
      cluster_workers = (\<lambda>_. []), cluster_by_workers = Map.empty, pink_system_code = (0, []),
      pink_system_code_hash = None, pink_runtime_version = None, next_pink_system_code = None,
      phat_registry = r, phat_ledger = l, phat_pushed = [], phat_events = []\<rparr>"

text \<open>
  The registry pallet makes its own steps, and the counter of clusters does not run through
  all its \<open>2 ^ 64\<close> values.
\<close>

fun phat_admissible :: "'led phat_op \<Rightarrow> 'led phat \<Rightarrow> bool" where
  "phat_admissible (OpAddCluster orig owner perm ws dep gas item byte tr) s \<longleftrightarrow> cluster_counter s \<noteq> - 1"
| "phat_admissible (OpRegistry r) s \<longleftrightarrow> reg_step (phat_registry s) r"
| "phat_admissible _ s \<longleftrightarrow> True"

inductive phat_reachable :: "'led phat_env \<Rightarrow> ('led phat_op \<Rightarrow> 'led phat \<Rightarrow> bool) \<Rightarrow> 'led phat \<Rightarrow> bool"
  for env adm where
  phat_start: "phat_reachable env adm (phat_empty r l)"
| phat_next: "phat_reachable env adm s \<Longrightarrow> adm c s \<Longrightarrow> run_phat_op env c s = Inr t \<Longrightarrow> phat_reachable env adm t"

lemma phat_exec_Nil [simp]: "phat_exec env [] s = s"
  by (simp add: phat_exec_def)

lemma phat_exec_Cons:
  "phat_exec env (c # cs) s = phat_exec env cs (case run_phat_op env c s of Inl _ \<Rightarrow> s | Inr t \<Rightarrow> t)"
  by (simp add: phat_exec_def)

text \<open>An invariant of single calls is one of runs.\<close>

lemma phat_exec_invariant:
  assumes "P s" "\<And>c s t. P s \<Longrightarrow> run_phat_op env c s = Inr t \<Longrightarrow> P t"
  shows "P (phat_exec env cs s)"
  using assms by (induction cs arbitrary: s) (auto simp: phat_exec_Cons split: sum.splits)

section \<open>Workers and clusters\<close>

lemma adds_worker_keeps: "adds_worker pk s t \<Longrightarrow> workers s w \<noteq> None \<Longrightarrow> workers t w \<noteq> None"
  unfolding adds_worker_def by metis

lemma same_core_keeps: "same_core s t \<Longrightarrow> workers s w \<noteq> None \<Longrightarrow> workers t w \<noteq> None"
  by (simp add: same_core_def)

lemma reg_step_workers: "reg_step s t \<Longrightarrow> workers s w \<noteq> None \<Longrightarrow> workers t w \<noteq> None"
proof (induction rule: reg_step.induct)
  case (4 env orig gk s t)
  then show ?case using register_gatekeeper_core by fastforce
next
  case (5 env orig gk s t)
  then show ?case using unregister_gatekeeper_core by fastforce
next
  case (6 env orig s t)
  then show ?case using rotate_master_key_core by fastforce
next
  case (17 env m s t res)
  from "17"(1) show ?case
    by (rule on_message_received_cases)
      (use "17"(2) in \<open>blast dest: same_core_keeps adds_worker_keeps | simp\<close>)+
next
  case (18 gm s t res)
  then show ?case using on_gk_message_received_core [OF "18"(1)] by (auto simp: same_core_def)
qed (blast dest: same_core_ops adds_worker_ops register_worker_v2_adds same_core_keeps adds_worker_keeps)+

text \<open>The part of the state that says who belongs to which cluster.\<close>

definition same_members :: "'led phat \<Rightarrow> 'led phat \<Rightarrow> bool" where
  "same_members s t \<longleftrightarrow> cluster_workers t = cluster_workers s \<and> cluster_by_workers t = cluster_by_workers s \<and>
     cluster_counter t = cluster_counter s \<and>
     (\<forall>c. clusters t c \<noteq> None \<longrightarrow> clusters s c \<noteq> None) \<and>
     (\<forall>w. workers (phat_registry s) w \<noteq> None \<longrightarrow> workers (phat_registry t) w \<noteq> None)"

lemma same_members_ops:
  "cluster_upload_resource env orig c rt data s = Inr t \<Longrightarrow> same_members s t"
  "transfer_to_cluster env orig n c dest s = Inr t \<Longrightarrow> same_members s t"
  "cluster_destroy orig c s = Inr t \<Longrightarrow> same_members s t"
  "set_pink_system_code env orig code s = Inr t \<Longrightarrow> same_members s t"
  "set_pink_runtime_version env orig v s = Inr t \<Longrightarrow> same_members s t"
  "same_members s (fst (on_cluster_message_received m1 s))"
  "same_members s (fst (on_contract_message_received m2 s))"
  "same_members s (fst (on_worker_cluster_message_received m3 s))"
  "same_members s (phat_on_initialize env s)"
  by (auto simp: phat_ops result_simps Let_def same_members_def
      split: option.splits message_origin.splits cluster_registry_event.splits
        contract_registry_event.splits worker_cluster_report.splits if_splits)

lemma same_members_push:
  "push_contract_message env orig c pl dep s = Inr t \<Longrightarrow> same_members s t"
  by (auto simp: push_contract_message_def result_simps same_members_def
      dest!: same_members_ops(2) split: if_splits)

lemma same_members_instantiate:
  "instantiate_contract env orig code data salt c tr gas lim dep s = Inr t \<Longrightarrow> same_members s t"
  by (auto simp: instantiate_contract_def result_simps same_members_def Let_def
      dest!: same_members_ops(2) split: if_splits)

lemma assign_workers_Inr:
  "assign_workers c ws s = Inr t \<longleftrightarrow>
     distinct ws \<and> (\<forall>w\<in>set ws. cluster_by_workers s w = None) \<and>
     t = s\<lparr>cluster_by_workers := (\<lambda>w. if w \<in> set ws then Some c else cluster_by_workers s w)\<rparr>"
proof (induction ws arbitrary: s)
  case Nil
  show ?case by auto
next
  case (Cons w ws)
  let ?s = "s\<lparr>cluster_by_workers := (cluster_by_workers s)(w \<mapsto> c)\<rparr>"
  have upd: "?s\<lparr>cluster_by_workers := (\<lambda>v. if v \<in> set ws then Some c else cluster_by_workers ?s v)\<rparr> =
      s\<lparr>cluster_by_workers := (\<lambda>v. if v \<in> set (w # ws) then Some c else cluster_by_workers s v)\<rparr>"
    by (rule phat.equality) (simp_all add: fun_eq_iff)
  have none: "(\<forall>v\<in>set ws. cluster_by_workers ?s v = None) \<longleftrightarrow>
    w \<notin> set ws \<and> (\<forall>v\<in>set ws. cluster_by_workers s v = None)"
    by auto
  show ?case
    unfolding assign_workers.simps bind_result_Inr_iff ensure_Inr_iff Cons.IH [of ?s] upd none by auto
qed

lemma worker_identities_registered:
  "worker_identities reg ws = Inr ids \<Longrightarrow> w \<in> set ws \<Longrightarrow> workers reg w \<noteq> None"
  by (induction ws arbitrary: ids) (auto simp: result_simps)

lemma add_cluster_members:
  assumes "add_cluster env orig owner perm ws dep gas item byte tr s = Inr t"
  defines "c \<equiv> from_low_u64_be (cluster_counter s + 1)"
  shows "distinct ws" "\<forall>w\<in>set ws. workers (phat_registry s) w \<noteq> None"
    "\<forall>w\<in>set ws. cluster_by_workers s w = None"
    "cluster_by_workers t = (\<lambda>w. if w \<in> set ws then Some c else cluster_by_workers s w)"
    "cluster_workers t = (cluster_workers s)(c := ws)"
    "cluster_counter t = cluster_counter s + 1"
    "clusters t d \<noteq> None \<longleftrightarrow> d = c \<or> clusters s d \<noteq> None" "phat_registry t = phat_registry s"
  using assms(1)
  by (auto simp: add_cluster_def result_simps Let_def assign_workers_Inr c_def
      dest: worker_identities_registered)

text \<open>
  A worker is listed by the cluster it is assigned to and by no other, once; the reserved
  cluster has no members; clusters have numbers the counter has passed.
\<close>

definition numbered :: "'led phat \<Rightarrow> cluster_id \<Rightarrow> bool" where
  "numbered s c \<longleftrightarrow> (\<exists>n. 0 < n \<and> n \<le> cluster_counter s \<and> c = from_low_u64_be n)"

definition members_ok :: "'led phat \<Rightarrow> bool" where
  "members_ok s \<longleftrightarrow>
     (\<forall>c. distinct (cluster_workers s c)) \<and>
     (\<forall>c w. c \<noteq> from_low_u64_be 0 \<longrightarrow>
        (w \<in> set (cluster_workers s c) \<longleftrightarrow> cluster_by_workers s w = Some c)) \<and>
     cluster_workers s (from_low_u64_be 0) = [] \<and>
     (\<forall>w. cluster_by_workers s w \<noteq> None \<longrightarrow> workers (phat_registry s) w \<noteq> None) \<and>
     (\<forall>c. clusters s c \<noteq> None \<longrightarrow> numbered s c) \<and>
     (\<forall>c. cluster_workers s c \<noteq> [] \<longrightarrow> numbered s c)"

lemma members_ok_same: "same_members s t \<Longrightarrow> members_ok s \<Longrightarrow> members_ok t"
  unfolding same_members_def members_ok_def numbered_def by auto

lemma numbered_nonzero: "numbered s c \<Longrightarrow> c \<noteq> from_low_u64_be 0"
  by (auto simp: numbered_def)

lemma fresh_cluster:
  assumes "cluster_counter s \<noteq> - 1"
  shows "\<not> numbered s (from_low_u64_be (cluster_counter s + 1))"
    "cluster_counter t = cluster_counter s + 1 \<Longrightarrow> numbered t (from_low_u64_be (cluster_counter s + 1))"
    "cluster_counter t = cluster_counter s + 1 \<Longrightarrow> numbered s c \<Longrightarrow> numbered t c"
proof -
  have n: "unat (cluster_counter s + 1) = Suc (unat (cluster_counter s))"
    using unat_inc [OF assms] .
  show "\<not> numbered s (from_low_u64_be (cluster_counter s + 1))"
    using n by (auto simp: numbered_def word_le_nat_alt)
  show "numbered t (from_low_u64_be (cluster_counter s + 1))" if "cluster_counter t = cluster_counter s + 1"
    using n that by (auto simp: numbered_def word_less_nat_alt)
  show "numbered t c" if "cluster_counter t = cluster_counter s + 1" "numbered s c"
    using n that by (auto simp: numbered_def word_le_nat_alt)
qed

lemma members_ok_add_cluster:
  assumes "add_cluster env orig owner perm ws dep gas item byte tr s = Inr t"
    and "cluster_counter s \<noteq> - 1" and "members_ok s"
  shows "members_ok t"
proof -
  define c where "c = from_low_u64_be (cluster_counter s + 1)"
  note add = add_cluster_members [OF assms(1), folded c_def]
  have fresh: "\<not> numbered s c" "numbered t c" "\<And>d. numbered s d \<Longrightarrow> numbered t d"
    using fresh_cluster [OF assms(2)] add(6) by (auto simp: c_def)
  have nz: "c \<noteq> from_low_u64_be 0" using fresh(2) by (rule numbered_nonzero)
  have empty: "cluster_workers s c = []" using assms(3) fresh(1) by (auto simp: members_ok_def)
  have nobody: "cluster_by_workers s w \<noteq> Some c" for w
    using assms(3) empty nz by (auto simp: members_ok_def)
  show ?thesis
    using assms(3) add nobody nz fresh unfolding members_ok_def by auto
qed

lemma members_ok_add_worker:
  assumes "add_worker_to_cluster orig w c s = Inr t" and "members_ok s"
  shows "members_ok t"
proof -
  from assms(1) obtain info where add: "clusters s c = Some info" "cluster_by_workers s w = None"
      "workers (phat_registry s) w \<noteq> None"
      "cluster_by_workers t = (cluster_by_workers s)(w \<mapsto> c)"
      "cluster_workers t = (cluster_workers s)(c := cluster_workers s c @ [w])"
      "clusters t = (clusters s)(c \<mapsto> info)" "cluster_counter t = cluster_counter s"
      "phat_registry t = phat_registry s"
    by (auto simp: add_worker_to_cluster_def result_simps Let_def)
  have num: "numbered s c" "\<And>d. numbered t d = numbered s d"
    using assms(2) add by (auto simp: members_ok_def numbered_def)
  have nz: "c \<noteq> from_low_u64_be 0" using num(1) by (rule numbered_nonzero)
  have "w \<notin> set (cluster_workers s d)" for d
    using assms(2) add(2) by (cases "d = from_low_u64_be 0") (auto simp: members_ok_def)
  then show ?thesis
    using assms(2) add nz num unfolding members_ok_def by auto
qed

lemma members_ok_remove_worker:
  assumes "remove_worker_from_cluster orig w c s = Inr t" and "members_ok s"
  shows "members_ok t"
proof -
  from assms(1) have rem: "clusters s c \<noteq> None" "cluster_by_workers s w = Some c"
      "cluster_by_workers t = (cluster_by_workers s)(w \<mapsto> from_low_u64_be 0)"
      "cluster_workers t = (cluster_workers s)(c := filter (\<lambda>k. k \<noteq> w) (cluster_workers s c))"
      "clusters t = clusters s" "cluster_counter t = cluster_counter s" "phat_registry t = phat_registry s"
    by (auto simp: remove_worker_from_cluster_def result_simps Let_def)
  have num: "numbered s c" "\<And>d. numbered t d = numbered s d"
    using assms(2) rem by (auto simp: members_ok_def numbered_def)
  then show ?thesis
    using assms(2) rem numbered_nonzero [OF num(1)] unfolding members_ok_def by auto
qed

lemma members_ok_cleanup:
  assumes "cleanup_removed_workers orig c s = Inr t" and "members_ok s"
  shows "members_ok t"
proof -
  have "filter (\<lambda>k. cluster_by_workers s k \<noteq> Some (from_low_u64_be 0)) (cluster_workers s c) = cluster_workers s c"
    using assms(2) by (cases "c = from_low_u64_be 0") (auto simp: members_ok_def intro!: filter_True)
  with assms have "t = s"
    by (auto simp: cleanup_removed_workers_def result_simps)
  with assms(2) show ?thesis by simp
qed

lemma same_members_registry: "reg_step (phat_registry s) r \<Longrightarrow> same_members s (s\<lparr>phat_registry := r\<rparr>)"
  using reg_step_workers by (fastforce simp: same_members_def)

lemma same_members_ledger: "same_members s (s\<lparr>phat_ledger := l\<rparr>)"
  by (simp add: same_members_def)

lemma members_ok_run:
  "run_phat_op env c s = Inr t \<Longrightarrow> phat_admissible c s \<Longrightarrow> members_ok s \<Longrightarrow> members_ok t"
  by (cases c)
    (auto intro: members_ok_same same_members_ops same_members_push same_members_instantiate
       same_members_registry same_members_ledger
       members_ok_add_cluster members_ok_add_worker members_ok_remove_worker members_ok_cleanup)

lemma members_ok_reachable: "phat_reachable env phat_admissible s \<Longrightarrow> members_ok s"
proof (induction rule: phat_reachable.induct)
  case (phat_start r l)
  show ?case by (simp add: phat_empty_def members_ok_def)
next
  case (phat_next s c t)
  then show ?case by (blast intro: members_ok_run)
qed

text \<open>A worker leaves its cluster only when the owner of the cluster removes it.\<close>

lemma by_workers_run:
  assumes "run_phat_op env x s = Inr t" and "cluster_by_workers s w = Some c"
  shows "cluster_by_workers t w = Some c \<or>
    (\<exists>info. clusters s c = Some info \<and> x = OpRemoveWorker (Signed (cl_owner info)) w c \<and>
       cluster_by_workers t w = Some (from_low_u64_be 0))"
proof (cases "same_members s t")
  case True
  with assms(2) show ?thesis by (simp add: same_members_def)
next
  case False
  show ?thesis
  proof (cases x)
    case (OpAddCluster orig owner perm ws dep gas item byte tr)
    with assms add_cluster_members(3,4) [of env orig owner perm ws dep gas item byte tr s t]
    show ?thesis by auto
  next
    case (OpRemoveWorker orig v d)
    with assms show ?thesis
      by (cases "v = w") (auto simp: remove_worker_from_cluster_def result_simps Let_def)
  qed (use assms False in
      \<open>auto dest: same_members_ops(1-5) same_members_push same_members_instantiate
         simp: same_members_ops same_members_ledger add_worker_to_cluster_def
           cleanup_removed_workers_def result_simps Let_def\<close>)
qed

section \<open>Deposits\<close>

text \<open>
  What the messages to the workers credit inside the clusters that use an account, and the
  promise of the currency: a transfer that keeps the sender alive moves exactly the amount.
\<close>

fun msg_credit :: "'led phat_env \<Rightarrow> account_id \<Rightarrow> phat_message \<Rightarrow> nat" where
  "msg_credit env a (ClusterEventMsg (DeployCluster d)) =
     (if cluster_account env (dc_cluster d) = a then unat (dc_deposit d) else 0)"
| "msg_credit env a (ClusterOperationMsg (Deposit c dest n)) =
     (if cluster_account env c = a then unat n else 0)"
| "msg_credit env a _ = 0"

definition credited :: "'led phat_env \<Rightarrow> account_id \<Rightarrow> 'led phat \<Rightarrow> nat" where
  "credited env a s = sum_list (map (msg_credit env a) (phat_pushed s))"


text \<open>
  The accounts of clusters are hashes, so nobody signs for them; the rest of the chain takes
  nothing from them.
\<close>

definition is_cluster_account :: "'led phat_env \<Rightarrow> account_id \<Rightarrow> bool" where
  "is_cluster_account env a \<longleftrightarrow> (\<exists>c. a = cluster_account env c)"

fun outside :: "'led phat_env \<Rightarrow> account_id raw_origin \<Rightarrow> bool" where
  "outside env (Signed a) \<longleftrightarrow> \<not> is_cluster_account env a"
| "outside env _ \<longleftrightarrow> True"

fun currency_admissible ::
    "'led phat_env \<Rightarrow> ('led \<Rightarrow> account_id \<Rightarrow> balance) \<Rightarrow> 'led phat_op \<Rightarrow> 'led phat \<Rightarrow> bool" where
  "currency_admissible env bal (OpAddCluster orig owner perm ws dep gas item byte tr) s \<longleftrightarrow>
     \<not> is_cluster_account env owner"
| "currency_admissible env bal (OpTransfer orig n c dest) s \<longleftrightarrow> outside env orig"
| "currency_admissible env bal (OpPush orig c pl dep) s \<longleftrightarrow> outside env orig"
| "currency_admissible env bal (OpInstantiate orig code data salt c tr gas lim dep) s \<longleftrightarrow> outside env orig"
| "currency_admissible env bal (OpLedger l) s \<longleftrightarrow>
     (\<forall>a. is_cluster_account env a \<longrightarrow> bal (phat_ledger s) a \<le> bal l a)"
| "currency_admissible env bal _ s \<longleftrightarrow> True"














section \<open>An example\<close>

text \<open>
  A ledger of balances, a hash that changes nothing, and a run that deploys a cluster of one
  worker and pays into it.
\<close>

type_synonym bank = "account_id \<Rightarrow> balance"

definition bank_transfer :: "bool \<Rightarrow> account_id \<Rightarrow> account_id \<Rightarrow> balance \<Rightarrow> bank \<Rightarrow> bank option" where
  "bank_transfer keep_alive src dst n l =
     (if src = dst then Some l
      else if n \<le> l src \<and> unat (l dst) + unat n < 2 ^ 128 then Some (l(src := l src - n, dst := l dst + n))
      else None)"

definition phat_demo_env :: "bank phat_env" where
  "phat_demo_env =
     \<lparr>phat_governance = (\<lambda>orig. orig = Root), ink_code_size_limit = 10, sidevm_code_size_limit = 10,
      blake2_256 = (\<lambda>x. x), phat_transfer = bank_transfer\<rparr>"

definition phat_demo_registry :: "account_id registry" where
  "phat_demo_registry = genesis_build [([1], [2], None)] [] 8 registry_empty"

definition phat_demo_start :: "bank phat" where
  "phat_demo_start = phat_empty phat_demo_registry (\<lambda>a. if a = [9] then 100 else 0)"

definition phat_demo_ops :: "bank phat_op list" where
  "phat_demo_ops =
     [OpSetCode Root [7], OpBlock, OpAddCluster Root [9] Public [[1]] 5 1 1 1 [8],
      OpTransfer (Signed [9]) 20 (from_low_u64_be 1) [9]]"

fun admissible_run :: "'led phat_env \<Rightarrow> ('led phat_op \<Rightarrow> 'led phat \<Rightarrow> bool) \<Rightarrow> 'led phat_op list \<Rightarrow> 'led phat \<Rightarrow> bool" where
  "admissible_run env adm [] s \<longleftrightarrow> True"
| "admissible_run env adm (c # cs) s \<longleftrightarrow>
     adm c s \<and> admissible_run env adm cs (case run_phat_op env c s of Inl _ \<Rightarrow> s | Inr t \<Rightarrow> t)"

lemma admissible_run_reachable:
  "phat_reachable env adm s \<Longrightarrow> admissible_run env adm cs s \<Longrightarrow> phat_reachable env adm (phat_exec env cs s)"
proof (induction cs arbitrary: s)
  case Nil
  then show ?case by simp
next
  case (Cons c cs)
  have "phat_reachable env adm (case run_phat_op env c s of Inl _ \<Rightarrow> s | Inr t \<Rightarrow> t)"
    using Cons.prems by (auto split: sum.splits intro: phat_next)
  with Cons show ?case by (simp add: phat_exec_Cons)
qed

lemma phat_demo_env_simps [simp]:
  "phat_governance phat_demo_env orig \<longleftrightarrow> orig = Root" "blake2_256 phat_demo_env x = x"
  "phat_transfer phat_demo_env = bank_transfer"
  by (simp_all add: phat_demo_env_def)


lemma phat_demo_worker: "workers phat_demo_registry [1] = Some
    \<lparr>pubkey = [1], ecdh_pubkey = [2], runtime_version = 0, last_updated = 0, operator = None,
     attestation_provider = Some RootProvider, confidence_level = 128, initial_score = None, features = [1, 4]\<rparr>"
  by (simp add: phat_demo_registry_def genesis_build_def genesis_worker_def registry_empty_def
      Let_def push_message_def)

lemma phat_demo_accounts [simp]:
  "cluster_account phat_demo_env c \<noteq> [9]" "[9] \<noteq> cluster_account phat_demo_env c"
  "\<not> is_cluster_account phat_demo_env [9]"
  by (simp_all add: cluster_account_def is_cluster_account_def ascii_def)

lemmas phat_demo_eval =
  phat_demo_ops_def phat_demo_start_def phat_empty_def phat_ops phat_demo_worker Let_def currency_move_def
  bank_transfer_def phat_push_def phat_deposit_event_def

lemma phat_demo_admissible:
  "admissible_run phat_demo_env phat_admissible phat_demo_ops phat_demo_start"
  "admissible_run phat_demo_env (currency_admissible phat_demo_env (\<lambda>l. l)) phat_demo_ops phat_demo_start"
  by (simp_all add: phat_demo_eval)

definition phat_demo :: "bank phat" where
  "phat_demo = phat_exec phat_demo_env phat_demo_ops phat_demo_start"

lemma phat_demo_reachable:
  "phat_reachable phat_demo_env phat_admissible phat_demo"
  "phat_reachable phat_demo_env (currency_admissible phat_demo_env (\<lambda>l. l)) phat_demo"
  unfolding phat_demo_def
  by (intro admissible_run_reachable phat_demo_admissible; simp add: phat_demo_start_def phat_start)+

lemma phat_demo_state:
  "cluster_workers phat_demo (from_low_u64_be 1) = [[1]]"
  "cluster_by_workers phat_demo [1] = Some (from_low_u64_be 1)"
  "credited phat_demo_env (cluster_account phat_demo_env (from_low_u64_be 1)) phat_demo = 25"
  by (simp_all add: phat_demo_def phat_demo_eval phat_exec_def credited_def)

section \<open>Properties\<close>

text \<open>
  C31: In every state reached from genesis a worker is listed, once, by exactly the cluster it
  is assigned to. Workers that were removed are listed nowhere, and only registered workers
  are assigned.
\<close>

theorem cluster_membership:
  assumes "phat_reachable env phat_admissible s"
  shows "distinct (cluster_workers s c) \<and>
    (w \<in> set (cluster_workers s c) \<longleftrightarrow> c \<noteq> from_low_u64_be 0 \<and> cluster_by_workers s w = Some c) \<and>
    (cluster_by_workers s w \<noteq> None \<longrightarrow> workers (phat_registry s) w \<noteq> None)"
  using members_ok_reachable [OF assms] unfolding members_ok_def by (cases "c = from_low_u64_be 0") auto

theorem cluster_membership_witness:
  "distinct (cluster_workers phat_demo (from_low_u64_be 1)) \<and>
   [1] \<in> set (cluster_workers phat_demo (from_low_u64_be 1)) \<and>
   workers (phat_registry phat_demo) [1] \<noteq> None"
  using cluster_membership [OF phat_demo_reachable(1), of "from_low_u64_be 1" "[1]"] phat_demo_state
  by simp

text \<open>
  C32: A worker serves one cluster in its life. Once it is assigned, no later call assigns it
  to another cluster, also after its cluster was destroyed; it leaves its cluster only when
  the owner of the cluster removes it, and then it never joins one again.
\<close>

theorem worker_joins_once:
  assumes "cluster_by_workers s w = Some c"
  shows "(cluster_by_workers (phat_exec env cs s) w = Some c \<or>
      cluster_by_workers (phat_exec env cs s) w = Some (from_low_u64_be 0)) \<and>
    add_worker_to_cluster orig w d (phat_exec env cs s) \<noteq> Inr t \<and>
    (w \<in> set ws \<longrightarrow> add_cluster env orig owner perm ws dep gas item byte tr (phat_exec env cs s) \<noteq> Inr t) \<and>
    (run_phat_op env x s = Inr t \<and> cluster_by_workers t w \<noteq> Some c \<longrightarrow>
      (\<exists>info. clusters s c = Some info \<and> x = OpRemoveWorker (Signed (cl_owner info)) w c))"
proof -
  have stays: "cluster_by_workers (phat_exec env cs s) w = Some c \<or>
      cluster_by_workers (phat_exec env cs s) w = Some (from_low_u64_be 0)"
  proof (rule phat_exec_invariant)
    fix x s t
    assume "cluster_by_workers s w = Some c \<or> cluster_by_workers s w = Some (from_low_u64_be 0)"
      "run_phat_op env x s = Inr t"
    then show "cluster_by_workers t w = Some c \<or> cluster_by_workers t w = Some (from_low_u64_be 0)"
      using by_workers_run by blast
  qed (use assms in simp)
  moreover have "add_worker_to_cluster orig w d (phat_exec env cs s) \<noteq> Inr t"
    using stays by (auto simp: add_worker_to_cluster_def result_simps)
  moreover have "w \<in> set ws \<longrightarrow>
      add_cluster env orig owner perm ws dep gas item byte tr (phat_exec env cs s) \<noteq> Inr t"
    using stays add_cluster_members(3) by fastforce
  moreover have "run_phat_op env x s = Inr t \<and> cluster_by_workers t w \<noteq> Some c \<longrightarrow>
      (\<exists>info. clusters s c = Some info \<and> x = OpRemoveWorker (Signed (cl_owner info)) w c)"
    using by_workers_run [OF _ assms, of env x t] by blast
  ultimately show ?thesis by blast
qed

theorem worker_joins_once_witness:
  "cluster_by_workers phat_demo [1] = Some (from_low_u64_be 1) \<and>
   add_worker_to_cluster (Signed [9]) [1] (from_low_u64_be 2)
     (phat_exec phat_demo_env [OpDestroy Root (from_low_u64_be 1)] phat_demo) \<noteq> Inr phat_demo"
  using worker_joins_once [OF phat_demo_state(2), where cs = "[OpDestroy Root (from_low_u64_be 1)]"
      and env = phat_demo_env and orig = "Signed [9]" and d = "from_low_u64_be 2" and t = phat_demo]
    phat_demo_state(2) by blast



end
