(* ===== verification/Phat_Tokenomic.thy ===== *)
theory Phat_Tokenomic
  imports Phat_Safety
begin

text \<open>
  Stake on contracts, \<^verbatim>\<open>pallets/cyrux/src/phat_tokenomic.rs\<close>, and the one time transfer of
  \<^verbatim>\<open>pallets/cyrux/src/ott.rs\<close>. The currency is the parameter of the contract pallet.
\<close>

section \<open>Stake on contracts\<close>

datatype tokenomic_event =
    ContractDepositChanged "cluster_id option" contract_h256 balance
  | UserStakeChanged "cluster_id option" account_id contract_h256 balance

datatype tokenomic_error = InvalidAmountOfStake | TokCurrency

record 'led tokenomic =
  tok_phat :: "'led phat"
  contract_user_stakes :: "account_id \<Rightarrow> contract_h256 \<Rightarrow> balance"
  contract_total_stakes :: "contract_h256 \<Rightarrow> balance"
  min_stake :: balance
  tok_events :: "tokenomic_event list"
  tok_pushed :: "phat_message list"

text \<open>
  \<open>push_ink_message\<close> sends an ink message without a transfer and without a bound on its gas to a
  contract. \<open>encode_deposit\<close> is the SCALE encoding of the selector and the arguments.
\<close>

definition push_ink_message :: "contract_h256 \<Rightarrow> bytes \<Rightarrow> 'led tokenomic \<Rightarrow> 'led tokenomic" where
  "push_ink_message contract m s =
     s\<lparr>tok_pushed := tok_pushed s @ [InkCommandMsg (command_topic contract) (InkMessage [] m 0 (- 1) None)]\<rparr>"

definition adjust_stake ::
    "'led phat_env \<Rightarrow> (bytes \<Rightarrow> contract_h256 \<Rightarrow> balance \<Rightarrow> bytes) \<Rightarrow> account_id \<Rightarrow> account_id raw_origin \<Rightarrow>
     contract_h256 \<Rightarrow> balance \<Rightarrow> 'led tokenomic \<Rightarrow> tokenomic_error dispatch_error + 'led tokenomic" where
  "adjust_stake env encode_deposit pallet_id orig contract amount s =
     bind_result (ensure_signed orig) (\<lambda>user.
     bind_result (ensure (amount = 0 \<or> min_stake s \<le> amount) (Module InvalidAmountOfStake)) (\<lambda>_.
     let old_total = contract_total_stakes s contract;
         old = contract_user_stakes s user contract;
         l = phat_ledger (tok_phat s);
         new_total = (if old < amount then old_total + (amount - old) else old_total - (old - amount))
     in
     bind_result
       (ok_or (if old < amount then phat_transfer env True user pallet_id (amount - old) l
               else phat_transfer env False pallet_id user (old - amount) l) (Module TokCurrency)) (\<lambda>l'.
     let s1 = s\<lparr>tok_phat := (tok_phat s)\<lparr>phat_ledger := l'\<rparr>,
                contract_user_stakes := (contract_user_stakes s)(user := (contract_user_stakes s user)(contract := amount)),
                contract_total_stakes := (contract_total_stakes s)(contract := new_total)\<rparr>;
         cluster = map_option bc_cluster (get_contract_info (tok_phat s1) contract);
         s2 = s1\<lparr>tok_events := tok_events s1 @
                  [ContractDepositChanged cluster contract new_total,
                   UserStakeChanged cluster user contract amount]\<rparr>
     in Inr (case get_system_contract (tok_phat s2) contract of
               None \<Rightarrow> s2
             | Some system \<Rightarrow>
                 push_ink_message system (encode_deposit [162, 75, 203, 68] contract new_total) s2))))"

text \<open>The stake changes by calls of anybody, while the contract pallet and the ledger go on.\<close>

inductive tok_reachable :: "'led phat_env \<Rightarrow> (bytes \<Rightarrow> contract_h256 \<Rightarrow> balance \<Rightarrow> bytes) \<Rightarrow> account_id \<Rightarrow>
    'led tokenomic \<Rightarrow> bool" for env encode_deposit pallet_id where
  tok_start: "(\<And>u c. contract_user_stakes s u c = 0) \<Longrightarrow> (\<And>c. contract_total_stakes s c = 0) \<Longrightarrow>
    tok_reachable env encode_deposit pallet_id s"
| tok_adjust: "tok_reachable env encode_deposit pallet_id s \<Longrightarrow>
    adjust_stake env encode_deposit pallet_id orig contract amount s = Inr t \<Longrightarrow>
    tok_reachable env encode_deposit pallet_id t"
| tok_other: "tok_reachable env encode_deposit pallet_id s \<Longrightarrow> run_phat_op env x (tok_phat s) = Inr p \<Longrightarrow>
    tok_reachable env encode_deposit pallet_id (s\<lparr>tok_phat := p\<rparr>)"

definition stakers :: "'led tokenomic \<Rightarrow> contract_h256 \<Rightarrow> account_id set" where
  "stakers s c = {u. contract_user_stakes s u c \<noteq> 0}"

text \<open>Changing one summand changes the sum by the difference.\<close>

lemma sum_support_update:
  fixes f :: "'a \<Rightarrow> 'b::ab_group_add"
  assumes "finite {u. f u \<noteq> 0}"
  shows "finite {u. (f(a := x)) u \<noteq> 0}"
    and "(\<Sum>u | (f(a := x)) u \<noteq> 0. (f(a := x)) u) = (\<Sum>u | f u \<noteq> 0. f u) + (x - f a)"
proof -
  let ?A = "insert a {u. f u \<noteq> 0}"
  have fin: "finite ?A" using assms by simp
  show "finite {u. (f(a := x)) u \<noteq> 0}" by (rule finite_subset [OF _ fin]) auto
  have "(\<Sum>u | (f(a := x)) u \<noteq> 0. (f(a := x)) u) = (\<Sum>u\<in>?A. (f(a := x)) u)"
    by (rule sum.mono_neutral_left [OF fin]) auto
  moreover have "(\<Sum>u | f u \<noteq> 0. f u) = (\<Sum>u\<in>?A. f u)"
    by (rule sum.mono_neutral_left [OF fin]) auto
  moreover have "(\<Sum>u\<in>?A. g u) = g a + (\<Sum>u\<in>?A - {a}. g u)" for g :: "'a \<Rightarrow> 'b"
    by (rule sum.remove [OF fin]) simp
  moreover have "(\<Sum>u\<in>?A - {a}. (f(a := x)) u) = (\<Sum>u\<in>?A - {a}. f u)"
    by (rule sum.cong) auto
  ultimately show "(\<Sum>u | (f(a := x)) u \<noteq> 0. (f(a := x)) u) = (\<Sum>u | f u \<noteq> 0. f u) + (x - f a)"
    by (simp add: algebra_simps)
qed

definition adds_up :: "'led tokenomic \<Rightarrow> contract_h256 \<Rightarrow> bool" where
  "adds_up s c \<longleftrightarrow> finite (stakers s c) \<and>
     contract_total_stakes s c = (\<Sum>u\<in>stakers s c. contract_user_stakes s u c)"

lemma adjust_stake_Inr:
  assumes "adjust_stake env enc pid orig contract amount s = Inr t"
  obtains user where "orig = Signed user"
    "\<And>c. contract_total_stakes t c = contract_total_stakes s c +
       (if c = contract then amount - contract_user_stakes s user contract else 0)"
    "\<And>c. (\<lambda>u. contract_user_stakes t u c) =
       (if c = contract then (\<lambda>u. contract_user_stakes s u c)(user := amount)
        else (\<lambda>u. contract_user_stakes s u c))"
  using assms
  by (fastforce simp: adjust_stake_def result_simps Let_def push_ink_message_def fun_eq_iff algebra_simps
      split: option.splits)

lemma adds_up_adjust:
  assumes "adjust_stake env enc pid orig contract amount s = Inr t" "adds_up s c"
  shows "adds_up t c"
proof -
  from assms(1) obtain user where upd:
    "contract_total_stakes t c = contract_total_stakes s c +
       (if c = contract then amount - contract_user_stakes s user contract else 0)"
    "(\<lambda>u. contract_user_stakes t u c) =
       (if c = contract then (\<lambda>u. contract_user_stakes s u c)(user := amount)
        else (\<lambda>u. contract_user_stakes s u c))"
    by (rule adjust_stake_Inr) blast
  show ?thesis
  proof (cases "c = contract")
    case True
    with upd(2) have fn: "contract_user_stakes t u c = ((\<lambda>u. contract_user_stakes s u c)(user := amount)) u" for u
      by metis
    have "finite {u. contract_user_stakes s u c \<noteq> 0}" using assms(2) by (simp add: adds_up_def stakers_def)
    note sum_support_update [OF this, of user amount]
    with assms(2) upd(1) True show ?thesis
      unfolding adds_up_def stakers_def fn by simp
  next
    case False
    with upd(2) have "contract_user_stakes t u c = contract_user_stakes s u c" for u by metis
    with upd(1) False assms(2) show ?thesis by (simp add: adds_up_def stakers_def)
  qed
qed

lemma adds_up_reachable: "tok_reachable env enc pid s \<Longrightarrow> adds_up s c"
proof (induction rule: tok_reachable.induct)
  case (tok_start s)
  then show ?case by (simp add: adds_up_def stakers_def)
next
  case (tok_adjust s orig contract amount t)
  then show ?case by (blast intro: adds_up_adjust)
next
  case (tok_other s x p)
  then show ?case by (simp add: adds_up_def stakers_def)
qed

lemma unat_sum:
  assumes "finite A" "(\<Sum>u\<in>A. unat (f u)) < 2 ^ LENGTH('w)"
  shows "unat (\<Sum>u\<in>A. f u :: 'w::len word) = (\<Sum>u\<in>A. unat (f u))"
  using assms
proof (induction A rule: finite_induct)
  case (insert x A)
  then have "unat (f x) + unat (\<Sum>u\<in>A. f u) < 2 ^ LENGTH('w)" by simp
  then have "unat (f x + (\<Sum>u\<in>A. f u)) = unat (f x) + unat (\<Sum>u\<in>A. f u)"
    by (rule unat_add_lem [THEN iffD1])
  with insert show ?case by simp
qed simp

definition tok_demo :: "bank tokenomic" where
  "tok_demo = \<lparr>tok_phat = phat_demo, contract_user_stakes = (\<lambda>_ _. 0), contract_total_stakes = (\<lambda>_. 0),
     min_stake = 2, tok_events = [], tok_pushed = []\<rparr>"

lemma phat_demo_ledger: "phat_ledger phat_demo [9] = 75" "phat_ledger phat_demo [77] = 0"
  by (simp_all add: phat_demo_def phat_demo_eval phat_exec_def cluster_account_def ascii_def)

lemma tok_demo_staked:
  "\<exists>t. adjust_stake phat_demo_env (\<lambda>_ _ _. []) [77] (Signed [9]) [3] 30 tok_demo = Inr t \<and>
     contract_user_stakes t [9] [3] = 30 \<and> contract_total_stakes t [3] = 30 \<and>
     (\<forall>u. u \<noteq> [9] \<longrightarrow> contract_user_stakes t u [3] = 0)"
  by (simp add: adjust_stake_def tok_demo_def Let_def bank_transfer_def phat_demo_ledger push_ink_message_def
      split: option.splits)

text \<open>
  C34: The total stake kept for a contract is the sum of the stakes of its users: in 128-bit
  arithmetic always, and as a number whenever the sum fits 128 bits.
\<close>

theorem stakes_add_up:
  assumes "tok_reachable env enc pid s"
  shows "finite (stakers s c) \<and>
    contract_total_stakes s c = (\<Sum>u\<in>stakers s c. contract_user_stakes s u c) \<and>
    ((\<Sum>u\<in>stakers s c. unat (contract_user_stakes s u c)) < 2 ^ 128 \<longrightarrow>
     unat (contract_total_stakes s c) = (\<Sum>u\<in>stakers s c. unat (contract_user_stakes s u c)))"
  using adds_up_reachable [OF assms, of c] unat_sum [of "stakers s c" "\<lambda>u. contract_user_stakes s u c"]
  by (simp add: adds_up_def)

theorem stakes_add_up_witness:
  "\<exists>t. adjust_stake phat_demo_env (\<lambda>_ _ _. []) [77] (Signed [9]) [3] 30 tok_demo = Inr t \<and>
     (\<Sum>u\<in>stakers t [3]. contract_user_stakes t u [3]) = 30"
proof -
  from tok_demo_staked obtain t where t:
    "adjust_stake phat_demo_env (\<lambda>_ _ _. []) [77] (Signed [9]) [3] 30 tok_demo = Inr t"
    "contract_total_stakes t [3] = 30" by blast
  have "tok_reachable phat_demo_env (\<lambda>_ _ _. []) [77] tok_demo"
    by (rule tok_start) (simp_all add: tok_demo_def)
  then have "tok_reachable phat_demo_env (\<lambda>_ _ _. []) [77] t"
    using t(1) by (rule tok_adjust)
  from stakes_add_up [OF this, of "[3]"] t show ?thesis by auto
qed

section \<open>One time transfers\<close>

datatype ott_error = SenderAlreadyBlacklisted | DestinationAlreadyBlacklisted | OttCurrency

record ('acc, 'led) ott =
  blacklisted_accounts :: "'acc set"
  ott_ledger :: 'led
  ott_events :: "'acc list list"

type_synonym ('acc, 'led) ott_result = "ott_error dispatch_error + ('acc, 'led) ott"

fun ott_transfers ::
    "('acc \<Rightarrow> 'acc \<Rightarrow> balance \<Rightarrow> 'led \<Rightarrow> 'led option) \<Rightarrow> 'acc \<Rightarrow> ('acc \<times> balance) list \<Rightarrow> ('acc, 'led) ott \<Rightarrow>
     ('acc, 'led) ott_result" where
  "ott_transfers transfer who [] s = Inr s"
| "ott_transfers transfer who ((dest, amount) # ts) s =
     bind_result (ok_or (transfer who dest amount (ott_ledger s)) (Module OttCurrency)) (\<lambda>l.
     ott_transfers transfer who ts
       (s\<lparr>ott_ledger := l, blacklisted_accounts := insert dest (blacklisted_accounts s)\<rparr>))"

text \<open>\<open>transfer\<close> moves the currency and keeps the sender alive.\<close>

definition distribute ::
    "('acc \<Rightarrow> 'acc \<Rightarrow> balance \<Rightarrow> 'led \<Rightarrow> 'led option) \<Rightarrow> 'acc raw_origin \<Rightarrow> ('acc \<times> balance) list \<Rightarrow>
     ('acc, 'led) ott \<Rightarrow> ('acc, 'led) ott_result" where
  "distribute transfer orig transfers s =
     bind_result (ensure_signed orig) (\<lambda>who.
     bind_result (ensure (who \<notin> blacklisted_accounts s) (Module SenderAlreadyBlacklisted)) (\<lambda>_.
     bind_result (ensure (\<forall>d\<in>set (map fst transfers). d \<notin> blacklisted_accounts s)
                    (Module DestinationAlreadyBlacklisted)) (\<lambda>_.
     bind_result (ott_transfers transfer who transfers s) (\<lambda>s1.
     let s2 = s1\<lparr>blacklisted_accounts := insert who (blacklisted_accounts s1)\<rparr>
     in Inr (s2\<lparr>ott_events := ott_events s2 @ [map fst transfers @ [who]]\<rparr>)))))"

text \<open>A run of calls, between which the ledger changes as it likes.\<close>

fun ott_run ::
    "('acc \<Rightarrow> 'acc \<Rightarrow> balance \<Rightarrow> 'led \<Rightarrow> 'led option) \<Rightarrow>
     ('acc raw_origin \<times> ('acc \<times> balance) list \<times> ('led \<Rightarrow> 'led)) list \<Rightarrow> ('acc, 'led) ott \<Rightarrow> ('acc, 'led) ott" where
  "ott_run transfer [] s = s"
| "ott_run transfer ((orig, ts, others) # cs) s =
     ott_run transfer cs
       (case distribute transfer orig ts (s\<lparr>ott_ledger := others (ott_ledger s)\<rparr>) of
          Inl _ \<Rightarrow> s\<lparr>ott_ledger := others (ott_ledger s)\<rparr> | Inr t \<Rightarrow> t)"

lemma ott_transfers_Inr:
  "ott_transfers transfer who ts s = Inr t \<Longrightarrow>
     blacklisted_accounts t = blacklisted_accounts s \<union> set (map fst ts) \<and> ott_events t = ott_events s"
  by (induction transfer who ts s rule: ott_transfers.induct) (auto simp: result_simps)

lemma distribute_Inr:
  assumes "distribute transfer orig ts s = Inr t"
  obtains who where "orig = Signed who" "set (map fst ts @ [who]) \<inter> blacklisted_accounts s = {}"
    "blacklisted_accounts t = blacklisted_accounts s \<union> set (map fst ts @ [who])"
    "ott_events t = ott_events s @ [map fst ts @ [who]]"
proof -
  from assms obtain who s1 where s1: "orig = Signed who" "who \<notin> blacklisted_accounts s"
      "\<forall>d\<in>set (map fst ts). d \<notin> blacklisted_accounts s" "ott_transfers transfer who ts s = Inr s1"
      "t = s1\<lparr>blacklisted_accounts := insert who (blacklisted_accounts s1),
             ott_events := ott_events s1 @ [map fst ts @ [who]]\<rparr>"
    by (auto simp: distribute_def result_simps Let_def)
  with ott_transfers_Inr [OF s1(4)] show thesis by (intro that [of who]) auto
qed

definition ott_inv :: "('acc, 'led) ott \<Rightarrow> bool" where
  "ott_inv s \<longleftrightarrow> sorted_wrt (\<lambda>p q. set p \<inter> set q = {}) (ott_events s) \<and>
     blacklisted_accounts s = (\<Union>p\<in>set (ott_events s). set p)"

lemma ott_inv_distribute:
  assumes "distribute transfer orig ts s = Inr t" "ott_inv s"
  shows "ott_inv t"
  using assms(1)
proof (rule distribute_Inr)
  fix who
  assume "set (map fst ts @ [who]) \<inter> blacklisted_accounts s = {}"
    "blacklisted_accounts t = blacklisted_accounts s \<union> set (map fst ts @ [who])"
    "ott_events t = ott_events s @ [map fst ts @ [who]]"
  with assms(2) show ?thesis
    unfolding ott_inv_def by (simp add: sorted_wrt_snoc) blast
qed

lemma ott_inv_run: "ott_inv s \<Longrightarrow> ott_inv (ott_run transfer cs s)"
proof (induction transfer cs s rule: ott_run.induct)
  case (2 transfer orig ts others cs s)
  have "ott_inv (s\<lparr>ott_ledger := others (ott_ledger s)\<rparr>)"
    using "2.prems" by (simp add: ott_inv_def)
  then have "ott_inv (case distribute transfer orig ts (s\<lparr>ott_ledger := others (ott_ledger s)\<rparr>) of
      Inl _ \<Rightarrow> s\<lparr>ott_ledger := others (ott_ledger s)\<rparr> | Inr t \<Rightarrow> t)"
    using ott_inv_distribute by (fastforce split: sum.splits)
  with "2.IH" show ?case by simp
qed simp

text \<open>
  C35: An account takes part in at most one distribution, as sender or as receiver: the
  participants of any two distributions of a run are different, and the blacklist holds
  exactly those who took part.
\<close>

theorem distribution_once:
  assumes "blacklisted_accounts s = {}" "ott_events s = []"
  shows "sorted_wrt (\<lambda>p q. set p \<inter> set q = {}) (ott_events (ott_run transfer cs s)) \<and>
    blacklisted_accounts (ott_run transfer cs s) = (\<Union>p\<in>set (ott_events (ott_run transfer cs s)). set p)"
  using ott_inv_run [of s transfer cs] assms by (simp add: ott_inv_def)

theorem distribution_once_witness:
  "let s = \<lparr>blacklisted_accounts = {}, ott_ledger = (), ott_events = []\<rparr>;
       t = ott_run (\<lambda>_ _ _ _. Some ()) [(Signed 1, [(2, 5), (3, 5)], id), (Signed (2::nat), [(4, 5)], id)] s
   in ott_events t = [[2, 3, 1]] \<and> blacklisted_accounts t = {1, 2, 3}"
  using distribution_once [of "\<lparr>blacklisted_accounts = {}, ott_ledger = (), ott_events = []\<rparr>"
      "\<lambda>_ _ _ _. Some ()" "[(Signed 1, [(2, 5), (3, 5)], id), (Signed (2::nat), [(4, 5)], id)]"]
  by (simp add: distribute_def) blast

end
