(* ===== verification/Kv_Session.thy ===== *)
theory Kv_Session
  imports Messaging
begin

text \<open>
  The client side of an off-chain rollup, \<^verbatim>\<open>crates/pink-libs/kv-session\<close>: a session reads a
  snapshot of a key-value store, buffers its writes, tracks what it accessed and turns into
  a transaction whose conditions are the versions of the accessed keys.
\<close>

section \<open>Snapshots and codecs\<close>

type_synonym key = bytes
type_synonym val = bytes

datatype kv_error = FailedToGetStorage | FailedToDecode

record kv_snapshot =
  snapshot_id :: "kv_error + val"
  snap_get :: "key \<Rightarrow> kv_error + val option"

fun batch_get :: "kv_snapshot \<Rightarrow> key list \<Rightarrow> kv_error + (key \<times> val option) list" where
  "batch_get kvdb [] = Inr []"
| "batch_get kvdb (k # ks) =
     bind_result (snap_get kvdb k) (\<lambda>v.
     bind_result (batch_get kvdb ks) (\<lambda>vs. Inr ((k, v) # vs)))"

record queue_index_codec =
  qc_encode :: "u32 \<Rightarrow> bytes"
  qc_decode :: "bytes \<Rightarrow> kv_error + u32"

section \<open>Trackers\<close>

type_synonym 'k btree_set = "('k, unit) btree"

text \<open>
  \<open>OneLock\<close> always reports its key; \<open>AccessTracker\<close> reports the reads and, when its flag is
  set, the writes. \<open>ReadTracker\<close> and \<open>RwTracker\<close> are its two instances.
\<close>

datatype access_tracker =
    OneLock key bool
  | AccessTracker bool "key btree_set" "key btree_set"

definition one_lock_new :: "key \<Rightarrow> bool \<Rightarrow> access_tracker" where
  "one_lock_new lock_key write_lock = OneLock lock_key write_lock"

definition access_tracker_new :: "bool \<Rightarrow> access_tracker" where
  "access_tracker_new track_write = AccessTracker track_write [] []"

abbreviation ReadTracker :: access_tracker where
  "ReadTracker \<equiv> access_tracker_new False"

abbreviation RwTracker :: access_tracker where
  "RwTracker \<equiv> access_tracker_new True"

fun tracker_read :: "key \<Rightarrow> access_tracker \<Rightarrow> access_tracker" where
  "tracker_read k (OneLock l w) = OneLock l w"
| "tracker_read k (AccessTracker tw track writes) = AccessTracker tw (bt_insert k () track) writes"

fun tracker_write :: "key \<Rightarrow> access_tracker \<Rightarrow> access_tracker" where
  "tracker_write k (OneLock l w) = OneLock l w"
| "tracker_write k (AccessTracker tw track writes) =
     AccessTracker tw (if tw then bt_insert k () track else track) (bt_insert k () writes)"

fun collect_into :: "access_tracker \<Rightarrow> key list \<times> key list" where
  "collect_into (OneLock l w) = ([l], if w then [l] else [])"
| "collect_into (AccessTracker tw track writes) = (map fst track, map fst writes)"

section \<open>Sessions\<close>

record queue_info =
  q_prefix :: bytes
  q_head :: u32
  q_tail :: u32
  q_popped :: bool

text \<open>The bytes of \<^verbatim>\<open>_head\<close> and \<^verbatim>\<open>_tail\<close>.\<close>

definition head_key :: bytes where
  "head_key = [95, 104, 101, 97, 100]"

definition tail_key :: bytes where
  "tail_key = [95, 116, 97, 105, 108]"

definition get_number :: "queue_index_codec \<Rightarrow> bytes \<Rightarrow> kv_snapshot \<Rightarrow> bytes \<Rightarrow> kv_error + u32" where
  "get_number codec prefix snap k =
     bind_result (snap_get snap (prefix @ k)) (\<lambda>v.
     case v of None \<Rightarrow> Inr 0 | Some b \<Rightarrow> qc_decode codec b)"

definition queue_info_new :: "queue_index_codec \<Rightarrow> bytes \<Rightarrow> kv_snapshot \<Rightarrow> kv_error + queue_info" where
  "queue_info_new codec prefix snap =
     bind_result (get_number codec prefix snap head_key) (\<lambda>h.
     bind_result (get_number codec prefix snap tail_key) (\<lambda>t.
     bind_result (ensure (\<not> t < h) FailedToDecode) (\<lambda>_.
     Inr \<lparr>q_prefix = prefix, q_head = h, q_tail = t, q_popped = False\<rparr>)))"

definition queue_pop ::
    "queue_index_codec \<Rightarrow> kv_snapshot \<Rightarrow> queue_info \<Rightarrow> kv_error + (val option \<times> queue_info)" where
  "queue_pop codec kvdb q =
     (if q_head q = q_tail q then Inr (None, q)
      else
        bind_result (snap_get kvdb (q_prefix q @ qc_encode codec (q_head q))) (\<lambda>data.
        Inr (data, q\<lparr>q_popped := True, q_head := q_head q + 1\<rparr>)))"

record session =
  ss_kvdb :: kv_snapshot
  ss_tracker :: access_tracker
  ss_updates :: "(key, val option) btree"
  ss_queue :: queue_info

record kv_transaction =
  accessed_keys :: "key list"
  version_updates :: "key list"
  value_updates :: "(key \<times> val option) list"
  kt_queue_head :: "u32 option"
  kt_queue_lock :: "key option"

definition session_new ::
    "queue_index_codec \<Rightarrow> kv_snapshot \<Rightarrow> access_tracker \<Rightarrow> bytes \<Rightarrow> kv_error + session" where
  "session_new codec kvdb tracker prefix =
     bind_result (queue_info_new codec prefix kvdb) (\<lambda>q.
     Inr \<lparr>ss_kvdb = kvdb, ss_tracker = tracker, ss_updates = [], ss_queue = q\<rparr>)"

definition session_commit :: "session \<Rightarrow> kv_transaction \<times> kv_snapshot" where
  "session_commit s =
     (case collect_into (ss_tracker s) of (accessed, versions) \<Rightarrow>
        (\<lparr>accessed_keys = accessed, version_updates = versions, value_updates = ss_updates s,
          kt_queue_head = (if q_popped (ss_queue s) then Some (q_head (ss_queue s)) else None),
          kt_queue_lock = (if q_popped (ss_queue s) then Some (q_prefix (ss_queue s) @ head_key) else None)\<rparr>,
         ss_kvdb s))"

definition session_get :: "key \<Rightarrow> session \<Rightarrow> kv_error + (val option \<times> session)" where
  "session_get k s =
     (case map_of (ss_updates s) k of
        Some v \<Rightarrow> Inr (v, s)
      | None \<Rightarrow>
          let s1 = s\<lparr>ss_tracker := tracker_read k (ss_tracker s)\<rparr>
          in bind_result (snap_get (ss_kvdb s1) k) (\<lambda>v. Inr (v, s1)))"

definition session_put :: "key \<Rightarrow> val \<Rightarrow> session \<Rightarrow> session" where
  "session_put k v s =
     s\<lparr>ss_tracker := tracker_write k (ss_tracker s), ss_updates := bt_insert k (Some v) (ss_updates s)\<rparr>"

definition session_delete :: "key \<Rightarrow> session \<Rightarrow> session" where
  "session_delete k s =
     s\<lparr>ss_tracker := tracker_write k (ss_tracker s), ss_updates := bt_insert k None (ss_updates s)\<rparr>"

definition session_pop :: "queue_index_codec \<Rightarrow> session \<Rightarrow> kv_error + (val option \<times> session)" where
  "session_pop codec s =
     bind_result (queue_pop codec (ss_kvdb s) (ss_queue s)) (\<lambda>(data, q). Inr (data, s\<lparr>ss_queue := q\<rparr>))"

section \<open>Rollup\<close>

datatype version_layout = Standalone key

record rollup_transaction =
  rt_snapshot_id :: val
  rt_conditions :: "(key \<times> val option) list"
  rt_updates :: "(key \<times> val option) list"
  rt_queue_head :: "u32 option"

definition has_updates :: "rollup_transaction \<Rightarrow> bool" where
  "has_updates tx \<longleftrightarrow> rt_queue_head tx \<noteq> None \<or> rt_updates tx \<noteq> []"

definition version_of :: "(key, val option) btree \<Rightarrow> key \<Rightarrow> val option" where
  "version_of versions k = (case map_of versions k of None \<Rightarrow> None | Some v \<Rightarrow> v)"

text \<open>\<open>bump_version\<close> is the method of the trait \<open>BumpVersion\<close>, implemented by the client.\<close>

fun bump_all ::
    "(val option \<Rightarrow> kv_error + val) \<Rightarrow> key \<Rightarrow> (key, val option) btree \<Rightarrow> key list \<Rightarrow>
     kv_error + (key \<times> val option) list" where
  "bump_all bump_version postfix versions [] = Inr []"
| "bump_all bump_version postfix versions (k # ks) =
     bind_result (bump_version (version_of versions (k @ postfix))) (\<lambda>ver.
     bind_result (bump_all bump_version postfix versions ks) (\<lambda>us.
     Inr ((k @ postfix, Some ver) # us)))"

definition rollup ::
    "(val option \<Rightarrow> kv_error + val) \<Rightarrow> kv_snapshot \<Rightarrow> kv_transaction \<Rightarrow> version_layout \<Rightarrow>
     kv_error + rollup_transaction" where
  "rollup bump_version kvdb tx layout =
     (case layout of Standalone postfix \<Rightarrow>
        let lookup_keys = fold (\<lambda>k ks. bt_insert k () ks) (accessed_keys tx @ version_updates tx) [];
            version_keys = map (\<lambda>e. fst e @ postfix) lookup_keys
        in
        bind_result (batch_get kvdb version_keys) (\<lambda>got.
        let versions = fold (\<lambda>(k, v) m. bt_insert k v m) got [];
            conditions = map (\<lambda>k. (k @ postfix, version_of versions (k @ postfix))) (accessed_keys tx)
        in
        bind_result
          (case kt_queue_lock tx of
             None \<Rightarrow> Inr conditions
           | Some lock \<Rightarrow> bind_result (snap_get kvdb lock) (\<lambda>v. Inr (conditions @ [(lock, v)])))
          (\<lambda>conditions'.
        bind_result (bump_all bump_version postfix versions (version_updates tx)) (\<lambda>vups.
        bind_result (snapshot_id kvdb) (\<lambda>sid.
        Inr \<lparr>rt_snapshot_id = sid, rt_conditions = conditions', rt_updates = value_updates tx @ vups,
             rt_queue_head = kt_queue_head tx\<rparr>)))))"

section \<open>What a rollup contains\<close>

text \<open>Over a snapshot that can be read everywhere, the rollup is a function of its values.\<close>

definition reads_as :: "kv_snapshot \<Rightarrow> (key \<rightharpoonup> val) \<Rightarrow> bool" where
  "reads_as kvdb m \<longleftrightarrow> (\<forall>k. snap_get kvdb k = Inr (m k))"

lemma batch_get_reads:
  "reads_as kvdb m \<Longrightarrow> batch_get kvdb ks = Inr (map (\<lambda>k. (k, m k)) ks)"
  by (induction ks) (simp_all add: reads_as_def)

lemma bt_inv_fold_insert: "bt_inv t \<Longrightarrow> bt_inv (fold (\<lambda>(k, v). bt_insert k v) xs t)"
  by (induction xs arbitrary: t) auto

lemma map_of_fold_insert:
  assumes "bt_inv t"
  shows "map_of (fold (\<lambda>(k, v). bt_insert k v) (map (\<lambda>k. (k, f k)) ks) t) k =
    (if k \<in> set ks then Some (f k) else map_of t k)"
  using assms by (induction ks arbitrary: t) auto

lemma fst_fold_insert_unit:
  "fst ` set (fold (\<lambda>k ks. bt_insert k () ks) xs t) = set xs \<union> fst ` set t"
  by (induction xs arbitrary: t) auto

lemma bump_all_Inr:
  "bump_all bump postfix versions ks = Inr us \<Longrightarrow>
     map fst us = map (\<lambda>k. k @ postfix) ks \<and>
     (\<forall>k\<in>set ks. \<exists>v. bump (version_of versions (k @ postfix)) = Inr v \<and> (k @ postfix, Some v) \<in> set us)"
proof (induction ks arbitrary: us)
  case (Cons k ks)
  then obtain v us' where us: "bump (version_of versions (k @ postfix)) = Inr v"
      "bump_all bump postfix versions ks = Inr us'" "us = (k @ postfix, Some v) # us'"
    by (auto simp: result_simps)
  from Cons.IH [OF us(2)] us(1,3) show ?case by auto
qed simp

lemma rollup_Inr:
  assumes "reads_as kvdb m" "rollup bump kvdb tx (Standalone postfix) = Inr r"
  obtains vups where
    "rt_conditions r = map (\<lambda>k. (k @ postfix, m (k @ postfix))) (accessed_keys tx) @
       (case kt_queue_lock tx of None \<Rightarrow> [] | Some lock \<Rightarrow> [(lock, m lock)])"
    "rt_updates r = value_updates tx @ vups" "rt_queue_head r = kt_queue_head tx"
    "map fst vups = map (\<lambda>k. k @ postfix) (version_updates tx)"
    "\<forall>k\<in>set (version_updates tx). \<exists>v. bump (m (k @ postfix)) = Inr v \<and> (k @ postfix, Some v) \<in> set vups"
proof -
  let ?keys = "map (\<lambda>e. fst e @ postfix)
    (fold (\<lambda>k ks. bt_insert k () ks) (accessed_keys tx @ version_updates tx) [])"
  let ?versions = "fold (\<lambda>(k, v) m. bt_insert k v m) (map (\<lambda>k. (k, m k)) ?keys) []"
  have keys: "set ?keys = (\<lambda>k. k @ postfix) ` (set (accessed_keys tx) \<union> set (version_updates tx))"
    unfolding set_map image_image [symmetric, of "\<lambda>k. k @ postfix" fst] fst_fold_insert_unit by simp
  have ver: "version_of ?versions (k @ postfix) = m (k @ postfix)"
    if "k \<in> set (accessed_keys tx) \<union> set (version_updates tx)" for k
    using map_of_fold_insert [of "[]" m ?keys "k @ postfix"] that keys by (simp add: version_of_def)
  from assms(2) obtain vups where r:
    "bump_all bump postfix ?versions (version_updates tx) = Inr vups"
    "rt_updates r = value_updates tx @ vups" "rt_queue_head r = kt_queue_head tx"
    "rt_conditions r = map (\<lambda>k. (k @ postfix, version_of ?versions (k @ postfix))) (accessed_keys tx) @
       (case kt_queue_lock tx of None \<Rightarrow> [] | Some lock \<Rightarrow> [(lock, m lock)])"
    unfolding rollup_def Let_def batch_get_reads [OF assms(1)]
    using assms(1) by (cases "kt_queue_lock tx") (auto simp: result_simps reads_as_def)
  from bump_all_Inr [OF r(1)] ver show thesis
    by (intro that [of vups]) (simp_all add: r)
qed

end
