(* ===== verification/Anchor.thy ===== *)
theory Anchor
  imports Kv_Session
begin

text \<open>
  The chain side of an off-chain rollup, \<^verbatim>\<open>pallets/offchain-rollup/src\<close>: the anchor keeps a
  key-value store and a message queue per claimed name and applies the transactions of the
  owner of the name (\<^verbatim>\<open>anchor.rs\<close>, \<^verbatim>\<open>types.rs\<close>); the sample oracle receives its responses
  (\<^verbatim>\<open>oracle.rs\<close>). \<open>None\<close> is a panic. The types of the source bound keys by 128 bytes, values
  by 2048 and actions by 256, so that longer arguments cannot be passed.
\<close>

section \<open>Types and configuration\<close>

datatype cond = Eq key "val option"

datatype action = Reply bytes | SetQueueHead u32

record rollup_tx =
  tx_conds :: "cond list"
  tx_actions :: "bytes list"
  tx_updates :: "(key \<times> val option) list"

datatype 'r anchor_error =
    NameAlreadyClaimed | NameNotExist | NotOwner | CondNotMet | FailedToDecodeAction
  | QueueIsFull | InvalidQueueHead | ResponseError 'r

datatype 'acc anchor_event = NameClaimed 'acc bytes | RollupExecuted 'acc bytes u128

record ('acc, 'w) anchor =
  submitter_by_names :: "bytes \<rightharpoonup> 'acc"
  anchor_states :: "bytes \<Rightarrow> key \<rightharpoonup> val"
  receiver :: 'w
  anchor_events :: "'acc anchor_event list"

text \<open>
  \<open>on_response\<close> is the handler of the pallet that receives the replies; the encodings are SCALE.
\<close>

record ('acc, 'w, 'r) anchor_env =
  on_response :: "bytes \<Rightarrow> 'acc \<Rightarrow> bytes \<Rightarrow> 'w \<Rightarrow> 'r + 'w"
  queue_prefix :: bytes
  queue_capacity :: u32
  encode_u32 :: "u32 \<Rightarrow> bytes"
  decode_u32 :: "bytes \<Rightarrow> u32 option"
  decode_action :: "bytes \<Rightarrow> action option"

type_synonym ('r, 'a) anchor_call = "('r anchor_error dispatch_error, 'a) call"

section \<open>The queue\<close>

definition queue_key :: "('acc, 'w, 'r) anchor_env \<Rightarrow> bytes \<Rightarrow> key option" where
  "queue_key env encoded =
     (let k = queue_prefix env @ encoded in if length k \<le> 128 then Some k else None)"

definition queue_set ::
    "('acc, 'w, 'r) anchor_env \<Rightarrow> bytes \<Rightarrow> bytes \<Rightarrow> val \<Rightarrow> ('acc, 'w) anchor \<Rightarrow> ('acc, 'w) anchor option" where
  "queue_set env name encoded data s =
     map_option (\<lambda>k. s\<lparr>anchor_states := (anchor_states s)(name := (anchor_states s name)(k \<mapsto> data))\<rparr>)
       (queue_key env encoded)"

definition queue_get ::
    "('acc, 'w, 'r) anchor_env \<Rightarrow> bytes \<Rightarrow> bytes \<Rightarrow> ('acc, 'w) anchor \<Rightarrow> val option option" where
  "queue_get env name encoded s = map_option (anchor_states s name) (queue_key env encoded)"

definition queue_remove ::
    "('acc, 'w, 'r) anchor_env \<Rightarrow> bytes \<Rightarrow> bytes \<Rightarrow> ('acc, 'w) anchor \<Rightarrow> ('acc, 'w) anchor option" where
  "queue_remove env name encoded s =
     map_option (\<lambda>k. s\<lparr>anchor_states := (anchor_states s)(name := (anchor_states s name)(k := None))\<rparr>)
       (queue_key env encoded)"

definition queue_get_u32 ::
    "('acc, 'w, 'r) anchor_env \<Rightarrow> bytes \<Rightarrow> bytes \<Rightarrow> ('acc, 'w) anchor \<Rightarrow> (unit, u32) call" where
  "queue_get_u32 env name index s =
     bind_call (expect_call (queue_get env name index s)) (\<lambda>b.
     case b of None \<Rightarrow> ok_call 0 | Some raw \<Rightarrow> Some (ok_or (decode_u32 env raw) ()))"

definition queue_set_u32 ::
    "('acc, 'w, 'r) anchor_env \<Rightarrow> bytes \<Rightarrow> bytes \<Rightarrow> u32 \<Rightarrow> ('acc, 'w) anchor \<Rightarrow> ('acc, 'w) anchor option" where
  "queue_set_u32 env name index v s = queue_set env name index (encode_u32 env v) s"

definition queue_head :: "('acc, 'w, 'r) anchor_env \<Rightarrow> bytes \<Rightarrow> ('acc, 'w) anchor \<Rightarrow> ('e, u32) call" where
  "queue_head env name s = unwrap_call (queue_get_u32 env name head_key s)"

definition queue_tail :: "('acc, 'w, 'r) anchor_env \<Rightarrow> bytes \<Rightarrow> ('acc, 'w) anchor \<Rightarrow> ('e, u32) call" where
  "queue_tail env name s = unwrap_call (queue_get_u32 env name tail_key s)"

definition queue_len :: "('acc, 'w, 'r) anchor_env \<Rightarrow> bytes \<Rightarrow> ('acc, 'w) anchor \<Rightarrow> ('e, u32) call" where
  "queue_len env name s =
     bind_call (queue_tail env name s) (\<lambda>t.
     bind_call (queue_head env name s) (\<lambda>h.
     ok_call (if h \<le> t then t - h else 0)))"

definition queue_tail_set ::
    "('acc, 'w, 'r) anchor_env \<Rightarrow> bytes \<Rightarrow> u32 \<Rightarrow> ('acc, 'w) anchor \<Rightarrow> ('acc, 'w) anchor option" where
  "queue_tail_set env name index s = queue_set_u32 env name tail_key index s"

definition queue_head_set ::
    "('acc, 'w, 'r) anchor_env \<Rightarrow> bytes \<Rightarrow> u32 \<Rightarrow> ('acc, 'w) anchor \<Rightarrow> ('r, ('acc, 'w) anchor) anchor_call" where
  "queue_head_set env name index s =
     bind_call (queue_head env name s) (\<lambda>h.
     bind_call (queue_tail env name s) (\<lambda>t.
     bind_call (Some (ensure (h \<le> index \<and> index \<le> t) (Module InvalidQueueHead))) (\<lambda>_.
     bind_call (fold_call (\<lambda>i s. expect_call (queue_remove env name (encode_u32 env (of_nat i)) s))
                  [unat h..<unat index] s) (\<lambda>s1.
     expect_call (queue_set_u32 env name head_key index s1)))))"

definition anchor_push_message ::
    "('acc, 'w, 'r) anchor_env \<Rightarrow> bytes \<Rightarrow> val \<Rightarrow> ('acc, 'w) anchor \<Rightarrow>
     ('r anchor_error, u32 \<times> ('acc, 'w) anchor) call" where
  "anchor_push_message env name data s =
     bind_call (Some (ensure (submitter_by_names s name \<noteq> None) NameNotExist)) (\<lambda>_.
     bind_call (queue_len env name s) (\<lambda>n.
     bind_call (Some (ensure (n < queue_capacity env) QueueIsFull)) (\<lambda>_.
     bind_call (queue_tail env name s) (\<lambda>t.
     bind_call (expect_call (queue_set env name (encode_u32 env t) data s)) (\<lambda>s1.
     bind_call (expect_call (queue_tail_set env name (t + 1) s1)) (\<lambda>s2.
     ok_call (t, s2)))))))"

section \<open>Extrinsics\<close>

definition claim_name ::
    "'acc raw_origin \<Rightarrow> bytes \<Rightarrow> ('acc, 'w) anchor \<Rightarrow> 'r anchor_error dispatch_error + ('acc, 'w) anchor" where
  "claim_name orig name s =
     bind_result (ensure_signed orig) (\<lambda>who.
     bind_result (ensure (submitter_by_names s name = None) (Module NameAlreadyClaimed)) (\<lambda>_.
     Inr (s\<lparr>submitter_by_names := (submitter_by_names s)(name \<mapsto> who),
            anchor_events := anchor_events s @ [NameClaimed who name]\<rparr>)))"

definition ensure_name_owner ::
    "bytes \<Rightarrow> 'acc \<Rightarrow> ('acc, 'w) anchor \<Rightarrow> 'r anchor_error dispatch_error + unit" where
  "ensure_name_owner name caller s =
     bind_result (ok_or (submitter_by_names s name) (Module NameNotExist)) (\<lambda>owner.
     ensure (owner = caller) (Module NotOwner))"

fun cond_holds :: "(key \<rightharpoonup> val) \<Rightarrow> cond \<Rightarrow> bool" where
  "cond_holds m (Eq k v) \<longleftrightarrow> m k = v"

definition apply_updates :: "(key \<times> val option) list \<Rightarrow> (key \<rightharpoonup> val) \<Rightarrow> key \<rightharpoonup> val" where
  "apply_updates ups m = fold (\<lambda>(k, v) m. case v of Some x \<Rightarrow> m(k \<mapsto> x) | None \<Rightarrow> m(k := None)) ups m"

definition exec_action ::
    "('acc, 'w, 'r) anchor_env \<Rightarrow> bytes \<Rightarrow> 'acc \<Rightarrow> bytes \<Rightarrow> ('acc, 'w) anchor \<Rightarrow>
     ('r, ('acc, 'w) anchor) anchor_call" where
  "exec_action env name who raw s =
     (case decode_action env raw of
        None \<Rightarrow> Some (Inl (Module FailedToDecodeAction))
      | Some (Reply data) \<Rightarrow>
          (case on_response env name who data (receiver s) of
             Inl e \<Rightarrow> Some (Inl (Module (ResponseError e)))
           | Inr w \<Rightarrow> ok_call (s\<lparr>receiver := w\<rparr>))
      | Some (SetQueueHead h) \<Rightarrow> queue_head_set env name h s)"

definition anchor_rollup ::
    "('acc, 'w, 'r) anchor_env \<Rightarrow> 'acc raw_origin \<Rightarrow> bytes \<Rightarrow> rollup_tx \<Rightarrow> u128 \<Rightarrow> ('acc, 'w) anchor \<Rightarrow>
     ('r, ('acc, 'w) anchor) anchor_call" where
  "anchor_rollup env orig name tx nonce s =
     bind_call (Some (ensure_signed orig)) (\<lambda>who.
     bind_call (Some (ensure_name_owner name who s)) (\<lambda>_.
     bind_call (Some (ensure (\<forall>c\<in>set (tx_conds tx). cond_holds (anchor_states s name) c) (Module CondNotMet))) (\<lambda>_.
     let s1 = s\<lparr>anchor_states := (anchor_states s)
                  (name := apply_updates (tx_updates tx) (anchor_states s name))\<rparr>
     in
     bind_call (fold_call (exec_action env name who) (tx_actions tx) s1) (\<lambda>s2.
     ok_call (s2\<lparr>anchor_events := anchor_events s2 @ [RollupExecuted who name nonce]\<rparr>)))))"

section \<open>The sample oracle\<close>

record price_quote =
  pq_contract_id :: bytes
  pq_price :: u128
  pq_timestamp_ms :: u64

record response_record =
  rr_owner :: bytes
  rr_contract_id :: bytes
  rr_pair :: bytes
  rr_price :: u128
  rr_timestamp_ms :: u64

datatype oracle_error = FailedToAuthenticateResponse | FailedToDecodeResponse

datatype 'acc oracle_event = QuoteReceived bytes 'acc bytes bytes u128

record 'acc oracle_state =
  price_feeds :: "bytes \<times> bytes \<rightharpoonup> price_quote"
  oracle_events :: "'acc oracle_event list"

definition oracle_request ::
    "'acc raw_origin \<Rightarrow> bytes \<Rightarrow> bytes \<Rightarrow> u128 \<Rightarrow> 'acc oracle_state \<Rightarrow> oracle_error dispatch_error + 'acc oracle_state" where
  "oracle_request orig name data nonce s = bind_result (ensure_signed orig) (\<lambda>_. Inr s)"

definition oracle_on_response ::
    "(bytes \<Rightarrow> response_record option) \<Rightarrow> bytes \<Rightarrow> 'acc \<Rightarrow> bytes \<Rightarrow> 'acc oracle_state \<Rightarrow> oracle_error + 'acc oracle_state" where
  "oracle_on_response decode name submitter data s =
     bind_result (ok_or (decode data) FailedToDecodeResponse) (\<lambda>resp.
     if rr_contract_id resp \<noteq> name then Inl FailedToAuthenticateResponse
     else
       Inr (s\<lparr>price_feeds := (price_feeds s)((rr_owner resp, rr_pair resp) \<mapsto>
                \<lparr>pq_contract_id = rr_contract_id resp, pq_price = rr_price resp,
                 pq_timestamp_ms = rr_timestamp_ms resp\<rparr>),
              oracle_events := oracle_events s @
                [QuoteReceived name submitter (rr_owner resp) (rr_pair resp) (rr_price resp)]\<rparr>))"

section \<open>The queue as a list\<close>

text \<open>
  What the queue relies on: a number is read back as it was written, is written in four
  bytes, and the prefix leaves room for the keys.
\<close>

definition codec_laws :: "('acc, 'w, 'r) anchor_env \<Rightarrow> bool" where
  "codec_laws env \<longleftrightarrow> (\<forall>n. decode_u32 env (encode_u32 env n) = Some n) \<and>
     (\<forall>n. length (encode_u32 env n) = 4) \<and> length (queue_prefix env) \<le> 123"

definition item_key :: "('acc, 'w, 'r) anchor_env \<Rightarrow> nat \<Rightarrow> key" where
  "item_key env i = queue_prefix env @ encode_u32 env (of_nat i)"

definition number_at :: "('acc, 'w, 'r) anchor_env \<Rightarrow> (key \<rightharpoonup> val) \<Rightarrow> bytes \<Rightarrow> u32 option" where
  "number_at env m k = (case m (queue_prefix env @ k) of None \<Rightarrow> Some 0 | Some raw \<Rightarrow> decode_u32 env raw)"

text \<open>The store \<open>m\<close> holds the queue \<open>xs\<close>, whose first message has the number \<open>h\<close>.\<close>

definition queue_is :: "('acc, 'w, 'r) anchor_env \<Rightarrow> (key \<rightharpoonup> val) \<Rightarrow> nat \<Rightarrow> val list \<Rightarrow> bool" where
  "queue_is env m h xs \<longleftrightarrow> h + length xs < 2 ^ 32 \<and>
     number_at env m head_key = Some (of_nat h) \<and> number_at env m tail_key = Some (of_nat (h + length xs)) \<and>
     (\<forall>i < length xs. m (item_key env (h + i)) = Some (xs ! i))"

lemma unat_of_nat_u32 [simp]: "n < 2 ^ 32 \<Longrightarrow> unat (of_nat n :: u32) = n"
  by (simp add: unat_of_nat)

lemma call_simps [simp]:
  "bind_call (ok_call x) f = f x" "expect_call (Some x) = ok_call x" "bind_call (Some (Inr x)) f = f x"
  "unwrap_call (ok_call x) = ok_call x"
  by (simp_all add: ok_call_def expect_call_def unwrap_call_def)

lemma encode_inject:
  assumes "codec_laws env" "i < 2 ^ 32" "j < 2 ^ 32"
  shows "encode_u32 env (of_nat i) = encode_u32 env (of_nat j) \<longleftrightarrow> i = j"
proof
  assume "encode_u32 env (of_nat i) = encode_u32 env (of_nat j)"
  then have "(of_nat i :: u32) = of_nat j"
    using assms(1) unfolding codec_laws_def by (metis option.inject)
  then show "i = j" using assms(2,3) by (metis unat_of_nat_u32)
qed simp

lemma item_key_inject:
  "codec_laws env \<Longrightarrow> i < 2 ^ 32 \<Longrightarrow> j < 2 ^ 32 \<Longrightarrow> item_key env i = item_key env j \<longleftrightarrow> i = j"
  by (simp add: item_key_def encode_inject)

lemma index_keys:
  assumes "codec_laws env"
  shows "queue_key env head_key = Some (queue_prefix env @ head_key)"
    and "queue_key env tail_key = Some (queue_prefix env @ tail_key)"
    and "queue_key env (encode_u32 env (of_nat i)) = Some (item_key env i)"
    and "queue_prefix env @ head_key \<noteq> item_key env i"
    and "queue_prefix env @ tail_key \<noteq> item_key env i"
    and "queue_prefix env @ head_key \<noteq> queue_prefix env @ tail_key"
proof -
  have len: "length (encode_u32 env n) = 4" "length (queue_prefix env) \<le> 123" for n
    using assms by (auto simp: codec_laws_def)
  then have ne: "head_key \<noteq> encode_u32 env n" "tail_key \<noteq> encode_u32 env n" for n
    by (auto simp: head_key_def tail_key_def dest!: arg_cong [where f = length])
  show "queue_key env head_key = Some (queue_prefix env @ head_key)"
    and "queue_key env tail_key = Some (queue_prefix env @ tail_key)"
    and "queue_key env (encode_u32 env (of_nat i)) = Some (item_key env i)"
    using len by (simp_all add: queue_key_def head_key_def tail_key_def item_key_def Let_def)
  show "queue_prefix env @ head_key \<noteq> item_key env i" "queue_prefix env @ tail_key \<noteq> item_key env i"
    using ne by (simp_all add: item_key_def)
  show "queue_prefix env @ head_key \<noteq> queue_prefix env @ tail_key"
    by (simp add: head_key_def tail_key_def)
qed

lemma queue_numbers:
  assumes "codec_laws env" "queue_is env (anchor_states s name) h xs"
  shows "queue_head env name s = ok_call (of_nat h)" "queue_tail env name s = ok_call (of_nat (h + length xs))"
    and "queue_len env name s = ok_call (of_nat (length xs))"
proof -
  have num: "unwrap_call (queue_get_u32 env name k s) = ok_call n"
    if "queue_key env k = Some (queue_prefix env @ k)" "number_at env (anchor_states s name) k = Some n" for k n
    using that
    by (auto simp: queue_get_u32_def queue_get_def number_at_def expect_call_def ok_call_def unwrap_call_def
        split: option.splits)
  show ht: "queue_head env name s = ok_call (of_nat h)" "queue_tail env name s = ok_call (of_nat (h + length xs))"
    unfolding queue_head_def queue_tail_def using assms index_keys [OF assms(1)]
    by (auto simp: queue_is_def intro!: num)
  have bound: "h + length xs < 2 ^ 32" using assms(2) by (simp add: queue_is_def)
  then have "(of_nat h :: u32) \<le> of_nat (h + length xs)"
    by (simp add: word_le_nat_alt del: of_nat_add)
  then show "queue_len env name s = ok_call (of_nat (length xs))"
    by (simp add: queue_len_def ht)
qed

lemma number_at_upd:
  "number_at env (m(k \<mapsto> x)) q =
     (if k = queue_prefix env @ q then decode_u32 env x else number_at env m q)"
  "number_at env (m(k := None)) q =
     (if k = queue_prefix env @ q then Some 0 else number_at env m q)"
  by (simp_all add: number_at_def)

lemma queue_is_push:
  assumes "codec_laws env" "queue_is env m h xs" "h + length xs + 1 < 2 ^ 32"
  shows "queue_is env (m(item_key env (h + length xs) \<mapsto> x,
      queue_prefix env @ tail_key \<mapsto> encode_u32 env (of_nat (h + length xs + 1)))) h (xs @ [x])"
proof -
  note keys = index_keys [OF assms(1)]
  have dec: "decode_u32 env (encode_u32 env n) = Some n" for n
    using assms(1) by (simp add: codec_laws_def)
  let ?k = "item_key env (h + length xs)"
  let ?m = "m(?k \<mapsto> x, queue_prefix env @ tail_key \<mapsto> encode_u32 env (of_nat (h + length xs + 1)))"
  have nums: "number_at env ?m head_key = number_at env m head_key"
    "number_at env ?m tail_key = Some (of_nat (h + length xs + 1))"
    using keys by (auto simp: number_at_def dec)
  have "?m (item_key env (h + i)) = Some ((xs @ [x]) ! i)" if "i < length (xs @ [x])" for i
  proof (cases "i = length xs")
    case True
    then show ?thesis using keys(5) [of "h + length xs"] by simp
  next
    case False
    with that have i: "i < length xs" by simp
    then have "item_key env (h + i) \<noteq> ?k"
      using item_key_inject [OF assms(1), of "h + i" "h + length xs"] assms(3) by simp
    with i assms(2) keys(5) [of "h + i"] show ?thesis
      by (auto simp: queue_is_def nth_append)
  qed
  with assms(2,3) nums show ?thesis by (simp add: queue_is_def del: of_nat_add fun_upd_apply)
qed

lemma remove_range:
  assumes "codec_laws env"
  shows "fold_call (\<lambda>i s. expect_call (queue_remove env name (encode_u32 env (of_nat i)) s)) ns s =
    (ok_call (s\<lparr>anchor_states := (anchor_states s)(name :=
      (\<lambda>k. if k \<in> item_key env ` set ns then None else anchor_states s name k))\<rparr>) :: ('e, _) call)"
proof (induction ns arbitrary: s)
  case Nil
  then show ?case by (simp add: ok_call_def)
next
  case (Cons i ns)
  let ?s = "s\<lparr>anchor_states := (anchor_states s)(name := (anchor_states s name)(item_key env i := None))\<rparr>"
  have "queue_remove env name (encode_u32 env (of_nat i)) s = Some ?s"
    by (simp add: queue_remove_def index_keys [OF assms])
  then have "fold_call (\<lambda>i s. expect_call (queue_remove env name (encode_u32 env (of_nat i)) s)) (i # ns) s =
      (fold_call (\<lambda>i s. expect_call (queue_remove env name (encode_u32 env (of_nat i)) s)) ns ?s :: ('e, _) call)"
    by simp
  also have "\<dots> = ok_call (?s\<lparr>anchor_states := (anchor_states ?s)(name :=
      (\<lambda>k. if k \<in> item_key env ` set ns then None else anchor_states ?s name k))\<rparr>)"
    by (rule Cons.IH)
  also have "\<dots> = ok_call (s\<lparr>anchor_states := (anchor_states s)(name :=
      (\<lambda>k. if k \<in> item_key env ` set (i # ns) then None else anchor_states s name k))\<rparr>)"
    by (rule arg_cong [where f = ok_call], rule anchor.equality) (simp_all add: fun_eq_iff)
  finally show ?case .
qed

lemma queue_head_set_list:
  assumes "codec_laws env" "queue_is env (anchor_states s name) h xs" "n \<le> length xs"
  shows "\<exists>s'. queue_head_set env name (of_nat (h + n)) s = ok_call s' \<and>
    queue_is env (anchor_states s' name) (h + n) (drop n xs) \<and>
    (\<forall>k. k \<noteq> queue_prefix env @ head_key \<and> k \<notin> item_key env ` {h..<h + n} \<longrightarrow>
       anchor_states s' name k = anchor_states s name k) \<and>
    (\<forall>c. c \<noteq> name \<longrightarrow> anchor_states s' c = anchor_states s c) \<and>
    submitter_by_names s' = submitter_by_names s"
proof -
  note keys = index_keys [OF assms(1)]
  have bound: "h + length xs < 2 ^ 32" using assms(2) by (simp add: queue_is_def)
  have dec: "decode_u32 env (encode_u32 env k) = Some k" for k
    using assms(1) by (simp add: codec_laws_def)
  let ?m = "anchor_states s name"
  let ?m1 = "\<lambda>k. if k \<in> item_key env ` {h..<h + n} then None else ?m k"
  let ?m2 = "?m1(queue_prefix env @ head_key \<mapsto> encode_u32 env (of_nat (h + n)))"
  let ?s = "s\<lparr>anchor_states := (anchor_states s)(name := ?m2)\<rparr>"
  have range: "(of_nat h :: u32) \<le> of_nat (h + n)" "(of_nat (h + n) :: u32) \<le> of_nat (h + length xs)"
    "unat (of_nat h :: u32) = h" "unat (of_nat (h + n) :: u32) = h + n"
    using assms(3) bound by (simp_all add: word_le_nat_alt del: of_nat_add)
  have run: "queue_head_set env name (of_nat (h + n)) s = ok_call ?s"
    using range
    by (simp add: queue_head_set_def queue_numbers [OF assms(1,2)] remove_range [OF assms(1)]
        queue_set_u32_def queue_set_def keys del: of_nat_add)
  have inj: "item_key env (h + i) \<notin> item_key env ` {h..<h + n}" if "n \<le> i" "i < length xs" for i
  proof
    assume "item_key env (h + i) \<in> item_key env ` {h..<h + n}"
    then obtain j where j: "h \<le> j" "j < h + n" "item_key env (h + i) = item_key env j" by auto
    with item_key_inject [OF assms(1), of "h + i" j] that bound assms(3) show False by simp
  qed
  have nums: "number_at env ?m2 head_key = Some (of_nat (h + n))"
    "number_at env ?m2 tail_key = number_at env ?m tail_key"
    using keys by (auto simp: number_at_def dec)
  have "queue_is env ?m2 (h + n) (drop n xs)"
    unfolding queue_is_def nums
    using assms(2,3) bound inj keys(4) [THEN not_sym] by (auto simp: queue_is_def add.assoc)
  with run keys show ?thesis by (intro exI [of _ ?s]) auto
qed

lemma anchor_push_list:
  assumes "codec_laws env" "queue_is env (anchor_states s name) h xs" "h + length xs + 1 < 2 ^ 32"
    and "submitter_by_names s name \<noteq> None" "length xs < unat (queue_capacity env)"
  shows "anchor_push_message env name x s = ok_call (of_nat (h + length xs),
    s\<lparr>anchor_states := (anchor_states s)(name := (anchor_states s name)
       (item_key env (h + length xs) \<mapsto> x,
        queue_prefix env @ tail_key \<mapsto> encode_u32 env (of_nat (h + length xs + 1))))\<rparr>)"
proof -
  note keys = index_keys [OF assms(1)]
  have "(of_nat (length xs) :: u32) < queue_capacity env"
    using assms(3,5) by (simp add: word_less_nat_alt)
  then show ?thesis
    using assms(4)
    by (simp add: anchor_push_message_def queue_numbers [OF assms(1,2)] queue_set_def keys
        queue_tail_set_def queue_set_u32_def add.commute [of 1] del: of_nat_add)
qed

end
