(* ===== verification/Rollup_Safety.thy ===== *)
theory Rollup_Safety
  imports Anchor "HOL-Library.Sublist"
begin

text \<open>
  The client and the chain side of a rollup together. A client opens a session on a snapshot
  of the store, runs a program of reads, writes and pops on it and sends the resulting
  transaction; the anchor applies it to a later state. With the tracker that records reads and
  writes an accepted transaction has the effect of running the program atomically on that
  later state. With the tracker that records reads only this is not so.
\<close>

section \<open>Programs and their atomic meaning\<close>

datatype prog =
    PDone
  | PGet key "val option \<Rightarrow> prog"
  | PPut key val prog
  | PDelete key prog
  | PPop "val option \<Rightarrow> prog"

primrec run_prog :: "prog \<Rightarrow> queue_index_codec \<Rightarrow> session \<Rightarrow> kv_error + session" where
  "run_prog PDone codec s = Inr s"
| "run_prog (PGet k f) codec s =
     (case session_get k s of Inl e \<Rightarrow> Inl e | Inr (v, s') \<Rightarrow> run_prog (f v) codec s')"
| "run_prog (PPut k v p) codec s = run_prog p codec (session_put k v s)"
| "run_prog (PDelete k p) codec s = run_prog p codec (session_delete k s)"
| "run_prog (PPop f) codec s =
     (case session_pop codec s of Inl e \<Rightarrow> Inl e | Inr (v, s') \<Rightarrow> run_prog (f v) codec s')"

text \<open>The same program on a store and a queue, in one go.\<close>

primrec spec_prog :: "prog \<Rightarrow> (key \<rightharpoonup> val) \<Rightarrow> val list \<Rightarrow> (key \<rightharpoonup> val) \<times> val list" where
  "spec_prog PDone m q = (m, q)"
| "spec_prog (PGet k f) m q = spec_prog (f (m k)) m q"
| "spec_prog (PPut k v p) m q = spec_prog p (m(k \<mapsto> v)) q"
| "spec_prog (PDelete k p) m q = spec_prog p (m(k := None)) q"
| "spec_prog (PPop f) m q =
     (case q of [] \<Rightarrow> spec_prog (f None) m q | x # q' \<Rightarrow> spec_prog (f (Some x)) m q')"

primrec prog_keys :: "(key \<Rightarrow> bool) \<Rightarrow> prog \<Rightarrow> bool" where
  "prog_keys P PDone \<longleftrightarrow> True"
| "prog_keys P (PGet k f) \<longleftrightarrow> P k \<and> (\<forall>v. prog_keys P (f v))"
| "prog_keys P (PPut k v p) \<longleftrightarrow> P k \<and> prog_keys P p"
| "prog_keys P (PDelete k p) \<longleftrightarrow> P k \<and> prog_keys P p"
| "prog_keys P (PPop f) \<longleftrightarrow> (\<forall>v. prog_keys P (f v))"

section \<open>The client\<close>

text \<open>
  The instances of the interfaces of a session for the anchor: its store as a snapshot, the
  codec of the queue indices, and the transaction in the form the anchor takes. A transaction
  without updates is not sent. They follow the client in the test of the anchor, which panics
  on keys and values longer than the anchor's types allow and then sends nothing.
\<close>

definition scale_codec :: "('acc, 'w, 'r) anchor_env \<Rightarrow> queue_index_codec" where
  "scale_codec env =
     \<lparr>qc_encode = encode_u32 env, qc_decode = (\<lambda>raw. ok_or (decode_u32 env raw) FailedToDecode)\<rparr>"

definition chain_storage :: "(key \<rightharpoonup> val) \<Rightarrow> kv_snapshot" where
  "chain_storage m = \<lparr>snapshot_id = Inr [], snap_get = (\<lambda>k. Inr (m k))\<rparr>"

definition to_rollup_tx :: "(action \<Rightarrow> bytes) \<Rightarrow> rollup_transaction \<Rightarrow> rollup_tx option" where
  "to_rollup_tx encode_action tx =
     (if \<not> has_updates tx then None
      else Some \<lparr>tx_conds = map (\<lambda>(k, v). Eq k v) (rt_conditions tx),
                 tx_actions = (case rt_queue_head tx of None \<Rightarrow> [] | Some h \<Rightarrow> [encode_action (SetQueueHead h)]),
                 tx_updates = rt_updates tx\<rparr>)"

record client =
  cl_encode_action :: "action \<Rightarrow> bytes"
  cl_bump :: "val option \<Rightarrow> kv_error + val"
  cl_postfix :: key
  cl_tracker :: access_tracker

definition client_tx ::
    "('acc, 'w, 'r) anchor_env \<Rightarrow> client \<Rightarrow> (key \<rightharpoonup> val) \<Rightarrow> prog \<Rightarrow> kv_error + rollup_tx option" where
  "client_tx env cl m p =
     bind_result (session_new (scale_codec env) (chain_storage m) (cl_tracker cl) (queue_prefix env)) (\<lambda>s.
     bind_result (run_prog p (scale_codec env) s) (\<lambda>s'.
     bind_result (rollup (cl_bump cl) (snd (session_commit s')) (fst (session_commit s'))
                    (Standalone (cl_postfix cl))) (\<lambda>r.
     Inr (to_rollup_tx (cl_encode_action cl) r))))"

text \<open>
  Keys for data: neither the key nor its version key belongs to the queue, and it is no
  version key itself.
\<close>

definition data_key :: "('acc, 'w, 'r) anchor_env \<Rightarrow> client \<Rightarrow> key \<Rightarrow> bool" where
  "data_key env cl k \<longleftrightarrow> \<not> prefix (queue_prefix env) k \<and> \<not> suffix (cl_postfix cl) k \<and>
     \<not> prefix (queue_prefix env) (k @ cl_postfix cl)"

definition data_of :: "('acc, 'w, 'r) anchor_env \<Rightarrow> client \<Rightarrow> (key \<rightharpoonup> val) \<Rightarrow> key \<rightharpoonup> val" where
  "data_of env cl m k = (if data_key env cl k then m k else None)"

section \<open>Sessions simulate programs\<close>

definition overlay :: "(key \<rightharpoonup> val) \<Rightarrow> (key \<times> val option) list \<Rightarrow> key \<rightharpoonup> val" where
  "overlay m ups k = (case map_of ups k of None \<Rightarrow> m k | Some v \<Rightarrow> v)"

lemma overlay_insert [simp]: "bt_inv u \<Longrightarrow> overlay m (bt_insert k v u) = (overlay m u)(k := v)"
  by (auto simp: overlay_def fun_eq_iff)

lemma apply_updates_Cons: "apply_updates ((k, v) # ups) m = apply_updates ups (m(k := v))"
  by (simp add: apply_updates_def split: option.splits)

lemma apply_updates_overlay:
  "distinct (map fst ups) \<Longrightarrow> apply_updates ups m = overlay m ups"
proof (induction ups arbitrary: m)
  case Nil
  then show ?case by (simp add: apply_updates_def overlay_def fun_eq_iff)
next
  case (Cons u ups)
  obtain k v where u: "u = (k, v)" by (cases u)
  have "map_of ups k = None" using Cons.prems u by (simp add: map_of_eq_None_iff)
  with Cons u show ?case
    by (auto simp: apply_updates_Cons overlay_def fun_eq_iff split: option.splits)
qed

definition bt_keys :: "('k \<times> 'v) list \<Rightarrow> 'k set" where
  "bt_keys u = fst ` set u"

lemma bt_keys_simps [simp]: "bt_keys [] = {}" "bt_keys (bt_insert k v u) = insert k (bt_keys u)"
  by (simp_all add: bt_keys_def)

fun tracked :: "access_tracker \<Rightarrow> key set" where
  "tracked (OneLock l w) = {l}"
| "tracked (AccessTracker tw track writes) = bt_keys track"

text \<open>A session with the tracker of reads and writes, over the store \<open>m\<close>.\<close>

definition rw_session :: "(key \<rightharpoonup> val) \<Rightarrow> session \<Rightarrow> bool" where
  "rw_session m s \<longleftrightarrow> ss_kvdb s = chain_storage m \<and> bt_inv (ss_updates s) \<and>
     (\<exists>track writes. ss_tracker s = AccessTracker True track writes \<and> bt_inv track \<and> bt_inv writes \<and>
        bt_keys writes = bt_keys (ss_updates s) \<and> bt_keys writes \<subseteq> bt_keys track)"

text \<open>The messages the session has not popped yet.\<close>

definition pending :: "('acc, 'w, 'r) anchor_env \<Rightarrow> (key \<rightharpoonup> val) \<Rightarrow> session \<Rightarrow> nat \<Rightarrow> val list \<Rightarrow> bool" where
  "pending env m s h xs \<longleftrightarrow> h + length xs < 2 ^ 32 \<and> q_prefix (ss_queue s) = queue_prefix env \<and>
     q_head (ss_queue s) = of_nat h \<and> q_tail (ss_queue s) = of_nat (h + length xs) \<and>
     (\<forall>i < length xs. m (item_key env (h + i)) = Some (xs ! i))"

lemma session_get_rw:
  assumes "rw_session m s"
  shows "\<exists>s'. session_get k s = Inr (overlay m (ss_updates s) k, s') \<and> rw_session m s' \<and>
    ss_updates s' = ss_updates s \<and> ss_queue s' = ss_queue s \<and>
    tracked (ss_tracker s) \<subseteq> tracked (ss_tracker s') \<and>
    tracked (ss_tracker s') \<subseteq> insert k (tracked (ss_tracker s)) \<and>
    (map_of (ss_updates s) k = None \<longrightarrow> k \<in> tracked (ss_tracker s'))"
proof (cases "map_of (ss_updates s) k")
  case None
  with assms show ?thesis
    by (auto simp: session_get_def rw_session_def overlay_def chain_storage_def Let_def)
next
  case (Some v)
  with assms show ?thesis by (auto simp: session_get_def overlay_def)
qed

lemma session_write_rw:
  assumes "rw_session m s"
    and "s' = s\<lparr>ss_tracker := tracker_write k (ss_tracker s), ss_updates := bt_insert k v (ss_updates s)\<rparr>"
  shows "rw_session m s'" "ss_queue s' = ss_queue s" "tracked (ss_tracker s) \<subseteq> tracked (ss_tracker s')"
    "tracked (ss_tracker s') \<subseteq> insert k (tracked (ss_tracker s))"
    "overlay m2 (ss_updates s') = (overlay m2 (ss_updates s))(k := v)"
    "bt_keys (ss_updates s') = insert k (bt_keys (ss_updates s))"
  using assms by (auto simp: rw_session_def)

lemma session_pop_rw:
  assumes "rw_session m s" "pending env m s h xs"
  shows "xs = [] \<Longrightarrow> session_pop (scale_codec env) s = Inr (None, s)"
    and "xs = x # xs' \<Longrightarrow> \<exists>s'. session_pop (scale_codec env) s = Inr (Some x, s') \<and> rw_session m s' \<and>
      pending env m s' (h + 1) xs' \<and> q_popped (ss_queue s') \<and>
      ss_updates s' = ss_updates s \<and> ss_tracker s' = ss_tracker s"
proof -
  have bound: "h + length xs < 2 ^ 32" and q: "q_prefix (ss_queue s) = queue_prefix env"
      "q_head (ss_queue s) = of_nat h" "q_tail (ss_queue s) = of_nat (h + length xs)"
      "\<forall>i < length xs. m (item_key env (h + i)) = Some (xs ! i)"
    using assms(2) by (auto simp: pending_def)
  show "session_pop (scale_codec env) s = Inr (None, s)" if "xs = []"
    using q that by (simp add: session_pop_def queue_pop_def)
  assume xs: "xs = x # xs'"
  have ne: "(of_nat h :: u32) \<noteq> of_nat (h + length xs)"
  proof
    assume "(of_nat h :: u32) = of_nat (h + length xs)"
    then have "h = h + length xs" using bound by (metis unat_of_nat_u32 le_add1 le_less_trans)
    with xs show False by simp
  qed
  have item: "m (queue_prefix env @ encode_u32 env (of_nat h)) = Some x"
    using q(4) xs by (fastforce simp: item_key_def)
  let ?s = "s\<lparr>ss_queue := (ss_queue s)\<lparr>q_popped := True, q_head := of_nat h + 1\<rparr>\<rparr>"
  have "session_pop (scale_codec env) s = Inr (Some x, ?s)"
    using q(1-3) ne item assms(1)
    by (simp add: session_pop_def queue_pop_def scale_codec_def rw_session_def chain_storage_def del: of_nat_add)
  moreover have "pending env m ?s (h + 1) xs'"
    using q bound xs by (force simp: pending_def add.assoc)
  moreover have "rw_session m ?s" using assms(1) by (simp add: rw_session_def)
  ultimately show "\<exists>s'. session_pop (scale_codec env) s = Inr (Some x, s') \<and> rw_session m s' \<and>
      pending env m s' (h + 1) xs' \<and> q_popped (ss_queue s') \<and>
      ss_updates s' = ss_updates s \<and> ss_tracker s' = ss_tracker s"
    by (intro exI [of _ ?s]) simp
qed

text \<open>
  What running a program on a session achieves: it pops \<open>n\<close> messages, and on every store that
  agrees with the snapshot on the tracked keys the atomic program does the same.
\<close>

definition simulates ::
    "('acc, 'w, 'r) anchor_env \<Rightarrow> (key \<Rightarrow> bool) \<Rightarrow> (key \<rightharpoonup> val) \<Rightarrow> prog \<Rightarrow> session \<Rightarrow> nat \<Rightarrow> val list \<Rightarrow> session \<Rightarrow> nat \<Rightarrow> bool" where
  "simulates env P m p s h xs s' n \<longleftrightarrow> n \<le> length xs \<and> rw_session m s' \<and>
     pending env m s' (h + n) (drop n xs) \<and> (q_popped (ss_queue s') \<longleftrightarrow> q_popped (ss_queue s) \<or> 0 < n) \<and>
     tracked (ss_tracker s) \<subseteq> tracked (ss_tracker s') \<and>
     (\<forall>k\<in>tracked (ss_tracker s'). k \<in> tracked (ss_tracker s) \<or> P k) \<and>
     (\<forall>m2. (\<forall>k\<in>tracked (ss_tracker s'). m2 k = m k) \<longrightarrow>
        spec_prog p (overlay m2 (ss_updates s)) xs = (overlay m2 (ss_updates s'), drop n xs))"

lemma run_prog_simulates:
  assumes "run_prog p (scale_codec env) s = Inr s'" "prog_keys P p" "rw_session m s" "pending env m s h xs"
  shows "\<exists>n. simulates env P m p s h xs s' n"
  using assms
proof (induction p arbitrary: s h xs)
  case PDone
  then show ?case by (intro exI [of _ 0]) (auto simp: simulates_def)
next
  case (PGet k f)
  obtain s1 where s1: "session_get k s = Inr (overlay m (ss_updates s) k, s1)" "rw_session m s1"
      "ss_updates s1 = ss_updates s" "ss_queue s1 = ss_queue s"
      "tracked (ss_tracker s) \<subseteq> tracked (ss_tracker s1)"
      "tracked (ss_tracker s1) \<subseteq> insert k (tracked (ss_tracker s))"
      "map_of (ss_updates s) k = None \<longrightarrow> k \<in> tracked (ss_tracker s1)"
    using session_get_rw [OF PGet.prems(3)] by blast
  have "pending env m s1 h xs" using PGet.prems(4) s1(4) by (simp add: pending_def)
  with PGet.IH [OF rangeI [of f "overlay m (ss_updates s) k"], of s1 h xs] PGet.prems(1,2) s1(1,2)
  obtain n where n: "simulates env P m (f (overlay m (ss_updates s) k)) s1 h xs s' n" by auto
  have "spec_prog (PGet k f) (overlay m2 (ss_updates s)) xs = (overlay m2 (ss_updates s'), drop n xs)"
    if agree: "\<forall>k\<in>tracked (ss_tracker s'). m2 k = m k" for m2
  proof -
    have "k \<in> tracked (ss_tracker s')" if "map_of (ss_updates s) k = None"
      using n s1(7) that by (auto simp: simulates_def)
    with agree have "overlay m2 (ss_updates s) k = overlay m (ss_updates s) k"
      by (auto simp: overlay_def split: option.splits)
    with n agree s1(3) show ?thesis by (simp add: simulates_def)
  qed
  with n s1 PGet.prems(2) show ?case by (intro exI [of _ n]) (auto simp: simulates_def)
next
  case (PPut k v p)
  note w = session_write_rw [OF PPut.prems(3), of "session_put k v s" k "Some v", unfolded session_put_def, OF refl,
      folded session_put_def]
  have "pending env m (session_put k v s) h xs" using PPut.prems(4) w(2) by (simp add: pending_def)
  with PPut.IH [of "session_put k v s" h xs] PPut.prems(1,2) w(1)
  obtain n where "simulates env P m p (session_put k v s) h xs s' n" by auto
  with w PPut.prems(2) show ?case by (intro exI [of _ n]) (auto simp: simulates_def)
next
  case (PDelete k p)
  note w = session_write_rw [OF PDelete.prems(3), of "session_delete k s" k None, unfolded session_delete_def,
      OF refl, folded session_delete_def]
  have "pending env m (session_delete k s) h xs" using PDelete.prems(4) w(2) by (simp add: pending_def)
  with PDelete.IH [of "session_delete k s" h xs] PDelete.prems(1,2) w(1)
  obtain n where "simulates env P m p (session_delete k s) h xs s' n" by auto
  with w PDelete.prems(2) show ?case by (intro exI [of _ n]) (auto simp: simulates_def)
next
  case (PPop f)
  show ?case
  proof (cases xs)
    case Nil
    note pop = session_pop_rw(1) [OF PPop.prems(3,4) this]
    with PPop.IH [OF rangeI [of f None], of s h xs] PPop.prems obtain n where "simulates env P m (f None) s h xs s' n" by auto
    with Nil show ?thesis by (intro exI [of _ n]) (auto simp: simulates_def)
  next
    case (Cons x xs')
    then obtain s1 where s1: "session_pop (scale_codec env) s = Inr (Some x, s1)" "rw_session m s1"
        "pending env m s1 (h + 1) xs'" "q_popped (ss_queue s1)" "ss_updates s1 = ss_updates s"
        "ss_tracker s1 = ss_tracker s"
      using session_pop_rw(2) [OF PPop.prems(3,4)] by blast
    with PPop.IH [OF rangeI [of f "Some x"], of s1 "h + 1" xs'] PPop.prems(1,2)
    obtain n where "simulates env P m (f (Some x)) s1 (h + 1) xs' s' n" by auto
    with s1 Cons show ?thesis by (intro exI [of _ "Suc n"]) (auto simp: simulates_def)
  qed
qed

section \<open>Transactions of a client\<close>

text \<open>
  What the transaction of a session over \<open>m\<close> contains: the updates \<open>ups\<close>, a new version for every
  written key, the versions of the tracked keys \<open>T\<close> as conditions and, when messages were popped,
  the new head with the old one as a condition.
\<close>

definition tx_shape ::
    "('acc, 'w, 'r) anchor_env \<Rightarrow> client \<Rightarrow> (key \<rightharpoonup> val) \<Rightarrow> (key \<times> val option) list \<Rightarrow> key set \<Rightarrow> u32 option \<Rightarrow>
     rollup_tx \<Rightarrow> bool" where
  "tx_shape env cl m ups T new_head tx \<longleftrightarrow>
     (\<exists>vups W. tx_updates tx = ups @ vups \<and> distinct W \<and> set W = bt_keys ups \<and>
        map fst vups = map (\<lambda>k. k @ cl_postfix cl) W \<and>
        (\<forall>k\<in>set W. \<exists>v. cl_bump cl (m (k @ cl_postfix cl)) = Inr v \<and> (k @ cl_postfix cl, Some v) \<in> set vups)) \<and>
     bt_inv ups \<and> bt_keys ups \<subseteq> T \<and> (\<forall>k\<in>T. data_key env cl k) \<and>
     (\<forall>k\<in>T. Eq (k @ cl_postfix cl) (m (k @ cl_postfix cl)) \<in> set (tx_conds tx)) \<and>
     (case new_head of
        None \<Rightarrow> tx_actions tx = []
      | Some i \<Rightarrow> tx_actions tx = [cl_encode_action cl (SetQueueHead i)] \<and>
          Eq (queue_prefix env @ head_key) (m (queue_prefix env @ head_key)) \<in> set (tx_conds tx))"

lemma reads_as_chain_storage: "reads_as (chain_storage m) m"
  by (simp add: reads_as_def chain_storage_def)

lemma session_new_pending:
  assumes "queue_is env m h xs" "session_new (scale_codec env) (chain_storage m) RwTracker (queue_prefix env) = Inr s"
  shows "rw_session m s" "pending env m s h xs" "ss_updates s = []" "\<not> q_popped (ss_queue s)"
    "tracked (ss_tracker s) = {}"
proof -
  have num: "get_number (scale_codec env) (queue_prefix env) (chain_storage m) k = Inr n \<longleftrightarrow>
      number_at env m k = Some n" for k n
    by (auto simp: get_number_def chain_storage_def scale_codec_def number_at_def result_simps split: option.splits)
  from assms obtain q where q: "s = \<lparr>ss_kvdb = chain_storage m, ss_tracker = RwTracker, ss_updates = [], ss_queue = q\<rparr>"
      "q = \<lparr>q_prefix = queue_prefix env, q_head = of_nat h, q_tail = of_nat (h + length xs), q_popped = False\<rparr>"
    by (auto simp: session_new_def queue_info_new_def result_simps num queue_is_def)
  with assms(1) show "rw_session m s" "pending env m s h xs" "ss_updates s = []" "\<not> q_popped (ss_queue s)"
    "tracked (ss_tracker s) = {}"
    by (auto simp: rw_session_def access_tracker_new_def pending_def queue_is_def)
qed

text \<open>Committing a session and rolling it up gives a transaction of this shape.\<close>

lemma commit_tx_shape:
  assumes sim: "simulates env (data_key env cl) m p s h xs s' n" "tracked (ss_tracker s) = {}" "\<not> q_popped (ss_queue s)"
    and r: "rollup (cl_bump cl) (snd (session_commit s')) (fst (session_commit s')) (Standalone (cl_postfix cl)) = Inr r"
    and tx: "to_rollup_tx (cl_encode_action cl) r = Some tx"
  shows "tx_shape env cl m (ss_updates s') (tracked (ss_tracker s')) (if 0 < n then Some (of_nat (h + n)) else None) tx"
proof -
  from sim(1) obtain track writes where tr: "ss_tracker s' = AccessTracker True track writes"
      "ss_kvdb s' = chain_storage m" "bt_inv (ss_updates s')" "bt_inv writes"
      "bt_keys writes = bt_keys (ss_updates s')" "bt_keys writes \<subseteq> bt_keys track"
    by (auto simp: simulates_def rw_session_def)
  have pop: "q_popped (ss_queue s') \<longleftrightarrow> 0 < n" "q_head (ss_queue s') = of_nat (h + n)"
      "q_prefix (ss_queue s') = queue_prefix env"
    using sim by (auto simp: simulates_def pending_def)
  have commit: "session_commit s' =
      (\<lparr>accessed_keys = map fst track, version_updates = map fst writes, value_updates = ss_updates s',
        kt_queue_head = (if 0 < n then Some (of_nat (h + n)) else None),
        kt_queue_lock = (if 0 < n then Some (queue_prefix env @ head_key) else None)\<rparr>, chain_storage m)"
    by (simp add: session_commit_def tr pop)
  obtain vups where vups:
    "rt_conditions r = map (\<lambda>k. (k @ cl_postfix cl, m (k @ cl_postfix cl))) (map fst track) @
       (if 0 < n then [(queue_prefix env @ head_key, m (queue_prefix env @ head_key))] else [])"
    "rt_updates r = ss_updates s' @ vups" "rt_queue_head r = (if 0 < n then Some (of_nat (h + n)) else None)"
    "map fst vups = map (\<lambda>k. k @ cl_postfix cl) (map fst writes)"
    "\<forall>k\<in>set (map fst writes). \<exists>v. cl_bump cl (m (k @ cl_postfix cl)) = Inr v \<and> (k @ cl_postfix cl, Some v) \<in> set vups"
    by (rule rollup_Inr [OF reads_as_chain_storage r [unfolded commit snd_conv fst_conv]])
      (simp split: if_splits)
  have W: "distinct (map fst writes)" "set (map fst writes) = bt_keys (ss_updates s')"
    using tr(4,5) bt_inv_distinct by (auto simp: bt_keys_def)
  have t: "tx_conds tx = map (\<lambda>(k, v). Eq k v) (rt_conditions r)" "tx_updates tx = ss_updates s' @ vups"
      "tx_actions tx = (if 0 < n then [cl_encode_action cl (SetQueueHead (of_nat (h + n)))] else [])"
    using tx vups(2,3) by (auto simp: to_rollup_tx_def split: if_splits)
  have "\<forall>k\<in>bt_keys track. Eq (k @ cl_postfix cl) (m (k @ cl_postfix cl)) \<in> set (tx_conds tx)"
    "0 < n \<Longrightarrow> Eq (queue_prefix env @ head_key) (m (queue_prefix env @ head_key)) \<in> set (tx_conds tx)"
    by (force simp: t vups(1) bt_keys_def) (simp add: t vups(1))
  moreover have "\<forall>k\<in>tracked (ss_tracker s'). data_key env cl k"
    using sim by (auto simp: simulates_def)
  ultimately show ?thesis
    unfolding tx_shape_def using W vups(4,5) t tr by (auto intro!: exI [of _ vups] exI [of _ "map fst writes"])
qed

lemma client_tx_shape:
  assumes "client_tx env cl m p = Inr (Some tx)" "cl_tracker cl = RwTracker"
    and "queue_is env m h xs" "prog_keys (data_key env cl) p"
  obtains ups T n where "tx_shape env cl m ups T (if 0 < n then Some (of_nat (h + n)) else None) tx"
    "n \<le> length xs"
    "\<And>m2. (\<forall>k\<in>T. m2 k = m k) \<Longrightarrow> spec_prog p m2 xs = (overlay m2 ups, drop n xs)"
proof -
  from assms(1,2) obtain s s' r where s:
    "session_new (scale_codec env) (chain_storage m) RwTracker (queue_prefix env) = Inr s"
    "run_prog p (scale_codec env) s = Inr s'"
    "rollup (cl_bump cl) (snd (session_commit s')) (fst (session_commit s')) (Standalone (cl_postfix cl)) = Inr r"
    "to_rollup_tx (cl_encode_action cl) r = Some tx"
    by (auto simp: client_tx_def result_simps)
  note new = session_new_pending [OF assms(3) s(1)]
  from run_prog_simulates [OF s(2) assms(4) new(1,2)] obtain n where
    sim: "simulates env (data_key env cl) m p s h xs s' n" by blast
  have "overlay m2 (ss_updates s) = m2" for m2
    by (simp add: new(3) overlay_def fun_eq_iff)
  with sim commit_tx_shape [OF sim new(5,4) s(3,4)] show thesis
    by (intro that [of "ss_updates s'" "tracked (ss_tracker s')" n]) (simp_all add: simulates_def)
qed

section \<open>Applying a transaction\<close>

lemma map_of_version:
  assumes "map fst vups = map (\<lambda>k. k @ pf) W" "distinct W" "(k @ pf, v) \<in> set vups"
  shows "map_of vups (k @ pf) = Some v"
proof -
  have "distinct (map fst vups)" using assms(1,2) by (simp add: distinct_map inj_on_def)
  with assms(3) show ?thesis by (simp add: map_of_eq_Some_iff)
qed

lemma tx_shape_applied:
  fixes m0 :: "key \<rightharpoonup> val"
  assumes "tx_shape env cl m ups T new_head tx"
  defines "m1 \<equiv> apply_updates (tx_updates tx) m0"
  shows "data_key env cl k \<Longrightarrow> m1 k = overlay m0 ups k"
    and "data_key env cl k \<Longrightarrow> k \<notin> bt_keys ups \<Longrightarrow> m1 (k @ cl_postfix cl) = m0 (k @ cl_postfix cl)"
    and "k \<in> bt_keys ups \<Longrightarrow> \<exists>v. cl_bump cl (m (k @ cl_postfix cl)) = Inr v \<and> m1 (k @ cl_postfix cl) = Some v"
    and "prefix (queue_prefix env) k \<Longrightarrow> m1 k = m0 k"
proof -
  let ?pf = "cl_postfix cl"
  from assms(1) obtain vups W where t: "tx_updates tx = ups @ vups" "distinct W" "set W = bt_keys ups"
      "map fst vups = map (\<lambda>k. k @ ?pf) W"
      "\<forall>k\<in>set W. \<exists>v. cl_bump cl (m (k @ ?pf)) = Inr v \<and> (k @ ?pf, Some v) \<in> set vups"
      "bt_inv ups" "\<forall>k\<in>bt_keys ups. data_key env cl k"
    unfolding tx_shape_def by blast
  have vkeys: "fst ` set vups = (\<lambda>k. k @ ?pf) ` bt_keys ups"
    using t(3,4) by (metis list.set_map)
  have nover: "data_key env cl k \<Longrightarrow> k \<noteq> d @ ?pf" for k d
    by (auto simp: data_key_def suffix_def)
  have disj: "bt_keys ups \<inter> fst ` set vups = {}"
    using vkeys t(7) nover by blast
  have "distinct (map fst vups)" using t(2,4) by (simp add: distinct_map inj_on_def)
  then have m1: "m1 = overlay m0 (ups @ vups)"
    unfolding m1_def t(1) using t(6) disj bt_inv_distinct
    by (intro apply_updates_overlay) (auto simp: bt_keys_def)
  have none: "map_of u j = None \<longleftrightarrow> j \<notin> fst ` set u" for u :: "(key \<times> val option) list" and j
    by (simp add: map_of_eq_None_iff)
  show "m1 k = overlay m0 ups k" if "data_key env cl k"
  proof -
    have "map_of vups k = None" using nover [OF that] vkeys by (auto simp: none)
    then show ?thesis by (auto simp: m1 overlay_def map_add_def split: option.splits)
  qed
  show "m1 (k @ ?pf) = m0 (k @ ?pf)" if "data_key env cl k" "k \<notin> bt_keys ups"
  proof -
    have "map_of ups (k @ ?pf) = None" using nover t(7) by (fastforce simp: none bt_keys_def)
    moreover have "map_of vups (k @ ?pf) = None" using vkeys that by (auto simp: none)
    ultimately show ?thesis by (simp add: m1 overlay_def map_add_def)
  qed
  show "\<exists>v. cl_bump cl (m (k @ ?pf)) = Inr v \<and> m1 (k @ ?pf) = Some v" if k: "k \<in> bt_keys ups"
  proof -
    from t(3,5) k obtain v where v: "cl_bump cl (m (k @ ?pf)) = Inr v" "(k @ ?pf, Some v) \<in> set vups" by blast
    have "map_of ups (k @ ?pf) = None" using nover t(7) by (fastforce simp: none bt_keys_def)
    with v map_of_version [OF t(4,2) v(2)] show ?thesis by (simp add: m1 overlay_def map_add_def)
  qed
  show "m1 k = m0 k" if "prefix (queue_prefix env) k"
  proof -
    have "map_of ups k = None" "map_of vups k = None"
      using that t(7) vkeys by (auto simp: none bt_keys_def data_key_def image_iff)
    then show ?thesis by (simp add: m1 overlay_def map_add_def)
  qed
qed

lemma queue_is_cong:
  assumes "\<And>k. prefix (queue_prefix env) k \<Longrightarrow> m' k = m k"
  shows "queue_is env m' h xs \<longleftrightarrow> queue_is env m h xs"
  using assms by (simp add: queue_is_def number_at_def item_key_def)

lemma queue_head_set_accepted:
  assumes "codec_laws env" "queue_is env (anchor_states s name) h xs"
    and "queue_head_set env name i s = Some (Inr s')"
  shows "\<exists>n \<le> length xs. i = of_nat (h + n) \<and> queue_is env (anchor_states s' name) (h + n) (drop n xs) \<and>
    (\<forall>k. \<not> prefix (queue_prefix env) k \<longrightarrow> anchor_states s' name k = anchor_states s name k)"
proof -
  have bound: "h + length xs < 2 ^ 32" using assms(2) by (simp add: queue_is_def)
  from assms(3) have "of_nat h \<le> i" "i \<le> of_nat (h + length xs)"
    by (auto simp: queue_head_set_def queue_numbers [OF assms(1,2)] result_simps)
  then have le: "h \<le> unat i" "unat i \<le> h + length xs"
    using bound by (simp_all add: word_le_nat_alt del: of_nat_add)
  define n where "n = unat i - h"
  have n: "n \<le> length xs" "i = of_nat (h + n)" using le by (auto simp: n_def)
  from queue_head_set_list [OF assms(1,2) n(1)] obtain s'' where s'':
    "queue_head_set env name (of_nat (h + n)) s = ok_call s''"
    "queue_is env (anchor_states s'' name) (h + n) (drop n xs)"
    "\<forall>k. k \<noteq> queue_prefix env @ head_key \<and> k \<notin> item_key env ` {h..<h + n} \<longrightarrow>
       anchor_states s'' name k = anchor_states s name k" by blast
  have "s'' = s'" using s''(1) assms(3) n(2) by (simp add: ok_call_def)
  moreover have "anchor_states s'' name k = anchor_states s name k" if "\<not> prefix (queue_prefix env) k" for k
  proof -
    have "k \<noteq> queue_prefix env @ head_key" "k \<notin> item_key env ` {h..<h + n}"
      using that by (auto simp: item_key_def)
    with s''(3) show ?thesis by blast
  qed
  ultimately show ?thesis using n s''(2) by blast
qed

section \<open>How the store evolves\<close>

text \<open>
  Versions: \<open>rank\<close> orders them, and a client that writes a key makes its version larger. The
  encoding of an action is decoded as that action.
\<close>

definition client_laws :: "('acc, 'w, 'r) anchor_env \<Rightarrow> client \<Rightarrow> (val option \<Rightarrow> nat) \<Rightarrow> bool" where
  "client_laws env cl rank \<longleftrightarrow> codec_laws env \<and> cl_tracker cl = RwTracker \<and>
     (\<forall>a. decode_action env (cl_encode_action cl a) = Some a) \<and>
     (\<forall>v v'. cl_bump cl v = Inr v' \<longrightarrow> rank v < rank (Some v'))"

text \<open>
  From one store to a later one every data key keeps its value and version or gets a larger
  version, and the queue loses messages at its front and gets new ones at its end.
\<close>

definition evolves ::
    "('acc, 'w, 'r) anchor_env \<Rightarrow> client \<Rightarrow> (val option \<Rightarrow> nat) \<Rightarrow> (key \<rightharpoonup> val) \<Rightarrow> (key \<rightharpoonup> val) \<Rightarrow> bool" where
  "evolves env cl rank m m' \<longleftrightarrow>
     (\<forall>k. data_key env cl k \<longrightarrow>
        m' k = m k \<and> m' (k @ cl_postfix cl) = m (k @ cl_postfix cl) \<or>
        rank (m (k @ cl_postfix cl)) < rank (m' (k @ cl_postfix cl))) \<and>
     (\<forall>h xs. queue_is env m h xs \<longrightarrow>
        (\<exists>n ys. n \<le> length (xs @ ys) \<and> queue_is env m' (h + n) (drop n (xs @ ys))))"

lemma evolves_refl: "evolves env cl rank m m"
  unfolding evolves_def by (auto intro!: exI [of _ 0] exI [of _ "[]"])

lemma evolves_trans:
  assumes "evolves env cl rank m m'" "evolves env cl rank m' m''"
  shows "evolves env cl rank m m''"
proof -
  have "\<exists>n ys. n \<le> length (xs @ ys) \<and> queue_is env m'' (h + n) (drop n (xs @ ys))" if q: "queue_is env m h xs" for h xs
  proof -
    from assms(1) q obtain n1 ys1 where 1: "n1 \<le> length (xs @ ys1)" "queue_is env m' (h + n1) (drop n1 (xs @ ys1))"
      unfolding evolves_def by blast
    with assms(2) obtain n2 ys2 where 2: "n2 \<le> length (drop n1 (xs @ ys1) @ ys2)"
        "queue_is env m'' (h + n1 + n2) (drop n2 (drop n1 (xs @ ys1) @ ys2))"
      unfolding evolves_def by blast
    have "drop n2 (drop n1 (xs @ ys1) @ ys2) = drop (n1 + n2) (xs @ ys1 @ ys2)"
    proof -
      have "drop n1 (xs @ ys1) @ ys2 = drop n1 ((xs @ ys1) @ ys2)" using 1(1) by simp
      then show ?thesis by (simp only: drop_drop add.commute append_assoc)
    qed
    with 1(1) 2 show ?thesis
      by (intro exI [of _ "n1 + n2"] exI [of _ "ys1 @ ys2"]) (simp add: add.assoc)
  qed
  moreover have "m'' k = m k \<and> m'' (k @ cl_postfix cl) = m (k @ cl_postfix cl) \<or>
      rank (m (k @ cl_postfix cl)) < rank (m'' (k @ cl_postfix cl))" if "data_key env cl k" for k
  proof -
    from assms that have "m' k = m k \<and> m' (k @ cl_postfix cl) = m (k @ cl_postfix cl) \<or>
        rank (m (k @ cl_postfix cl)) < rank (m' (k @ cl_postfix cl))"
      "m'' k = m' k \<and> m'' (k @ cl_postfix cl) = m' (k @ cl_postfix cl) \<or>
        rank (m' (k @ cl_postfix cl)) < rank (m'' (k @ cl_postfix cl))"
      unfolding evolves_def by blast+
    then show ?thesis by auto
  qed
  ultimately show ?thesis by (simp add: evolves_def)
qed

text \<open>The effect of an accepted transaction of a client on the store.\<close>

lemma accepted_effect:
  assumes laws: "client_laws env cl rank" and shape: "tx_shape env cl m ups T new_head tx"
    and acc: "anchor_rollup env orig name tx nonce s = Some (Inr s')"
    and q: "queue_is env (anchor_states s name) h xs"
  shows "\<forall>k\<in>T. anchor_states s name (k @ cl_postfix cl) = m (k @ cl_postfix cl)"
    and "data_key env cl k \<Longrightarrow> anchor_states s' name k = overlay (anchor_states s name) ups k"
    and "data_key env cl k \<Longrightarrow> anchor_states s' name (k @ cl_postfix cl) =
      apply_updates (tx_updates tx) (anchor_states s name) (k @ cl_postfix cl)"
    and "\<exists>n \<le> length xs. queue_is env (anchor_states s' name) (h + n) (drop n xs) \<and>
      (case new_head of None \<Rightarrow> n = 0
       | Some i \<Rightarrow> i = of_nat (h + n) \<and>
           anchor_states s name (queue_prefix env @ head_key) = m (queue_prefix env @ head_key))"
proof -
  let ?m0 = "anchor_states s name" and ?m1 = "apply_updates (tx_updates tx) (anchor_states s name)"
  let ?s1 = "s\<lparr>anchor_states := (anchor_states s)(name := ?m1)\<rparr>"
  have codec: "codec_laws env" and dec: "decode_action env (cl_encode_action cl a) = Some a" for a
    using laws by (auto simp: client_laws_def)
  from acc obtain who s2 where conds: "\<forall>c\<in>set (tx_conds tx). cond_holds ?m0 c"
    and s2: "fold_call (exec_action env name who) (tx_actions tx) ?s1 = Some (Inr s2)"
      "anchor_states s' = anchor_states s2"
    by (auto simp: anchor_rollup_def result_simps Let_def)
  show "\<forall>k\<in>T. ?m0 (k @ cl_postfix cl) = m (k @ cl_postfix cl)"
    using conds shape unfolding tx_shape_def by fastforce
  have q1: "queue_is env ?m1 h xs"
    using q queue_is_cong [of env ?m1 ?m0] tx_shape_applied(4) [OF shape] by blast
  have final: "\<exists>n \<le> length xs. queue_is env (anchor_states s2 name) (h + n) (drop n xs) \<and>
      (\<forall>k. \<not> prefix (queue_prefix env) k \<longrightarrow> anchor_states s2 name k = ?m1 k) \<and>
      (case new_head of None \<Rightarrow> n = 0 | Some i \<Rightarrow> i = of_nat (h + n) \<and>
         ?m0 (queue_prefix env @ head_key) = m (queue_prefix env @ head_key))"
  proof (cases new_head)
    case None
    with shape s2(1) have "s2 = ?s1" by (simp add: tx_shape_def ok_call_def)
    with q1 None show ?thesis by (intro exI [of _ 0]) simp
  next
    case (Some i)
    with shape conds have "?m0 (queue_prefix env @ head_key) = m (queue_prefix env @ head_key)"
      "tx_actions tx = [cl_encode_action cl (SetQueueHead i)]"
      unfolding tx_shape_def by fastforce+
    moreover from this(2) s2(1) have "queue_head_set env name i ?s1 = Some (Inr s2)"
      by (auto simp: exec_action_def dec result_simps)
    ultimately show ?thesis
      using queue_head_set_accepted [OF codec, of ?s1 name h xs i s2] q1 Some by auto
  qed
  then show "\<exists>n \<le> length xs. queue_is env (anchor_states s' name) (h + n) (drop n xs) \<and>
      (case new_head of None \<Rightarrow> n = 0
       | Some i \<Rightarrow> i = of_nat (h + n) \<and> ?m0 (queue_prefix env @ head_key) = m (queue_prefix env @ head_key))"
    using s2(2) by auto
  show "anchor_states s' name k = overlay ?m0 ups k" "anchor_states s' name (k @ cl_postfix cl) = ?m1 (k @ cl_postfix cl)"
    if k: "data_key env cl k"
    using final s2(2) k tx_shape_applied(1) [OF shape k, of ?m0] by (auto simp: data_key_def)
qed

lemma accepted_evolves:
  assumes laws: "client_laws env cl rank" and shape: "tx_shape env cl m ups T new_head tx"
    and acc: "anchor_rollup env orig name tx nonce s = Some (Inr s')"
    and q: "queue_is env (anchor_states s name) h xs"
  shows "evolves env cl rank (anchor_states s name) (anchor_states s' name)"
proof -
  note eff = accepted_effect [OF laws shape acc]
  have "anchor_states s' name k = anchor_states s name k \<and>
      anchor_states s' name (k @ cl_postfix cl) = anchor_states s name (k @ cl_postfix cl) \<or>
      rank (anchor_states s name (k @ cl_postfix cl)) < rank (anchor_states s' name (k @ cl_postfix cl))"
    if k: "data_key env cl k" for k
  proof (cases "k \<in> bt_keys ups")
    case True
    then have "anchor_states s name (k @ cl_postfix cl) = m (k @ cl_postfix cl)"
      using eff(1) [OF q] shape by (auto simp: tx_shape_def)
    with tx_shape_applied(3) [OF shape True, of "anchor_states s name"] eff(3) [OF q k] laws show ?thesis
      by (auto simp: client_laws_def)
  next
    case False
    then have "map_of ups k = None" by (simp add: map_of_eq_None_iff bt_keys_def)
    with eff(2,3) [OF q k] tx_shape_applied(2) [OF shape k False] show ?thesis by (simp add: overlay_def)
  qed
  moreover have "\<exists>n ys. n \<le> length (xs @ ys) \<and> queue_is env (anchor_states s' name) (h + n) (drop n (xs @ ys))"
    if q: "queue_is env (anchor_states s name) h xs" for h xs
    using eff(4) [OF q] by (metis append_Nil2)
  ultimately show ?thesis by (simp add: evolves_def)
qed

text \<open>
  The steps of the chain that matter for the store of a name: transactions of clients that
  read some state of the store, messages pushed by other pallets as long as their numbers last,
  and steps that leave the store alone.
\<close>

inductive chain_step ::
    "('acc, 'w, 'r) anchor_env \<Rightarrow> client \<Rightarrow> bytes \<Rightarrow> ('acc, 'w) anchor \<Rightarrow> ('acc, 'w) anchor \<Rightarrow> bool"
  for env cl name where
  step_client: "client_tx env cl m p = Inr (Some tx) \<Longrightarrow> prog_keys (data_key env cl) p \<Longrightarrow> queue_is env m h0 xs0 \<Longrightarrow>
    anchor_rollup env orig name tx nonce s = Some (Inr s') \<Longrightarrow> chain_step env cl name s s'"
| step_push: "anchor_push_message env name x s = Some (Inr (i, s')) \<Longrightarrow> i + 1 \<noteq> 0 \<Longrightarrow> chain_step env cl name s s'"
| step_other: "anchor_states s' name = anchor_states s name \<Longrightarrow> chain_step env cl name s s'"

lemma push_evolves:
  assumes "codec_laws env" "anchor_push_message env name x s = Some (Inr (i, s'))" "i + 1 \<noteq> 0"
    and q: "queue_is env (anchor_states s name) h xs"
  shows "queue_is env (anchor_states s' name) h (xs @ [x])"
    "\<And>k. \<not> prefix (queue_prefix env) k \<Longrightarrow> anchor_states s' name k = anchor_states s name k"
proof -
  have bound: "h + length xs < 2 ^ 32" using q by (simp add: queue_is_def)
  from assms(2) have i: "i = of_nat (h + length xs)" and sub: "submitter_by_names s name \<noteq> None"
    and cap: "(of_nat (length xs) :: u32) < queue_capacity env"
    by (auto simp: anchor_push_message_def queue_numbers [OF assms(1) q] result_simps)
  have room: "h + length xs + 1 < 2 ^ 32"
  proof (rule ccontr)
    assume "\<not> h + length xs + 1 < 2 ^ 32"
    with bound have "h + length xs + 1 = 2 ^ 32" by simp
    then have "(of_nat (h + length xs + 1) :: u32) = of_nat (2 ^ 32)" by simp
    with assms(3) i show False by simp
  qed
  have "length xs < unat (queue_capacity env)"
    using cap bound by (simp add: word_less_nat_alt)
  from anchor_push_list [OF assms(1) q room sub this, of x] assms(2)
  have s': "s' = s\<lparr>anchor_states := (anchor_states s)(name := (anchor_states s name)
       (item_key env (h + length xs) \<mapsto> x,
        queue_prefix env @ tail_key \<mapsto> encode_u32 env (of_nat (h + length xs + 1))))\<rparr>"
    by (simp add: ok_call_def)
  show "queue_is env (anchor_states s' name) h (xs @ [x])"
    using queue_is_push [OF assms(1) q room] by (simp add: s')
  show "anchor_states s' name k = anchor_states s name k" if "\<not> prefix (queue_prefix env) k" for k
    using that by (auto simp: s' item_key_def)
qed

lemma chain_step_evolves:
  assumes "chain_step env cl name s s'" "client_laws env cl rank" "queue_is env (anchor_states s name) h xs"
  shows "evolves env cl rank (anchor_states s name) (anchor_states s' name)"
  using assms(1)
proof cases
  case (step_client m p tx h0 xs0 orig nonce)
  have rw: "cl_tracker cl = RwTracker" using assms(2) by (simp add: client_laws_def)
  obtain ups T n where "tx_shape env cl m ups T (if 0 < n then Some (of_nat (h0 + n)) else None) tx"
    by (rule client_tx_shape [OF step_client(1) rw step_client(3,2)]) blast
  then show ?thesis by (rule accepted_evolves [OF assms(2) _ step_client(4) assms(3)])
next
  case (step_push x i)
  have codec: "codec_laws env" using assms(2) by (simp add: client_laws_def)
  note push = push_evolves [OF codec step_push]
  have "anchor_states s' name k = anchor_states s name k \<and>
      anchor_states s' name (k @ cl_postfix cl) = anchor_states s name (k @ cl_postfix cl)" if "data_key env cl k" for k
    using push(2) [OF assms(3)] that by (simp add: data_key_def)
  moreover have "\<exists>n ys. n \<le> length (xs @ ys) \<and> queue_is env (anchor_states s' name) (h + n) (drop n (xs @ ys))"
    if "queue_is env (anchor_states s name) h xs" for h xs
    using push(1) [OF that] by (intro exI [of _ 0] exI [of _ "[x]"]) simp
  ultimately show ?thesis by (simp add: evolves_def)
next
  case step_other
  then show ?thesis by (simp add: evolves_refl)
qed

lemma chain_steps_evolve:
  assumes "(chain_step env cl name)\<^sup>*\<^sup>* s s'" "client_laws env cl rank" "queue_is env (anchor_states s name) h xs"
  shows "evolves env cl rank (anchor_states s name) (anchor_states s' name)"
  using assms
proof (induction rule: rtranclp_induct)
  case base
  show ?case by (rule evolves_refl)
next
  case (step t t')
  then have ev: "evolves env cl rank (anchor_states s name) (anchor_states t name)" by blast
  with step.prems(2) obtain h' xs' where "queue_is env (anchor_states t name) h' xs'"
    unfolding evolves_def by blast
  from ev chain_step_evolves [OF step.hyps(2) step.prems(1) this] show ?case by (rule evolves_trans)
qed

text \<open>A number in the store decodes to one head only.\<close>

lemma queue_is_head_unique:
  assumes "queue_is env m h xs" "queue_is env m' h' xs'"
    and "m' (queue_prefix env @ head_key) = m (queue_prefix env @ head_key)"
  shows "h' = h"
proof -
  have "(of_nat h' :: u32) = of_nat h"
    using assms by (simp add: queue_is_def number_at_def)
  moreover have "h < 2 ^ 32" "h' < 2 ^ 32" using assms(1,2) by (auto simp: queue_is_def)
  ultimately show ?thesis by (metis unat_of_nat_u32)
qed

lemma data_of_overlay:
  assumes "\<forall>k\<in>bt_keys ups. data_key env cl k"
  shows "data_of env cl (overlay m ups) = overlay (data_of env cl m) ups"
proof
  fix k
  have "map_of ups k = None" if "\<not> data_key env cl k"
    using that assms by (auto simp: map_of_eq_None_iff bt_keys_def)
  then show "data_of env cl (overlay m ups) k = overlay (data_of env cl m) ups k"
    by (auto simp: data_of_def overlay_def split: option.splits)
qed

text \<open>
  What an accepted transaction that pops \<open>n\<close> messages of the snapshot does to the queue: the
  head of the snapshot is still the head, so exactly those messages leave.
\<close>

lemma accepted_queue:
  assumes laws: "client_laws env cl rank"
    and shape: "tx_shape env cl m ups T (if 0 < n then Some (of_nat (h + n)) else None) tx"
    and acc: "anchor_rollup env orig name tx nonce s = Some (Inr s')"
    and old: "queue_is env m h xs" "n \<le> length xs"
    and now: "n1 \<le> length (xs @ ys)" "queue_is env (anchor_states s name) (h + n1) (drop n1 (xs @ ys))"
  shows "if n = 0 then \<forall>h' q. queue_is env (anchor_states s name) h' q \<longrightarrow> queue_is env (anchor_states s' name) h' q
     else \<exists>ys. queue_is env (anchor_states s name) h (xs @ ys) \<and>
       queue_is env (anchor_states s' name) (h + n) (drop n xs @ ys)"
proof (cases "n = 0")
  case True
  then have "queue_is env (anchor_states s' name) h' q" if "queue_is env (anchor_states s name) h' q" for h' q
    using accepted_effect(4) [OF laws shape acc that] by auto
  with True show ?thesis by simp
next
  case False
  with accepted_effect(4) [OF laws shape acc now(2)] obtain n2 where n2: "n2 \<le> length (drop n1 (xs @ ys))"
      "queue_is env (anchor_states s' name) (h + n1 + n2) (drop n2 (drop n1 (xs @ ys)))"
      "(of_nat (h + n) :: u32) = of_nat (h + n1 + n2)"
      "anchor_states s name (queue_prefix env @ head_key) = m (queue_prefix env @ head_key)"
    by (auto simp del: of_nat_add)
  from queue_is_head_unique [OF old(1) now(2) n2(4)] have n1: "n1 = 0" by simp
  have "h + n < 2 ^ 32" "h + n2 < 2 ^ 32"
    using old now n1 n2(1) by (auto simp: queue_is_def)
  then have "unat (of_nat (h + n) :: u32) = h + n" "unat (of_nat (h + n2) :: u32) = h + n2"
    by (simp_all del: of_nat_add)
  with n2(3) n1 have "n2 = n" by simp
  with n1 now(2) n2(2) old(2) False show ?thesis by (auto intro!: exI [of _ ys])
qed

end
