(* ===== verification/Rollup_Promises.thy ===== *)
theory Rollup_Promises
  imports Rollup_Safety
begin

text \<open>
  The properties of off-chain rollups: isolation of the transactions of clients that track
  reads and writes, the message queue as a list, and two ways in which the promises fail.
\<close>

section \<open>An example\<close>

text \<open>
  Numbers in four bytes with the low byte first, as SCALE writes them, and one store in which
  the message \<open>[5]\<close> waits.
\<close>

definition le_encode :: "u32 \<Rightarrow> bytes" where
  "le_encode n = map (\<lambda>i. of_nat (unat n div 256 ^ i)) [0..<4]"

fun le_decode :: "bytes \<Rightarrow> u32 option" where
  "le_decode (a # b # c # d # rest) = Some (of_nat (unat a + 256 * (unat b + 256 * (unat c + 256 * unat d))))"
| "le_decode _ = None"

lemma nat_four_digits:
  assumes "(k :: nat) < 2 ^ 32"
  shows "k mod 256 + 256 * (k div 256 mod 256 + 256 * (k div 65536 mod 256 + 256 * (k div 16777216 mod 256))) = k"
proof -
  have quot: "k div 65536 = k div 256 div 256" "k div 16777216 = k div 65536 div 256"
    by (simp_all flip: div_mult2_eq)
  have "k div 16777216 < 256" using assms by (simp add: div_less_iff_less_mult)
  then show ?thesis
    using quot mult_div_mod_eq [of 256 k] mult_div_mod_eq [of 256 "k div 256"] mult_div_mod_eq [of 256 "k div 65536"]
    by simp
qed

lemma le_decode_encode: "le_decode (le_encode n) = Some n"
proof -
  let ?k = "unat n"
  have byte: "unat (of_nat x :: u8) = x mod 256" for x
    by (simp add: unat_of_nat)
  have bytes: "le_encode n = [of_nat ?k, of_nat (?k div 256), of_nat (?k div 65536), of_nat (?k div 16777216)]"
    by (simp add: le_encode_def upt_rec)
  have "?k < 2 ^ 32" using unsigned_less [of n, where ?'a = nat] by simp
  from nat_four_digits [OF this] show ?thesis
    by (simp only: bytes le_decode.simps byte) simp
qed

lemma le_encode_simps: "length (le_encode n) = 4" "le_encode 0 = [0, 0, 0, 0]" "le_encode 1 = [1, 0, 0, 0]"
  "le_encode 2 = [2, 0, 0, 0]"
  by (simp_all add: le_encode_def upt_rec)

fun demo_encode_action :: "action \<Rightarrow> bytes" where
  "demo_encode_action (Reply data) = 0 # data"
| "demo_encode_action (SetQueueHead h) = 1 # le_encode h"

fun demo_decode_action :: "bytes \<Rightarrow> action option" where
  "demo_decode_action [] = None"
| "demo_decode_action (t # data) =
     (if t = 0 then Some (Reply data) else map_option SetQueueHead (le_decode data))"

definition rollup_env :: "(nat, unit, unit) anchor_env" where
  "rollup_env =
     \<lparr>on_response = (\<lambda>_ _ _ w. Inr w), queue_prefix = [81], queue_capacity = 3,
      encode_u32 = le_encode, decode_u32 = le_decode, decode_action = demo_decode_action\<rparr>"



lemma rollup_env_simps [simp]:
  "queue_prefix rollup_env = [81]" "queue_capacity rollup_env = 3" "encode_u32 rollup_env = le_encode"
  "decode_u32 rollup_env = le_decode" "decode_action rollup_env = demo_decode_action"
  by (simp_all add: rollup_env_def)

lemma rollup_env_codec: "codec_laws rollup_env"
  by (simp add: codec_laws_def le_decode_encode le_encode_simps)



definition rollup_store :: "key \<rightharpoonup> val" where
  "rollup_store = [[81] @ le_encode 0 \<mapsto> [5], [81] @ tail_key \<mapsto> le_encode 1]"

definition rollup_chain :: "(key \<rightharpoonup> val) \<Rightarrow> (nat, unit) anchor" where
  "rollup_chain m =
     \<lparr>submitter_by_names = [[1] \<mapsto> 7], anchor_states = (\<lambda>_. Map.empty)([1] := m), receiver = (), anchor_events = []\<rparr>"

definition rollup_later :: "key \<rightharpoonup> val" where
  "rollup_later = rollup_store([81] @ le_encode 1 \<mapsto> [6], [81] @ tail_key \<mapsto> le_encode 2)"

lemma rollup_chain_simps [simp]:
  "submitter_by_names (rollup_chain m) = [[1] \<mapsto> 7]" "anchor_states (rollup_chain m) [1] = m"
  by (simp_all add: rollup_chain_def)




definition rollup_demo_tx :: rollup_tx where
  "rollup_demo_tx =
     \<lparr>tx_conds = [Eq [10, 118] None, Eq ([81] @ head_key) None], tx_actions = [1 # le_encode 1],
      tx_updates = [([10], Some [5]), ([10, 118], Some [1])]\<rparr>"


lemma rollup_demo_accepted:
  "\<exists>s'. anchor_rollup rollup_env (Signed 7) [1] rollup_demo_tx 0 (rollup_chain rollup_later) = Some (Inr s')"
proof -
  let ?m = "apply_updates (tx_updates rollup_demo_tx) rollup_later"
  let ?s = "rollup_chain ?m"
  have "queue_is rollup_env ?m 0 [[5], [6]]"
    by (simp add: queue_is_def number_at_def item_key_def rollup_store_def rollup_later_def rollup_demo_tx_def
        apply_updates_def le_encode_simps head_key_def tail_key_def less_Suc_eq)
  from queue_head_set_list [OF rollup_env_codec, of ?s "[1]" 0 "[[5], [6]]" 1] this
  obtain s' where "queue_head_set rollup_env [1] 1 ?s = ok_call s'" by auto
  moreover have "(rollup_chain rollup_later)\<lparr>anchor_states := (anchor_states (rollup_chain rollup_later))([1] := ?m)\<rparr> = ?s"
    by (simp add: rollup_chain_def)
  moreover have "\<forall>c\<in>set (tx_conds rollup_demo_tx). cond_holds rollup_later c"
    by (simp add: rollup_demo_tx_def rollup_later_def rollup_store_def le_encode_simps head_key_def tail_key_def)
  ultimately show ?thesis
    by (simp add: anchor_rollup_def ensure_name_owner_def exec_action_def le_decode_encode Let_def result_simps
        rollup_demo_tx_def [THEN arg_cong [where f = tx_actions]])
qed

section \<open>Properties\<close>





text \<open>
  C38: The owner of a name can make every later push to its queue panic, by an accepted
  transaction that overwrites the head with bytes that are no number.
\<close>

theorem rollup_poisons_queue:
  assumes "submitter_by_names s name = Some who" "decode_u32 env [] = None" "length (queue_prefix env) \<le> 123"
  shows "\<exists>s'. anchor_rollup env (Signed who) name
      \<lparr>tx_conds = [], tx_actions = [], tx_updates = [(queue_prefix env @ head_key, Some [])]\<rparr> nonce s = Some (Inr s') \<and>
    (\<forall>x. anchor_push_message env name x s' = None)"
proof -
  have key: "queue_key env head_key = Some (queue_prefix env @ head_key)"
    using assms(3) by (simp add: queue_key_def head_key_def Let_def)
  let ?s = "s\<lparr>anchor_states := (anchor_states s)(name := (anchor_states s name)(queue_prefix env @ head_key \<mapsto> [])),
      anchor_events := anchor_events s @ [RollupExecuted who name nonce]\<rparr>"
  have "anchor_push_message env name x ?s = None" for x
    using assms(1)
    by (auto simp: anchor_push_message_def queue_len_def result_simps queue_tail_def
        queue_head_def queue_get_u32_def queue_get_def key assms(2) unwrap_call_def split: option.splits sum.splits)
  moreover have "anchor_rollup env (Signed who) name
      \<lparr>tx_conds = [], tx_actions = [], tx_updates = [(queue_prefix env @ head_key, Some [])]\<rparr> nonce s = Some (Inr ?s)"
    using assms(1) by (simp add: anchor_rollup_def ensure_name_owner_def apply_updates_def ok_call_def Let_def)
  ultimately show ?thesis by blast
qed

theorem rollup_poisons_queue_witness:
  "\<exists>s'. anchor_rollup rollup_env (Signed 7) [1]
      \<lparr>tx_conds = [], tx_actions = [], tx_updates = [([81] @ head_key, Some [])]\<rparr> 0 (rollup_chain rollup_store) = Some (Inr s') \<and>
    anchor_push_message rollup_env [1] [6] s' = None"
  using rollup_poisons_queue [of "rollup_chain rollup_store" "[1]" 7 rollup_env 0] by auto

section \<open>Names do not interfere\<close>

text \<open>Between two states only the store of \<open>name\<close> differs, and no name has another owner.\<close>

definition only_name :: "bytes \<Rightarrow> ('acc, 'w) anchor \<Rightarrow> ('acc, 'w) anchor \<Rightarrow> bool" where
  "only_name name s s' \<longleftrightarrow> submitter_by_names s' = submitter_by_names s \<and>
     (\<forall>n. n \<noteq> name \<longrightarrow> anchor_states s' n = anchor_states s n)"

lemma only_name_trans: "only_name name s t \<Longrightarrow> only_name name t u \<Longrightarrow> only_name name s u"
  by (simp add: only_name_def)

lemma queue_set_only: "queue_set env name k v s = Some s' \<Longrightarrow> only_name name s s'"
  by (auto simp: queue_set_def only_name_def)

lemma queue_remove_only: "queue_remove env name k s = Some s' \<Longrightarrow> only_name name s s'"
  by (auto simp: queue_remove_def only_name_def)

lemma queue_head_set_only:
  fixes env :: "('acc, 'w, 'r) anchor_env"
  assumes "queue_head_set env name i s = Some (Inr s')"
  shows "only_name name s s'"
proof -
  from assms obtain js s1 where
      loop: "fold_call (\<lambda>i s. expect_call (queue_remove env name (encode_u32 env (of_nat i)) s)) js s = (Some (Inr s1)
        :: ('r anchor_error dispatch_error, _) call)"
      and set: "queue_set env name head_key (encode_u32 env i) s1 = Some s'"
    by (auto simp: queue_head_set_def queue_set_u32_def result_simps)
  have "only_name name s s1"
    by (rule fold_call_invariant [OF loop])
      (auto simp: only_name_def [of name s s] result_simps intro: only_name_trans queue_remove_only)
  from this queue_set_only [OF set] show ?thesis by (rule only_name_trans)
qed

lemma exec_action_only:
  assumes "exec_action env name who raw s = Some (Inr s')"
  shows "only_name name s s'"
  using assms
  by (auto simp: exec_action_def only_name_def [of name s "s\<lparr>receiver := _\<rparr>"] ok_call_def
      dest: queue_head_set_only split: option.splits action.splits sum.splits)

lemma anchor_rollup_only:
  fixes env :: "('acc, 'w, 'r) anchor_env"
  assumes "anchor_rollup env orig name tx nonce s = Some (Inr s')"
  shows "only_name name s s' \<and> (\<exists>who. orig = Signed who \<and> submitter_by_names s name = Some who)"
proof -
  let ?s = "s\<lparr>anchor_states := (anchor_states s)(name := apply_updates (tx_updates tx) (anchor_states s name))\<rparr>"
  from assms obtain who s1 where who: "ensure_signed orig = (Inr who :: 'r anchor_error dispatch_error + 'acc)"
      "submitter_by_names s name = Some who"
      and acts: "fold_call (exec_action env name who) (tx_actions tx) ?s = Some (Inr s1)"
      and s': "s' = s1\<lparr>anchor_events := anchor_events s1 @ [RollupExecuted who name nonce]\<rparr>"
    by (auto simp: anchor_rollup_def ensure_name_owner_def Let_def result_simps)
  have "only_name name s s1"
    by (rule fold_call_invariant [OF acts]) (auto simp: only_name_def [of name s ?s] intro: only_name_trans exec_action_only)
  with who s' show ?thesis by (cases orig) (auto simp: only_name_def)
qed

lemma anchor_push_only:
  assumes "anchor_push_message env name x s = Some (Inr (i, s'))"
  shows "only_name name s s'"
  using assms
  by (auto simp: anchor_push_message_def queue_tail_set_def queue_set_u32_def result_simps
      intro: only_name_trans queue_set_only)

text \<open>The calls of the pallet; \<open>anchor_push_message\<close> is called by other pallets.\<close>

inductive anchor_step :: "('acc, 'w, 'r) anchor_env \<Rightarrow> ('acc, 'w) anchor \<Rightarrow> ('acc, 'w) anchor \<Rightarrow> bool" for env where
  step_claim: "claim_name orig name s = (Inr s' :: 'r anchor_error dispatch_error + _) \<Longrightarrow> anchor_step env s s'"
| step_rollup: "anchor_rollup env orig name tx nonce s = Some (Inr s') \<Longrightarrow> anchor_step env s s'"
| step_pushed: "anchor_push_message env name x s = Some (Inr (i, s')) \<Longrightarrow> anchor_step env s s'"

lemma claim_name_owner:
  assumes "claim_name orig name' s = Inr s'" "submitter_by_names s name = Some who"
  shows "submitter_by_names s' name = Some who"
  using assms by (auto simp: claim_name_def result_simps)

lemma anchor_step_owner:
  assumes "anchor_step env s s'" "submitter_by_names s name = Some who"
  shows "submitter_by_names s' name = Some who"
  using assms(1)
proof cases
  case (step_claim orig name')
  with assms(2) show ?thesis by (blast intro: claim_name_owner)
next
  case (step_rollup orig name' tx nonce)
  with assms(2) anchor_rollup_only [OF step_rollup] show ?thesis by (simp add: only_name_def)
next
  case (step_pushed name' x i)
  with assms(2) anchor_push_only [OF step_pushed] show ?thesis by (simp add: only_name_def)
qed

text \<open>
  C37: A claimed name keeps its owner for ever, it cannot be claimed again, and from then on the
  only transactions that change the store of the name are those its owner signs for this name.
\<close>

theorem name_owner_permanent:
  assumes "(anchor_step env)\<^sup>*\<^sup>* s s'" "submitter_by_names s name = Some who"
  shows "submitter_by_names s' name = Some who \<and>
    claim_name (Signed b) name s' = Inl (Module NameAlreadyClaimed) \<and>
    (\<forall>orig name' tx nonce t. anchor_rollup env orig name' tx nonce s' = Some (Inr t) \<longrightarrow>
       anchor_states t name \<noteq> anchor_states s' name \<longrightarrow> orig = Signed who \<and> name' = name)"
proof -
  from assms have who: "submitter_by_names s' name = Some who"
    by (induction rule: rtranclp_induct) (auto intro: anchor_step_owner)
  then have "claim_name (Signed b) name s' = Inl (Module NameAlreadyClaimed)"
    by (simp add: claim_name_def)
  moreover have "orig = Signed who \<and> name' = name"
    if "anchor_rollup env orig name' tx nonce s' = Some (Inr t)" "anchor_states t name \<noteq> anchor_states s' name"
    for orig name' tx nonce t
  proof -
    note only = anchor_rollup_only [OF that(1)]
    with that(2) have "name' = name" by (auto simp: only_name_def)
    with only who show ?thesis by auto
  qed
  ultimately show ?thesis using who by blast
qed

theorem name_owner_permanent_witness:
  "\<exists>s'. anchor_rollup rollup_env (Signed 7) [1] rollup_demo_tx 0 (rollup_chain rollup_later) = Some (Inr s') \<and>
     submitter_by_names s' [1] = Some 7 \<and>
     claim_name (Signed 8) [1] s' = (Inl (Module NameAlreadyClaimed) :: unit anchor_error dispatch_error + _)"
proof -
  from rollup_demo_accepted obtain s' where
    s': "anchor_rollup rollup_env (Signed 7) [1] rollup_demo_tx 0 (rollup_chain rollup_later) = Some (Inr s')" by blast
  then have "(anchor_step rollup_env)\<^sup>*\<^sup>* (rollup_chain rollup_later) s'" by (blast intro: step_rollup)
  from name_owner_permanent [OF this, of "[1]" 7 8] s' show ?thesis by auto
qed

section \<open>Tracking reads only\<close>

text \<open>
  The client of the anchor's own test, which counts versions in 32 bits, starting with one,
  under the postfix \<^verbatim>\<open>_ver\<close>, and tracks reads only; a program that writes a key, and one that
  copies it.
\<close>

definition u32_bump :: "val option \<Rightarrow> kv_error + val" where
  "u32_bump v =
     (case v of
        None \<Rightarrow> Inr (le_encode 1)
      | Some b \<Rightarrow> bind_result (ok_or (le_decode b) FailedToDecode) (\<lambda>n. Inr (le_encode (n + 1))))"

definition read_client :: client where
  "read_client =
     \<lparr>cl_encode_action = demo_encode_action, cl_bump = u32_bump, cl_postfix = [95, 118, 101, 114], cl_tracker = ReadTracker\<rparr>"

definition write_prog :: "u8 \<Rightarrow> prog" where
  "write_prog v = PPut [75] [v] PDone"

definition copy_prog :: prog where
  "copy_prog = PGet [75] (\<lambda>v. PPut [79] (case v of None \<Rightarrow> [] | Some x \<Rightarrow> x) PDone)"

definition write_tx :: "u8 \<Rightarrow> rollup_tx" where
  "write_tx v =
     \<lparr>tx_conds = [], tx_actions = [], tx_updates = [([75], Some [v]), ([75, 95, 118, 101, 114], Some (le_encode 1))]\<rparr>"

definition copy_tx :: "u8 \<Rightarrow> rollup_tx" where
  "copy_tx v =
     \<lparr>tx_conds = [Eq [75, 95, 118, 101, 114] (Some (le_encode 1))], tx_actions = [],
      tx_updates = [([79], Some [v]), ([79, 95, 118, 101, 114], Some (le_encode 1))]\<rparr>"

definition written :: "u8 \<Rightarrow> key \<rightharpoonup> val" where
  "written v = [[75] \<mapsto> [v], [75, 95, 118, 101, 114] \<mapsto> le_encode 1]"

lemmas client_eval =
  client_tx_def session_new_def queue_info_new_def get_number_def chain_storage_def scale_codec_def
  head_key_def tail_key_def session_put_def session_get_def access_tracker_new_def session_commit_def
  rollup_def Let_def version_of_def to_rollup_tx_def has_updates_def

lemma write_client: "client_tx rollup_env read_client Map.empty (write_prog v) = Inr (Some (write_tx v))"
  by (simp add: client_eval read_client_def write_prog_def write_tx_def u32_bump_def)

lemma copy_client: "client_tx rollup_env read_client (written v) copy_prog = Inr (Some (copy_tx v))"
  by (simp add: client_eval read_client_def copy_prog_def copy_tx_def u32_bump_def written_def)

text \<open>An accepted transaction without actions.\<close>

lemma anchor_rollup_plain:
  assumes "submitter_by_names s name = Some who" "tx_actions tx = []"
    and "\<forall>c\<in>set (tx_conds tx). cond_holds (anchor_states s name) c"
  obtains s' where "anchor_rollup env (Signed who) name tx nonce s = Some (Inr s')"
    "anchor_states s' name = apply_updates (tx_updates tx) (anchor_states s name)"
    "submitter_by_names s' = submitter_by_names s"
  using assms by (simp add: anchor_rollup_def ensure_name_owner_def ok_call_def Let_def)

lemma write_applied:
  assumes "submitter_by_names s [1] = Some 7" "anchor_states s [1] = Map.empty \<or> anchor_states s [1] = written u"
  obtains s' where "anchor_rollup rollup_env (Signed 7) [1] (write_tx v) 0 s = Some (Inr s')"
    "anchor_states s' [1] = written v" "submitter_by_names s' = submitter_by_names s"
proof -
  have "apply_updates (tx_updates (write_tx v)) (anchor_states s [1]) = written v"
    using assms(2) by (auto simp: apply_updates_def write_tx_def written_def fun_eq_iff)
  moreover have "tx_actions (write_tx v) = []" "\<forall>c\<in>set (tx_conds (write_tx v)). cond_holds (anchor_states s [1]) c"
    by (simp_all add: write_tx_def)
  ultimately show thesis
    using anchor_rollup_plain [OF assms(1), of "write_tx v" rollup_env 0] that by metis
qed

text \<open>
  C39: With the tracker that records reads only, transactions are not isolated. Two clients write
  a key from the same snapshot and both are accepted, since a write is no condition; both give
  the key the version one. A third client that read the first value between them is accepted
  after the second write and stores the stale value.
\<close>

theorem read_tracker_stale_read:
  "\<exists>c b a s1 s2 s3.
     client_tx rollup_env read_client (anchor_states (rollup_chain Map.empty) [1]) (write_prog 67) = Inr (Some c) \<and>
     client_tx rollup_env read_client (anchor_states (rollup_chain Map.empty) [1]) (write_prog 66) = Inr (Some b) \<and>
     anchor_rollup rollup_env (Signed 7) [1] c 0 (rollup_chain Map.empty) = Some (Inr s1) \<and>
     client_tx rollup_env read_client (anchor_states s1 [1]) copy_prog = Inr (Some a) \<and>
     anchor_rollup rollup_env (Signed 7) [1] b 0 s1 = Some (Inr s2) \<and>
     anchor_rollup rollup_env (Signed 7) [1] a 0 s2 = Some (Inr s3) \<and>
     anchor_states s2 [1] [75] = Some [66] \<and> anchor_states s3 [1] [75] = Some [66] \<and>
     anchor_states s3 [1] [79] = Some [67]"
proof -
  obtain s1 where s1: "anchor_rollup rollup_env (Signed 7) [1] (write_tx 67) 0 (rollup_chain Map.empty) = Some (Inr s1)"
      "anchor_states s1 [1] = written 67" "submitter_by_names s1 [1] = Some 7"
    by (rule write_applied [of "rollup_chain Map.empty" _ 67]) simp_all
  obtain s2 where s2: "anchor_rollup rollup_env (Signed 7) [1] (write_tx 66) 0 s1 = Some (Inr s2)"
      "anchor_states s2 [1] = written 66" "submitter_by_names s2 [1] = Some 7"
    by (rule write_applied [OF s1(3), of 67 66]) (simp_all add: s1)
  have "tx_actions (copy_tx 67) = []" "\<forall>c\<in>set (tx_conds (copy_tx 67)). cond_holds (anchor_states s2 [1]) c"
    by (simp_all add: copy_tx_def s2(2) written_def)
  then obtain s3 where s3: "anchor_rollup rollup_env (Signed 7) [1] (copy_tx 67) 0 s2 = Some (Inr s3)"
      "anchor_states s3 [1] = apply_updates (tx_updates (copy_tx 67)) (written 66)"
    using anchor_rollup_plain [OF s2(3)] s2(2) by metis
  have "anchor_states s3 [1] [75] = Some [66]" "anchor_states s3 [1] [79] = Some [67]" "anchor_states s2 [1] [75] = Some [66]"
    by (simp_all add: s3(2) s2(2) apply_updates_def copy_tx_def written_def)
  with s1 s2 s3 write_client copy_client show ?thesis by (metis rollup_chain_simps(2))
qed

end
